(* ===== verification/Go_Strings.thy ===== *)
theory Go_Strings
  imports Main "HOL-Library.Sublist"
begin

text \<open>
  The part of Go's standard library for strings that the panel uses (packages \<open>strings\<close>
  and \<open>strconv\<close>), over byte strings: a Go \<open>string\<close> is a list of bytes, here
  \<^typ>\<open>string\<close>. Case mapping and white space are Go's on ASCII text; bytes
  of 128 and above are neither letters nor spaces here, so the functions below are those of
  the library on ASCII input. Indices are \<^typ>\<open>nat\<close>; an absent index is
  \<^term>\<open>None\<close> where Go returns \<open>-1\<close>.
  The second half holds the lemmas the components share, collected in \<open>go_str\<close>.
\<close>

named_theorems go_str

section \<open>Bytes\<close>

definition byte :: "char \<Rightarrow> nat" where
  "byte c = of_char c"

definition is_upper :: "char \<Rightarrow> bool" where
  "is_upper c \<longleftrightarrow> 65 \<le> byte c \<and> byte c \<le> 90"

definition is_lower :: "char \<Rightarrow> bool" where
  "is_lower c \<longleftrightarrow> 97 \<le> byte c \<and> byte c \<le> 122"

definition is_digit :: "char \<Rightarrow> bool" where
  "is_digit c \<longleftrightarrow> 48 \<le> byte c \<and> byte c \<le> 57"

definition is_space :: "char \<Rightarrow> bool" where
  "is_space c \<longleftrightarrow> byte c \<in> {9, 10, 11, 12, 13, 32}"

definition lower_char :: "char \<Rightarrow> char" where
  "lower_char c = (if is_upper c then char_of (byte c + 32) else c)"

definition upper_char :: "char \<Rightarrow> char" where
  "upper_char c = (if is_lower c then char_of (byte c - 32) else c)"

definition digit_val :: "char \<Rightarrow> nat" where
  "digit_val c = byte c - 48"

definition digit_char :: "nat \<Rightarrow> char" where
  "digit_char d = char_of (48 + d)"

section \<open>Package strings\<close>

definition ToLower :: "string \<Rightarrow> string" where
  "ToLower s = map lower_char s"

definition ToUpper :: "string \<Rightarrow> string" where
  "ToUpper s = map upper_char s"

definition EqualFold :: "string \<Rightarrow> string \<Rightarrow> bool" where
  "EqualFold a b \<longleftrightarrow> ToLower a = ToLower b"

definition HasPrefix :: "string \<Rightarrow> string \<Rightarrow> bool" where
  "HasPrefix s p \<longleftrightarrow> prefix p s"

definition HasSuffix :: "string \<Rightarrow> string \<Rightarrow> bool" where
  "HasSuffix s p \<longleftrightarrow> suffix p s"

definition TrimPrefix :: "string \<Rightarrow> string \<Rightarrow> string" where
  "TrimPrefix s p = (if HasPrefix s p then drop (length p) s else s)"

definition TrimSuffix :: "string \<Rightarrow> string \<Rightarrow> string" where
  "TrimSuffix s p = (if HasSuffix s p then take (length s - length p) s else s)"

definition Contains :: "string \<Rightarrow> string \<Rightarrow> bool" where
  "Contains s p \<longleftrightarrow> sublist p s"

definition ContainsAny :: "string \<Rightarrow> string \<Rightarrow> bool" where
  "ContainsAny s cs \<longleftrightarrow> list_ex (\<lambda>c. c \<in> set cs) s"

definition TrimLeftSpace :: "string \<Rightarrow> string" where
  "TrimLeftSpace s = dropWhile is_space s"

definition TrimRightSpace :: "string \<Rightarrow> string" where
  "TrimRightSpace s = rev (dropWhile is_space (rev s))"

definition TrimSpace :: "string \<Rightarrow> string" where
  "TrimSpace s = TrimRightSpace (TrimLeftSpace s)"

fun index_where :: "('a \<Rightarrow> bool) \<Rightarrow> 'a list \<Rightarrow> nat option" where
  "index_where p [] = None"
| "index_where p (x # xs) = (if p x then Some 0 else map_option Suc (index_where p xs))"

definition IndexAny :: "string \<Rightarrow> string \<Rightarrow> nat option" where
  "IndexAny s cs = index_where (\<lambda>c. c \<in> set cs) s"

definition IndexByte :: "string \<Rightarrow> char \<Rightarrow> nat option" where
  "IndexByte s c = index_where (\<lambda>x. x = c) s"

definition LastIndexByte :: "string \<Rightarrow> char \<Rightarrow> nat option" where
  "LastIndexByte s c = map_option (\<lambda>k. length s - Suc k) (IndexByte (rev s) c)"

definition Cut :: "string \<Rightarrow> char \<Rightarrow> string \<times> string \<times> bool" where
  "Cut s c = (case IndexByte s c of
      None \<Rightarrow> (s, '''', False)
    | Some i \<Rightarrow> (take i s, drop (Suc i) s, True))"

definition CountByte :: "string \<Rightarrow> char \<Rightarrow> nat" where
  "CountByte s c = length (filter (\<lambda>x. x = c) s)"

text \<open>\<open>strings.Split\<close> with a one-byte separator, and the same with a predicate.\<close>

fun SplitP :: "(char \<Rightarrow> bool) \<Rightarrow> string \<Rightarrow> string list" where
  "SplitP p [] = [[]]"
| "SplitP p (x # xs) =
     (if p x then [] # SplitP p xs
      else (case SplitP p xs of [] \<Rightarrow> [[x]] | w # ws \<Rightarrow> (x # w) # ws))"

definition Split :: "string \<Rightarrow> char \<Rightarrow> string list" where
  "Split s c = SplitP (\<lambda>x. x = c) s"

definition FieldsFunc :: "(char \<Rightarrow> bool) \<Rightarrow> string \<Rightarrow> string list" where
  "FieldsFunc p s = filter (\<lambda>w. w \<noteq> []) (SplitP p s)"

definition Fields :: "string \<Rightarrow> string list" where
  "Fields s = FieldsFunc is_space s"

fun Join :: "string list \<Rightarrow> char \<Rightarrow> string" where
  "Join [] c = []"
| "Join [w] c = w"
| "Join (w # v # ws) c = w @ c # Join (v # ws) c"

text \<open>\<open>strings.ReplaceAll\<close> of one byte by a string.\<close>

definition ReplaceByte :: "string \<Rightarrow> char \<Rightarrow> string \<Rightarrow> string" where
  "ReplaceByte s c t = concat (map (\<lambda>x. if x = c then t else [x]) s)"

section \<open>Package strconv\<close>

fun nat_dec :: "nat \<Rightarrow> string" where
  "nat_dec n = (if n < 10 then [digit_char n] else nat_dec (n div 10) @ [digit_char (n mod 10)])"

declare nat_dec.simps [simp del]

definition Itoa :: "int \<Rightarrow> string" where
  "Itoa i = (if i < 0 then CHR ''-'' # nat_dec (nat (- i)) else nat_dec (nat i))"

fun dec_val :: "nat \<Rightarrow> string \<Rightarrow> nat" where
  "dec_val acc [] = acc"
| "dec_val acc (c # cs) = dec_val (10 * acc + digit_val c) cs"

definition all_digits :: "string \<Rightarrow> bool" where
  "all_digits s \<longleftrightarrow> s \<noteq> [] \<and> list_all is_digit s"

text \<open>
  \<open>strconv.Atoi\<close> and \<open>strconv.ParseInt(s, 10, 64)\<close>: an optional sign, at least one decimal
  digit, nothing else, and a value that fits in 64 bits; \<^term>\<open>None\<close> is Go's error.
\<close>

definition Atoi :: "string \<Rightarrow> int option" where
  "Atoi s =
     (let neg = (case s of c # _ \<Rightarrow> c = CHR ''-'' | [] \<Rightarrow> False);
          digits = (case s of c # cs \<Rightarrow> (if c = CHR ''-'' \<or> c = CHR ''+'' then cs else s) | [] \<Rightarrow> s)
      in if \<not> all_digits digits then None
         else let v = (if neg then - int (dec_val 0 digits) else int (dec_val 0 digits))
              in if - (2 ^ 63) \<le> v \<and> v < 2 ^ 63 then Some v else None)"

section \<open>Lemmas on bytes\<close>

lemma byte_less [simp]: "byte c < 256"
  by (simp add: byte_def)

lemma byte_inject [simp]: "byte c = byte d \<longleftrightarrow> c = d"
  by (simp add: byte_def)

lemma byte_char_of [simp]: "n < 256 \<Longrightarrow> byte (char_of n) = n"
  by (simp add: byte_def)

lemma lower_char_idem [simp]: "lower_char (lower_char c) = lower_char c"
  by (simp add: lower_char_def is_upper_def)

lemma ToLower_idem [simp]: "ToLower (ToLower s) = ToLower s"
  by (simp add: ToLower_def)

lemma ToLower_Nil [simp]: "ToLower [] = []"
  and ToLower_eq_Nil [simp]: "ToLower s = [] \<longleftrightarrow> s = []"
  and length_ToLower [simp]: "length (ToLower s) = length s"
  by (simp_all add: ToLower_def)

lemma byte_digit_char [simp]: "d < 10 \<Longrightarrow> byte (digit_char d) = 48 + d"
  by (simp add: digit_char_def)

lemma digit_val_char [simp]: "d < 10 \<Longrightarrow> digit_val (digit_char d) = d"
  by (simp add: digit_val_def)

lemma is_digit_char [simp]: "d < 10 \<Longrightarrow> is_digit (digit_char d)"
  by (simp add: is_digit_def)

section \<open>Lemmas on prefixes, suffixes and trimming\<close>

lemma HasPrefix_Nil [simp]: "HasPrefix s []"
  by (simp add: HasPrefix_def)

lemma TrimSpace_Nil [simp]: "TrimSpace [] = []"
  by (simp add: TrimSpace_def TrimLeftSpace_def TrimRightSpace_def)

lemma TrimLeftSpace_head: "TrimLeftSpace s = c # t \<Longrightarrow> \<not> is_space c"
  unfolding TrimLeftSpace_def by (metis hd_dropWhile list.distinct(1) list.sel(1))

lemma TrimRightSpace_last: "TrimRightSpace s \<noteq> [] \<Longrightarrow> \<not> is_space (last (TrimRightSpace s))"
  unfolding TrimRightSpace_def
  by (metis hd_dropWhile last_rev rev_is_Nil_conv)

lemma TrimRightSpace_id: "s = [] \<or> \<not> is_space (last s) \<Longrightarrow> TrimRightSpace s = s"
  unfolding TrimRightSpace_def
  by (cases s rule: rev_cases) auto

lemma TrimLeftSpace_id: "s = [] \<or> \<not> is_space (hd s) \<Longrightarrow> TrimLeftSpace s = s"
  unfolding TrimLeftSpace_def by (cases s) auto

lemma TrimRightSpace_prefix: "prefix (TrimRightSpace s) s"
  unfolding TrimRightSpace_def
  by (metis prefixI rev_append rev_rev_ident takeWhile_dropWhile_id)

lemma TrimSpace_trimmed:
  "TrimSpace s = [] \<or> (\<not> is_space (hd (TrimSpace s)) \<and> \<not> is_space (last (TrimSpace s)))"
proof (cases "TrimSpace s = []")
  case False
  have pre: "prefix (TrimSpace s) (TrimLeftSpace s)"
    by (simp add: TrimSpace_def TrimRightSpace_prefix)
  with False obtain c t where ct: "TrimSpace s = c # t" by (cases "TrimSpace s") auto
  with pre obtain u where "TrimLeftSpace s = c # u" by (auto simp: prefix_def)
  then have "\<not> is_space c" by (rule TrimLeftSpace_head)
  moreover have "\<not> is_space (last (TrimSpace s))"
    using False TrimRightSpace_last unfolding TrimSpace_def by blast
  ultimately show ?thesis using ct by simp
qed simp

lemma TrimSpace_id: "s = [] \<or> (\<not> is_space (hd s) \<and> \<not> is_space (last s)) \<Longrightarrow> TrimSpace s = s"
  unfolding TrimSpace_def by (metis TrimLeftSpace_id TrimRightSpace_id)

lemma TrimSpace_idem [simp]: "TrimSpace (TrimSpace s) = TrimSpace s"
  using TrimSpace_trimmed by (rule TrimSpace_id)

lemma TrimSpace_sublist: "sublist (TrimSpace s) s"
proof -
  have "prefix (TrimSpace s) (TrimLeftSpace s)"
    by (simp add: TrimSpace_def TrimRightSpace_prefix)
  moreover have "suffix (TrimLeftSpace s) s"
    by (simp add: TrimLeftSpace_def suffix_dropWhile)
  ultimately show ?thesis
    by (meson prefix_imp_sublist suffix_imp_sublist sublist_order.order_trans)
qed

lemma set_TrimSpace: "set (TrimSpace s) \<subseteq> set s"
  using TrimSpace_sublist by (rule set_mono_sublist)

section \<open>Lemmas on splitting and joining\<close>

lemma SplitP_not_Nil [simp]: "SplitP p s \<noteq> []"
  by (induction s) (auto split: list.splits)

lemma SplitP_words: "w \<in> set (SplitP p s) \<Longrightarrow> c \<in> set w \<Longrightarrow> \<not> p c \<and> c \<in> set s"
proof (induction s arbitrary: w)
  case (Cons x xs)
  then show ?case by (fastforce split: if_splits list.splits)
qed simp

lemma Split_words: "w \<in> set (Split s c) \<Longrightarrow> c \<notin> set w"
  unfolding Split_def using SplitP_words by blast

lemma Split_not_Nil [simp]: "Split s c \<noteq> []"
  by (simp add: Split_def)

lemma Join_Split [simp]: "Join (Split s c) c = s"
proof (induction s)
  case Nil
  then show ?case by (simp add: Split_def)
next
  case (Cons x xs)
  obtain w ws where w: "SplitP (\<lambda>y. y = c) xs = w # ws"
    by (cases "SplitP (\<lambda>y. y = c) xs") auto
  with Cons.IH show ?case by (cases ws) (auto simp: Split_def)
qed

lemma SplitP_append_sep: "\<forall>y \<in> set w. \<not> p y \<Longrightarrow> p c \<Longrightarrow> SplitP p (w @ c # s) = w # SplitP p s"
  by (induction w) auto

lemma SplitP_word: "\<forall>y \<in> set w. \<not> p y \<Longrightarrow> SplitP p w = [w]"
  by (induction w) auto

lemma Split_Join:
  "ws \<noteq> [] \<Longrightarrow> \<forall>w \<in> set ws. c \<notin> set w \<Longrightarrow> Split (Join ws c) c = ws"
proof (induction ws rule: induct_list012)
  case (2 w)
  then show ?case by (auto simp: Split_def intro!: SplitP_word)
next
  case (3 w v ws)
  then have "Split (Join (v # ws) c) c = v # ws" by simp
  with 3 show ?case
    by (auto simp: Split_def intro!: SplitP_append_sep [where p = "\<lambda>x. x = c", THEN trans])
qed simp

lemma set_Join: "x \<in> set (Join ws c) \<Longrightarrow> x = c \<or> (\<exists>w \<in> set ws. x \<in> set w)"
  by (induction ws rule: induct_list012) auto

lemma TrimSpace_Nil_iff: "TrimSpace s = [] \<longleftrightarrow> (\<forall>c \<in> set s. is_space c)"
proof -
  have "TrimRightSpace t = [] \<longleftrightarrow> (\<forall>c \<in> set t. is_space c)" for t
    by (auto simp: TrimRightSpace_def dropWhile_eq_Nil_conv)
  moreover have "(\<forall>c \<in> set (TrimLeftSpace s). is_space c) \<longleftrightarrow> (\<forall>c \<in> set s. is_space c)"
    unfolding TrimLeftSpace_def by (induction s) auto
  ultimately show ?thesis by (simp add: TrimSpace_def)
qed

lemma SplitP_flat: "\<not> p c \<Longrightarrow> c \<in> set s \<Longrightarrow> \<exists>w \<in> set (SplitP p s). c \<in> set w"
proof (induction s)
  case (Cons x xs)
  then show ?case by (cases "SplitP p xs") auto
qed simp

lemma Fields_Nil_iff: "Fields s = [] \<longleftrightarrow> (\<forall>c \<in> set s. is_space c)"
proof
  assume "Fields s = []"
  then show "\<forall>c \<in> set s. is_space c"
    using SplitP_flat [of is_space _ s] by (fastforce simp: Fields_def FieldsFunc_def filter_empty_conv)
next
  assume all: "\<forall>c \<in> set s. is_space c"
  have "w = []" if w: "w \<in> set (SplitP is_space s)" for w
  proof (rule ccontr)
    assume "w \<noteq> []"
    then show False using SplitP_words [OF w hd_in_set] all by blast
  qed
  then show "Fields s = []" by (auto simp: Fields_def FieldsFunc_def filter_empty_conv)
qed

lemma Fields_word:
  "w \<noteq> [] \<Longrightarrow> \<forall>y \<in> set w. \<not> is_space y \<Longrightarrow> is_space c \<Longrightarrow> Fields (w @ c # s) = w # Fields s"
  by (simp add: Fields_def FieldsFunc_def SplitP_append_sep)

lemma index_where_Some:
  "index_where p xs = Some i \<Longrightarrow> i < length xs \<and> p (xs ! i) \<and> (\<forall>j < i. \<not> p (xs ! j))"
proof (induction xs arbitrary: i)
  case (Cons x xs)
  then show ?case by (cases i) (auto split: if_splits simp: less_Suc_eq_0_disj)
qed simp

lemma index_where_None: "index_where p xs = None \<longleftrightarrow> (\<forall>x \<in> set xs. \<not> p x)"
  by (induction xs) auto

lemma index_where_append:
  "\<forall>x \<in> set xs. \<not> p x \<Longrightarrow> index_where p (xs @ y # ys) = (if p y then Some (length xs)
     else map_option (\<lambda>k. Suc (length xs + k)) (index_where p ys))"
  by (induction xs) (auto simp: option.map_comp o_def)

section \<open>Lemmas on decimal numerals\<close>

lemma nat_dec_not_Nil [simp]: "nat_dec n \<noteq> []"
  by (subst nat_dec.simps) simp

lemma dec_val_append: "dec_val acc (xs @ ys) = dec_val (dec_val acc xs) ys"
  by (induction xs arbitrary: acc) auto

lemma dec_val_nat_dec [simp]: "dec_val 0 (nat_dec n) = n"
proof (induction n rule: nat_dec.induct)
  case (1 n)
  show ?case
    by (cases "n < 10")
      (simp_all add: nat_dec.simps [of n] dec_val_append "1")
qed

lemma nat_dec_digits: "list_all is_digit (nat_dec n)"
proof (induction n rule: nat_dec.induct)
  case (1 n)
  then show ?case by (cases "n < 10") (simp_all add: nat_dec.simps [of n])
qed

lemma nat_dec_inject [simp]: "nat_dec m = nat_dec n \<longleftrightarrow> m = n"
  by (metis dec_val_nat_dec)

lemma is_digit_not_sign: "is_digit c \<Longrightarrow> c \<noteq> CHR ''-'' \<and> c \<noteq> CHR ''+''"
  by (auto simp: is_digit_def byte_def)

text \<open>\<open>strconv.Atoi\<close> reads back what \<open>strconv.Itoa\<close> prints.\<close>

lemma Atoi_Itoa:
  assumes "- (2 ^ 63) \<le> i" and "i < 2 ^ 63"
  shows "Atoi (Itoa i) = Some i"
proof (cases "i < 0")
  case True
  have "all_digits (nat_dec (nat (- i)))"
    by (simp add: all_digits_def nat_dec_digits)
  with True assms show ?thesis by (simp add: Atoi_def Itoa_def)
next
  case False
  obtain c cs where c: "nat_dec (nat i) = c # cs" by (cases "nat_dec (nat i)") auto
  have d: "list_all is_digit (c # cs)" using nat_dec_digits [of "nat i"] c by simp
  then have "c \<noteq> CHR ''-'' \<and> c \<noteq> CHR ''+''" by (auto dest: is_digit_not_sign)
  moreover have "dec_val 0 (c # cs) = nat i" using dec_val_nat_dec [of "nat i"] c by simp
  ultimately show ?thesis using False assms d c
    by (simp add: Atoi_def Itoa_def all_digits_def del: dec_val.simps)
qed

lemmas [go_str] = HasPrefix_def HasSuffix_def Contains_def ContainsAny_def IndexAny_def
  IndexByte_def TrimSpace_def TrimLeftSpace_def TrimRightSpace_def Split_def
  FieldsFunc_def Fields_def ToLower_def ToUpper_def

end
