(* ===== verification/Host_Match.thy ===== *)
theory Host_Match
  imports Go_Strings
begin

text \<open>
  Host matchers (\<open>internal/caddyapi/routeorder.go\<close>): canonical form, shape check and the overlap
  predicate the emission order and the incremental push share. \<open>idna.ToASCII\<close> of
  \<open>golang.org/x/net/idna\<close> is the parameter \<open>idna\<close>; \<^term>\<open>None\<close> is its error.
  \<open>host_matches\<close> is the rule the comments of the source give for Caddy's host matcher; the
  properties at the end show that the overlap predicate decides exactly whether two patterns have a
  host in common.
\<close>

section \<open>The operations\<close>

function strip_root_dots :: "string \<Rightarrow> string" where
  "strip_root_dots h =
     (if 1 < length h \<and> HasSuffix h ''.'' then strip_root_dots (take (length h - 1) h) else h)"
  by pat_completeness auto
termination
  by (relation "measure length") auto

declare strip_root_dots.simps [simp del]

definition NormalizeHost :: "(string \<Rightarrow> string option) \<Rightarrow> string \<Rightarrow> string" where
  "NormalizeHost idna h =
     (let h = ToLower (TrimSpace h) in
      if h = '''' then ''''
      else let h = strip_root_dots h in
        (case idna h of
           Some ascii \<Rightarrow> if ascii \<noteq> '''' then ToLower ascii else h
         | None \<Rightarrow> h))"

definition valid_label_char :: "char \<Rightarrow> bool" where
  "valid_label_char c \<longleftrightarrow> is_lower c \<or> is_digit c \<or> c = CHR ''-'' \<or> c = CHR ''_''"

definition valid_label :: "string \<Rightarrow> bool" where
  "valid_label l \<longleftrightarrow>
     l = ''*'' \<or>
     \<not> (l = '''' \<or> 63 < length l) \<and>
     \<not> Contains l ''*'' \<and>
     \<not> (hd l = CHR ''-'' \<or> last l = CHR ''-'') \<and>
     list_all valid_label_char l"

definition ValidHostMatcher :: "(string \<Rightarrow> string option) \<Rightarrow> string \<Rightarrow> bool" where
  "ValidHostMatcher idna h =
     (let raw = TrimSpace h in
      if raw = '''' \<or> HasPrefix raw ''.'' \<or> HasSuffix raw ''.'' then False
      else let h = NormalizeHost idna h in
        if h = '''' \<or> 253 < length h then False
        else if ContainsAny h [CHR ''{'', CHR ''}'', CHR '':'', CHR ''/'', CHR '' '', CHR 0x09, CHR 0x0D, CHR 0x0A]
          then False
        else if idna h = None then False
        else list_all valid_label (Split h (CHR ''.'')))"

definition hostPatternsIntersect :: "string \<Rightarrow> string \<Rightarrow> bool" where
  "hostPatternsIntersect a b =
     (let la = Split a (CHR ''.''); lb = Split b (CHR ''.'') in
      if length la \<noteq> length lb then False
      else list_all (\<lambda>(x, y). x = ''*'' \<or> y = ''*'' \<or> EqualFold x y) (zip la lb))"

definition HostsOverlap :: "(string \<Rightarrow> string option) \<Rightarrow> string \<Rightarrow> string \<Rightarrow> bool" where
  "HostsOverlap idna a b =
     (let a = NormalizeHost idna a; b = NormalizeHost idna b in
      if a = '''' \<or> b = '''' then True
      else if \<not> ValidHostMatcher idna a \<or> \<not> ValidHostMatcher idna b then True
      else hostPatternsIntersect a b)"

definition hostSetIsCatchAll :: "(string \<Rightarrow> string option) \<Rightarrow> string list \<Rightarrow> bool" where
  "hostSetIsCatchAll idna hs = list_all (\<lambda>h. NormalizeHost idna h = '''') hs"

definition HostSetsOverlap :: "(string \<Rightarrow> string option) \<Rightarrow> string list \<Rightarrow> string list \<Rightarrow> bool" where
  "HostSetsOverlap idna a b =
     (if hostSetIsCatchAll idna a \<or> hostSetIsCatchAll idna b then True
      else list_ex (\<lambda>x. list_ex (\<lambda>y. HostsOverlap idna x y) b) a)"

section \<open>What a host pattern matches\<close>

definition label_matches :: "string \<Rightarrow> string \<Rightarrow> bool" where
  "label_matches p l \<longleftrightarrow> p = ''*'' \<or> EqualFold p l"

definition host_matches :: "string \<Rightarrow> string \<Rightarrow> bool" where
  "host_matches pat host \<longleftrightarrow> list_all2 label_matches (Split pat (CHR ''.'')) (Split host (CHR ''.''))"

section \<open>Lemmas\<close>

lemma EqualFold_refl [simp]: "EqualFold a a"
  and EqualFold_sym: "EqualFold a b \<Longrightarrow> EqualFold b a"
  and EqualFold_trans: "EqualFold a b \<Longrightarrow> EqualFold b c \<Longrightarrow> EqualFold a c"
  by (simp_all add: EqualFold_def)

lemma hostPatternsIntersect_labels:
  "hostPatternsIntersect a b \<longleftrightarrow>
     list_all2 (\<lambda>x y. x = ''*'' \<or> y = ''*'' \<or> EqualFold x y) (Split a (CHR ''.'')) (Split b (CHR ''.''))"
  by (auto simp: hostPatternsIntersect_def Let_def list_all2_iff list_all_iff)

text \<open>A label both patterns match: the literal one where either of them has it.\<close>

definition common_label :: "string \<Rightarrow> string \<Rightarrow> string" where
  "common_label x y = (if x = ''*'' then y else x)"

lemma common_label_matches:
  "x = ''*'' \<or> y = ''*'' \<or> EqualFold x y \<Longrightarrow>
   label_matches x (common_label x y) \<and> label_matches y (common_label x y)"
  by (auto simp: common_label_def label_matches_def intro: EqualFold_sym)

lemma labels_common:
  "list_all2 (\<lambda>x y. x = ''*'' \<or> y = ''*'' \<or> EqualFold x y) xs ys \<Longrightarrow>
   list_all2 label_matches xs (map2 common_label xs ys) \<and>
   list_all2 label_matches ys (map2 common_label xs ys) \<and>
   set (map2 common_label xs ys) \<subseteq> set xs \<union> set ys"
proof (induction rule: list_all2_induct)
  case (Cons x xs y ys)
  then show ?case using common_label_matches [of x y] by (auto simp: common_label_def)
qed simp

lemma hostPatternsIntersect_common_host:
  assumes "hostPatternsIntersect a b"
  shows "\<exists>h. host_matches a h \<and> host_matches b h"
proof -
  define ls where "ls = map2 common_label (Split a (CHR ''.'')) (Split b (CHR ''.''))"
  have ls: "list_all2 label_matches (Split a (CHR ''.'')) ls"
      "list_all2 label_matches (Split b (CHR ''.'')) ls"
      "set ls \<subseteq> set (Split a (CHR ''.'')) \<union> set (Split b (CHR ''.''))"
    using labels_common assms unfolding hostPatternsIntersect_labels ls_def by blast+
  have "ls \<noteq> []" using ls(1) by auto
  moreover have "\<forall>w \<in> set ls. CHR ''.'' \<notin> set w" using ls(3) Split_words by blast
  ultimately have "Split (Join ls (CHR ''.'')) (CHR ''.'') = ls" by (rule Split_Join)
  then show ?thesis using ls(1,2)
    by (intro exI [of _ "Join ls (CHR ''.'')"]) (simp add: host_matches_def)
qed

lemma common_host_hostPatternsIntersect:
  assumes "host_matches a h" "host_matches b h"
  shows "hostPatternsIntersect a b"
proof -
  have "x = ''*'' \<or> y = ''*'' \<or> EqualFold x y" if "label_matches x l" "label_matches y l" for x y l
    using that by (auto simp: label_matches_def intro: EqualFold_sym EqualFold_trans)
  then have "list_all2 (\<lambda>x y. x = ''*'' \<or> y = ''*'' \<or> EqualFold x y)
      (Split a (CHR ''.'')) (Split b (CHR ''.''))"
    using assms unfolding host_matches_def list_all2_conv_all_nth by metis
  then show ?thesis by (simp add: hostPatternsIntersect_labels)
qed

lemma HostsOverlap_sym: "HostsOverlap idna a b = HostsOverlap idna b a"
proof -
  have "hostPatternsIntersect x y \<Longrightarrow> hostPatternsIntersect y x" for x y
    using hostPatternsIntersect_common_host common_host_hostPatternsIntersect by blast
  then show ?thesis unfolding HostsOverlap_def Let_def by auto
qed

section \<open>Properties\<close>

text \<open>C1: the label-by-label comparison of two host patterns decides exactly whether some host is
  matched by both, so neither a shadowed route is missed nor a disjoint pair reported.\<close>

theorem hostPatternsIntersect_iff:
  "hostPatternsIntersect a b \<longleftrightarrow> (\<exists>h. host_matches a h \<and> host_matches b h)"
  using hostPatternsIntersect_common_host common_host_hostPatternsIntersect by blast

text \<open>Two host sets reported as disjoint have no host in common: no host is matched by the
  canonical form of a pattern of each. Malformed and empty matchers fall on the overlapping side.\<close>

theorem HostSetsOverlap_disjoint:
  assumes "\<not> HostSetsOverlap idna as bs" "a \<in> set as" "b \<in> set bs"
  shows "\<not> (host_matches (NormalizeHost idna a) h \<and> host_matches (NormalizeHost idna b) h)"
proof -
  have "\<not> HostsOverlap idna a b"
    using assms by (auto simp: HostSetsOverlap_def list_ex_iff split: if_splits)
  then have "\<not> hostPatternsIntersect (NormalizeHost idna a) (NormalizeHost idna b)"
    by (auto simp: HostsOverlap_def Let_def split: if_splits)
  then show ?thesis using common_host_hostPatternsIntersect by blast
qed

theorem HostSetsOverlap_disjoint_witness:
  "\<not> HostSetsOverlap Some [''A.example.com''] [''*.example.org''] \<and>
   \<not> (host_matches (NormalizeHost Some ''A.example.com'') ''a.example.com'' \<and>
      host_matches (NormalizeHost Some ''*.example.org'') ''a.example.com'')"
proof -
  have "\<not> HostSetsOverlap Some [''A.example.com''] [''*.example.org'']" by code_simp
  then show ?thesis using HostSetsOverlap_disjoint by (metis list.set_intros(1))
qed

end
