(* ===== verification/Tenant_Template.thy ===== *)
theory Tenant_Template
  imports Go_Strings
begin

text \<open>
  Screening of tenant text for Caddy placeholders (\<open>internal/caddyapi/tenanttemplate.go\<close> and
  \<open>ScreenReplacerValue\<close> of \<open>customhandlers.go\<close>). Caddy expands \<open>{name}\<close> in headers, bodies and
  rewrite targets on the node, so a route owner must not reach a name outside \<open>http.request.\<close>.
  \<open>scan_loop\<close> is the scan of the source, with the loop state (the index, the byte before it and the
  rest of the string) as its arguments. An error is a value of \<open>tmpl_error\<close>; a Go \<open>error\<close> result is
  an option of it, with \<^term>\<open>None\<close> for \<open>nil\<close>.
\<close>

datatype tmpl_error = Placeholder_not_permitted string

definition tenantPlaceholderNS :: string where
  "tenantPlaceholderNS = ''http.request.''"

definition allowedTenantPlaceholder :: "string \<Rightarrow> bool" where
  "allowedTenantPlaceholder key \<longleftrightarrow>
     HasPrefix key tenantPlaceholderNS \<and> length tenantPlaceholderNS < length key"

record phSpan =
  span_start :: nat
  span_key :: string

definition span_name :: "string \<Rightarrow> string" where
  "span_name key = (case IndexByte key (CHR '':'') of
      Some c \<Rightarrow> TrimSpace (take c key) | None \<Rightarrow> TrimSpace key)"

function scan_loop :: "bool \<Rightarrow> nat \<Rightarrow> string \<Rightarrow> phSpan list" where
  "scan_loop after_backslash i [] = []"
| "scan_loop after_backslash i (c # cs) =
     (if c \<noteq> CHR ''{'' then scan_loop (c = CHR 92) (Suc i) cs
      else if after_backslash then scan_loop False (Suc i) cs
      else (case IndexAny cs ''{}'' of
          None \<Rightarrow> []
        | Some rel \<Rightarrow>
            (if cs ! rel = CHR ''{'' then scan_loop False (Suc i) cs
             else \<lparr>span_start = i, span_key = span_name (take rel cs)\<rparr>
                    # scan_loop False (i + rel + 2) (drop (Suc rel) cs))))"
  by pat_completeness auto
termination
  by (relation "measure (\<lambda>(b, i, s). length s)") auto

definition scanPlaceholderSpans :: "string \<Rightarrow> phSpan list" where
  "scanPlaceholderSpans s = scan_loop False 0 s"

definition ScreenTenantTemplate :: "string \<Rightarrow> tmpl_error option" where
  "ScreenTenantTemplate s =
     map_option (\<lambda>sp. Placeholder_not_permitted (''{'' @ span_key sp @ ''}''))
       (find (\<lambda>sp. \<not> allowedTenantPlaceholder (span_key sp)) (scanPlaceholderSpans s))"

fun neutralize_loop :: "string \<Rightarrow> nat \<Rightarrow> phSpan list \<Rightarrow> string" where
  "neutralize_loop s prev [] = drop prev s"
| "neutralize_loop s prev (sp # sps) =
     (if allowedTenantPlaceholder (span_key sp) then neutralize_loop s prev sps
      else take (span_start sp - prev) (drop prev s) @ CHR 92 # neutralize_loop s (span_start sp) sps)"

definition NeutralizeTenantTemplate :: "string \<Rightarrow> string" where
  "NeutralizeTenantTemplate s =
     (let spans = scanPlaceholderSpans s in
      if spans = [] then s
      else if list_all (\<lambda>sp. allowedTenantPlaceholder (span_key sp)) spans then s
      else neutralize_loop s 0 spans)"

definition unsafePlaceholderTokens :: "string list" where
  "unsafePlaceholderTokens = [''{env.'', ''{file.'', ''{system.'', ''{$'']"

definition ScreenReplacerValue :: "string \<Rightarrow> tmpl_error option" where
  "ScreenReplacerValue s =
     map_option (\<lambda>tok. Placeholder_not_permitted (tok @ ''...}''))
       (find (Contains (ToLower s)) unsafePlaceholderTokens)"

definition ScreenTenantRateKey :: "string \<Rightarrow> tmpl_error option" where
  "ScreenTenantRateKey s = ScreenReplacerValue s"

section \<open>What the replacer would expand\<close>

text \<open>The names a string makes Caddy expand, in order, by the scan above.\<close>

definition placeholders :: "string \<Rightarrow> string list" where
  "placeholders s = map span_key (scanPlaceholderSpans s)"

text \<open>Neutralising in one pass, for the proofs.\<close>

function neutral :: "bool \<Rightarrow> string \<Rightarrow> string" where
  "neutral after_backslash [] = []"
| "neutral after_backslash (c # cs) =
     (if c \<noteq> CHR ''{'' then c # neutral (c = CHR 92) cs
      else if after_backslash then c # neutral False cs
      else (case IndexAny cs ''{}'' of
          None \<Rightarrow> c # cs
        | Some rel \<Rightarrow>
            (if cs ! rel = CHR ''{'' then c # neutral False cs
             else (if allowedTenantPlaceholder (span_name (take rel cs)) then [c] else [CHR 92, c])
                    @ take (Suc rel) cs @ neutral False (drop (Suc rel) cs))))"
  by pat_completeness auto
termination
  by (relation "measure (\<lambda>(b, s). length s)") auto

abbreviation is_brace :: "char \<Rightarrow> bool" where
  "is_brace c \<equiv> c \<in> set ''{}''"

lemma IndexAny_braces: "IndexAny cs ''{}'' = index_where is_brace cs"
  by (simp add: IndexAny_def)

declare scan_loop.simps [simp del] neutral.simps [simp del]

lemma neutralize_loop_neutral:
  "prev \<le> length pre \<Longrightarrow> i = length pre \<Longrightarrow>
   neutralize_loop (pre @ s) prev (scan_loop b i s) = drop prev pre @ neutral b s"
proof (induction b i s arbitrary: pre prev rule: scan_loop.induct)
  case (1 b i)
  then show ?case by (simp add: scan_loop.simps neutral.simps)
next
  case (2 b i c cs)
  have step: "drop prev (pre @ [c]) = drop prev pre @ [c]" using "2.prems" by simp
  show ?case
  proof (cases "c \<noteq> CHR ''{'' \<or> b")
    case True
    then show ?thesis
      using "2.IH"(1) [of prev "pre @ [c]"] "2.IH"(2) [of prev "pre @ [c]"] "2.prems" step
      by (auto simp: scan_loop.simps neutral.simps)
  next
    case False
    show ?thesis
    proof (cases "IndexAny cs ''{}''")
      case None
      with False "2.prems" show ?thesis by (simp add: scan_loop.simps neutral.simps)
    next
      case (Some rel)
      then have rel: "rel < length cs" unfolding IndexAny_braces by (auto dest: index_where_Some)
      show ?thesis
      proof (cases "cs ! rel = CHR ''{''")
        case True
        then show ?thesis
          using "2.IH"(3) [of rel prev "pre @ [c]"] False Some "2.prems" step
          by (simp add: scan_loop.simps neutral.simps)
      next
        case brace: False
        let ?pre = "pre @ c # take (Suc rel) cs"
        have split: "pre @ c # cs = ?pre @ drop (Suc rel) cs" by simp
        have len: "i + rel + 2 = length ?pre" using "2.prems" rel by simp
        have IH: "neutralize_loop (pre @ c # cs) q (scan_loop False (i + rel + 2) (drop (Suc rel) cs))
            = drop q ?pre @ neutral False (drop (Suc rel) cs)" if "q \<le> length pre" for q
          using "2.IH"(4) [of rel q ?pre] False Some brace that len split by auto
        show ?thesis
          using False Some brace "2.prems" IH [of prev] IH [of "length pre"]
          by (auto simp: scan_loop.simps neutral.simps)
      qed
    qed
  qed
qed

lemma neutral_id:
  "list_all (\<lambda>sp. allowedTenantPlaceholder (span_key sp)) (scan_loop b i s) \<Longrightarrow> neutral b s = s"
proof (induction b i s rule: scan_loop.induct)
  case (2 b i c cs)
  then show ?case
    by (subst neutral.simps, subst (asm) (1) scan_loop.simps) (auto split: if_splits option.splits)
qed (simp add: neutral.simps)

lemma NeutralizeTenantTemplate_neutral: "NeutralizeTenantTemplate s = neutral False s"
  using neutralize_loop_neutral [of 0 "[]" 0 s False] neutral_id [of False 0 s]
  by (auto simp: NeutralizeTenantTemplate_def scanPlaceholderSpans_def Let_def)

text \<open>The names found do not depend on where the scan starts to count.\<close>

lemma scan_keys_shift: "map span_key (scan_loop b i s) = map span_key (scan_loop b j s)"
proof (induction b i s arbitrary: j rule: scan_loop.induct)
  case (2 b i c cs)
  show ?case
    using "2.IH"(1) [of "Suc j"] "2.IH"(2) [of "Suc j"] "2.IH"(3) [where j = "Suc j"]
      "2.IH"(4) [where j = "j + rel + 2" for rel]
    by (subst (1 2) scan_loop.simps) (auto split: option.splits)
qed (simp add: scan_loop.simps)

text \<open>Bytes that are no brace are passed over.\<close>

lemma scan_keys_skip:
  "\<forall>x \<in> set w. \<not> is_brace x \<Longrightarrow>
   map span_key (scan_loop b i (w @ CHR ''}'' # s)) = map span_key (scan_loop False j s)"
proof (induction w arbitrary: b i)
  case Nil
  show ?case using scan_keys_shift [of False "Suc i" s j] by (simp add: scan_loop.simps)
next
  case (Cons x w)
  then show ?case by (simp add: scan_loop.simps(2) [of b i x])
qed

text \<open>The first brace of a neutralised string is the first brace of the string.\<close>

lemma neutral_first_brace:
  "index_where is_brace s = Some rel \<Longrightarrow> s ! rel = CHR ''{'' \<Longrightarrow>
   \<exists>r. index_where is_brace (neutral b s) = Some r \<and> neutral b s ! r = CHR ''{''"
proof (induction s arbitrary: b rel)
  case (Cons c cs)
  show ?case
  proof (cases "is_brace c")
    case True
    with Cons.prems have "c = CHR ''{''" by simp
    then show ?thesis
      by (subst (1 2) neutral.simps) (auto split: option.splits)
  next
    case False
    with Cons.prems(1) obtain r where r: "index_where is_brace cs = Some r" "rel = Suc r" by auto
    with Cons.IH [of r "c = CHR 92"] Cons.prems(2) obtain q where
      "index_where is_brace (neutral (c = CHR 92) cs) = Some q"
      "neutral (c = CHR 92) cs ! q = CHR ''{''" by auto
    with False show ?thesis by (auto simp: neutral.simps)
  qed
qed simp

lemma scan_open_inner:
  assumes "index_where is_brace t = Some r" "t ! r = CHR ''{''"
  shows "scan_loop False i (CHR ''{'' # t) = scan_loop False (Suc i) t"
  using assms by (simp add: scan_loop.simps IndexAny_braces)

lemma scan_open_close:
  assumes "\<forall>x \<in> set w. \<not> is_brace x"
  shows "map span_key (scan_loop False i (CHR ''{'' # w @ CHR ''}'' # t))
       = span_name w # map span_key (scan_loop False j t)"
proof -
  have "index_where is_brace (w @ CHR ''}'' # t) = Some (length w)"
    using assms by (subst index_where_append) auto
  then show ?thesis
    using scan_keys_shift [of False "i + length w + 2" t j]
    by (simp add: scan_loop.simps IndexAny_braces)
qed

text \<open>Neutralising leaves exactly the permitted placeholders to be expanded.\<close>

lemma scan_keys_neutral:
  "map span_key (scan_loop b i (neutral b s)) =
   filter allowedTenantPlaceholder (map span_key (scan_loop b j s))"
proof (induction b s arbitrary: i j rule: neutral.induct)
  case (1 b)
  then show ?case by (simp add: neutral.simps scan_loop.simps)
next
  case (2 b c cs)
  show ?case
  proof (cases "c \<noteq> CHR ''{'' \<or> b")
    case True
    then show ?thesis
      using "2.IH"(1) [of "Suc i" "Suc j"] "2.IH"(2) [of "Suc i" "Suc j"]
      by (auto simp: neutral.simps scan_loop.simps)
  next
    case False
    then have c: "c = CHR ''{''" "\<not> b" by auto
    show ?thesis
    proof (cases "IndexAny cs ''{}''")
      case None
      with c show ?thesis by (simp add: neutral.simps scan_loop.simps)
    next
      case (Some rel)
      note rel = index_where_Some [OF Some [unfolded IndexAny_braces]]
      show ?thesis
      proof (cases "cs ! rel = CHR ''{''")
        case True
        from neutral_first_brace [OF Some [unfolded IndexAny_braces] True, of False]
        obtain r where "index_where is_brace (neutral False cs) = Some r"
          "neutral False cs ! r = CHR ''{''" by blast
        then have "scan_loop b i (neutral b (c # cs)) = scan_loop False (Suc i) (neutral False cs)"
          using c Some True scan_open_inner by (simp add: neutral.simps)
        moreover have "scan_loop b j (c # cs) = scan_loop False (Suc j) cs"
          using c Some True by (simp add: scan_loop.simps)
        ultimately show ?thesis using "2.IH"(3) [of rel "Suc i" "Suc j"] c Some True by simp
      next
        case brace: False
        define w rest where "w = take rel cs" and "rest = drop (Suc rel) cs"
        have close: "cs ! rel = CHR ''}''" using rel brace by auto
        have w: "\<forall>x \<in> set w. \<not> is_brace x" using rel by (auto simp: w_def in_set_conv_nth)
        have cs: "cs = w @ CHR ''}'' # rest"
          using rel close id_take_nth_drop [of rel cs] by (simp add: w_def rest_def)
        have take: "take (Suc rel) cs = w @ [CHR ''}'']"
          using rel close by (simp add: w_def take_Suc_conv_app_nth)
        have new: "neutral b (c # cs) = (if allowedTenantPlaceholder (span_name w) then [c] else [CHR 92, c])
            @ w @ CHR ''}'' # neutral False rest"
          using c Some brace take by (simp add: neutral.simps w_def rest_def)
        have IH: "map span_key (scan_loop False k (neutral False rest)) =
            filter allowedTenantPlaceholder (map span_key (scan_loop False l rest))" for k l
          using "2.IH"(4) [of rel k l] c Some brace by (simp add: rest_def)
        have old: "map span_key (scan_loop b j (c # cs)) = span_name w # map span_key (scan_loop False 0 rest)"
          using c cs scan_open_close [OF w] by simp
        show ?thesis
        proof (cases "allowedTenantPlaceholder (span_name w)")
          case True
          then show ?thesis
            using new old c IH [of 0 0] scan_open_close [OF w, of i "neutral False rest" 0] by simp
        next
          case False
          have "map span_key (scan_loop b i (CHR 92 # CHR ''{'' # w @ CHR ''}'' # neutral False rest)) =
              map span_key (scan_loop False 0 (neutral False rest))"
            using scan_keys_skip [OF w, of False "Suc (Suc i)" "neutral False rest" 0]
            by (simp add: scan_loop.simps(2))
          then show ?thesis using False new old c IH [of 0 0] by simp
        qed
      qed
    qed
  qed
qed

lemma placeholders_Neutralize:
  "placeholders (NeutralizeTenantTemplate s) = filter allowedTenantPlaceholder (placeholders s)"
  unfolding placeholders_def scanPlaceholderSpans_def NeutralizeTenantTemplate_neutral
  by (rule scan_keys_neutral)

lemma ScreenTenantTemplate_None:
  "ScreenTenantTemplate s = None \<longleftrightarrow> (\<forall>k \<in> set (placeholders s). allowedTenantPlaceholder k)"
  by (auto simp: ScreenTenantTemplate_def placeholders_def find_None_iff)

lemma Neutralize_id: "ScreenTenantTemplate s = None \<Longrightarrow> NeutralizeTenantTemplate s = s"
  by (auto simp: ScreenTenantTemplate_None placeholders_def NeutralizeTenantTemplate_def Let_def list_all_iff)

lemma ScreenReplacerValue_None:
  "ScreenReplacerValue s = None \<longleftrightarrow> (\<forall>t \<in> set unsafePlaceholderTokens. \<not> Contains (ToLower s) t)"
  by (auto simp: ScreenReplacerValue_def find_None_iff)

section \<open>Properties\<close>

text \<open>C3: in the text \<open>NeutralizeTenantTemplate\<close> returns, the placeholders left for Caddy to expand
  are exactly the permitted ones of the input, in order: every other one is escaped and no
  permitted one is lost or invented.\<close>

theorem NeutralizeTenantTemplate_placeholders:
  "placeholders (NeutralizeTenantTemplate s) = filter allowedTenantPlaceholder (placeholders s)"
  by (rule placeholders_Neutralize)

text \<open>C4: neutralised text passes the write-time screen, and text that passes it is stored and
  emitted byte for byte, so neutralising twice is neutralising once.\<close>

theorem NeutralizeTenantTemplate_screened:
  "ScreenTenantTemplate (NeutralizeTenantTemplate s) = None \<and>
   (ScreenTenantTemplate s = None \<longrightarrow> NeutralizeTenantTemplate s = s) \<and>
   NeutralizeTenantTemplate (NeutralizeTenantTemplate s) = NeutralizeTenantTemplate s"
proof -
  have "ScreenTenantTemplate (NeutralizeTenantTemplate s) = None"
    by (auto simp: ScreenTenantTemplate_None placeholders_Neutralize)
  then show ?thesis using Neutralize_id by blast
qed

theorem NeutralizeTenantTemplate_screened_witness:
  "ScreenTenantTemplate ''x {http.request.host} y'' = None \<and>
   NeutralizeTenantTemplate ''x {http.request.host} y'' = ''x {http.request.host} y''"
proof -
  have "ScreenTenantTemplate ''x {http.request.host} y'' = None" by code_simp
  then show ?thesis
    using NeutralizeTenantTemplate_screened [of "''x {http.request.host} y''"] by simp
qed

end
