(* ===== verification/Json.thy ===== *)
theory Json
  imports Go_Strings
begin

text \<open>
  JSON values as the panel builds them (\<open>map[string]any\<close>, \<open>[]any\<close>, \<open>[]string\<close>, numbers,
  strings, booleans) and as \<open>encoding/json\<close> decodes them into \<open>any\<close>. An object is an association
  list: Go maps are unordered, and the marshalled form sorts the keys, so the order of the pairs
  carries no meaning. A decoded number is a \<open>float64\<close>: \<open>JNum n\<close> is the whole number \<open>n\<close> and
  \<open>JFrac m e\<close> is the fraction \<open>m / 2 ^ (e + 1)\<close> with \<open>m\<close> odd, which together cover every finite
  \<open>float64\<close>. A nil slice and an empty slice are both \<open>JArr []\<close>.
  The traversals at the end say where a value occurs inside another one.
\<close>

named_theorems json_simps

datatype json =
    JNull
  | JBool bool
  | JNum int
  | JFrac int nat
  | JStr string
  | JArr "json list"
  | JObj "(string \<times> json) list"

definition jstrs :: "string list \<Rightarrow> json" where
  "jstrs ss = JArr (map JStr ss)"

text \<open>An optional object entry, for Go's conditional \<open>m[k] = v\<close>.\<close>

definition jopt :: "bool \<Rightarrow> string \<Rightarrow> json \<Rightarrow> (string \<times> json) list" where
  "jopt b k v = (if b then [(k, v)] else [])"

fun jget :: "json \<Rightarrow> string \<Rightarrow> json option" where
  "jget (JObj kvs) k = map_of kvs k"
| "jget _ k = None"

fun jstr_of :: "json \<Rightarrow> string option" where
  "jstr_of (JStr s) = Some s"
| "jstr_of _ = None"

fun jarr_of :: "json \<Rightarrow> json list" where
  "jarr_of (JArr vs) = vs"
| "jarr_of _ = []"

text \<open>The \<open>handler\<close> member of a Caddy handler object, and the \<open>handle\<close> chain of a route object.\<close>

definition handler_of :: "json \<Rightarrow> string option" where
  "handler_of v = Option.bind (jget v ''handler'') jstr_of"

definition handle_of :: "json \<Rightarrow> json list" where
  "handle_of v = (case jget v ''handle'' of Some a \<Rightarrow> jarr_of a | None \<Rightarrow> [])"

definition routes_of :: "json \<Rightarrow> json list" where
  "routes_of v = (case jget v ''routes'' of Some a \<Rightarrow> jarr_of a | None \<Rightarrow> [])"

text \<open>\<open>json_any P v\<close>: some value inside \<open>v\<close>, itself included, satisfies \<open>P\<close>.\<close>

fun json_any :: "(json \<Rightarrow> bool) \<Rightarrow> json \<Rightarrow> bool" where
  "json_any P (JArr vs) \<longleftrightarrow> P (JArr vs) \<or> (\<exists>v \<in> set vs. json_any P v)"
| "json_any P (JObj kvs) \<longleftrightarrow> P (JObj kvs) \<or> (\<exists>kv \<in> set kvs. json_any P (snd kv))"
| "json_any P JNull \<longleftrightarrow> P JNull"
| "json_any P (JBool b) \<longleftrightarrow> P (JBool b)"
| "json_any P (JNum n) \<longleftrightarrow> P (JNum n)"
| "json_any P (JFrac m e) \<longleftrightarrow> P (JFrac m e)"
| "json_any P (JStr s) \<longleftrightarrow> P (JStr s)"

text \<open>\<open>has_handler name v\<close>: a handler object of that name occurs somewhere in \<open>v\<close>.\<close>

definition is_handler :: "string \<Rightarrow> json \<Rightarrow> bool" where
  "is_handler name v \<longleftrightarrow> handler_of v = Some name"

definition has_handler :: "string \<Rightarrow> json \<Rightarrow> bool" where
  "has_handler name v \<longleftrightarrow> json_any (is_handler name) v"

section \<open>Lemmas\<close>

lemma jopt_simps [simp]: "jopt True k v = [(k, v)]" "jopt False k v = []"
  by (simp_all add: jopt_def)

lemma set_jopt [simp]: "kv \<in> set (jopt b k v) \<longleftrightarrow> b \<and> kv = (k, v)"
  by (auto simp: jopt_def)

lemma map_of_jopt: "map_of (jopt b k v) x = (if b \<and> x = k then Some v else None)"
  by (simp add: jopt_def)

lemma map_of_jopt_append:
  "map_of (jopt b k v @ kvs) x = (if b \<and> x = k then Some v else map_of kvs x)"
  by (simp add: jopt_def)

lemma is_handler_simps [simp]:
  "\<not> is_handler n JNull" "\<not> is_handler n (JBool b)" "\<not> is_handler n (JNum i)"
  "\<not> is_handler n (JFrac m e)" "\<not> is_handler n (JStr s)" "\<not> is_handler n (JArr vs)"
  by (simp_all add: is_handler_def handler_of_def)

lemma is_handler_JObj:
  "is_handler n (JObj kvs) \<longleftrightarrow> map_of kvs ''handler'' = Some (JStr n)"
  by (cases "map_of kvs ''handler''"; cases "the (map_of kvs ''handler'')")
    (auto simp: is_handler_def handler_of_def)

lemma has_handler_scalar [simp]:
  "\<not> has_handler n JNull" "\<not> has_handler n (JBool b)" "\<not> has_handler n (JNum i)"
  "\<not> has_handler n (JFrac m e)" "\<not> has_handler n (JStr s)"
  by (simp_all add: has_handler_def)

lemma has_handler_JArr [simp]: "has_handler n (JArr vs) \<longleftrightarrow> (\<exists>v \<in> set vs. has_handler n v)"
  by (simp add: has_handler_def)

lemma has_handler_JObj:
  "has_handler n (JObj kvs) \<longleftrightarrow>
     map_of kvs ''handler'' = Some (JStr n) \<or> (\<exists>kv \<in> set kvs. has_handler n (snd kv))"
  by (simp add: has_handler_def is_handler_JObj)

lemma has_handler_jstrs [simp]: "\<not> has_handler n (jstrs ss)"
  by (auto simp: jstrs_def)

lemma json_any_mono: "json_any P v \<Longrightarrow> (\<And>x. P x \<Longrightarrow> Q x) \<Longrightarrow> json_any Q v"
  by (induction v) fastforce+

lemma json_any_self: "P v \<Longrightarrow> json_any P v"
  by (cases v) auto

lemmas [json_simps] = has_handler_JObj map_of_jopt map_of_jopt_append

end
