(* ===== verification/Go_Errors.thy ===== *)
theory Go_Errors
  imports Main
begin

text \<open>
  Go's error results and loops over them. An \<open>error\<close> is an option of an error type of the component,
  with \<^term>\<open>None\<close> for \<open>nil\<close>; a computation that may panic is an option around its
  result, with \<^term>\<open>None\<close> for the panic. \<open>or_err\<close> is the sequence
  \<open>if err := a; err != nil { return err }; b\<close>, and \<open>first_err\<close> the loop that returns the first error.
\<close>

named_theorems go_err

definition or_err :: "'e option \<Rightarrow> 'e option \<Rightarrow> 'e option" where
  "or_err a b = (case a of Some e \<Rightarrow> Some e | None \<Rightarrow> b)"

fun first_err :: "('a \<Rightarrow> 'e option) \<Rightarrow> 'a list \<Rightarrow> 'e option" where
  "first_err f [] = None"
| "first_err f (x # xs) = (case f x of Some e \<Rightarrow> Some e | None \<Rightarrow> first_err f xs)"

text \<open>The guard \<open>if !cond { return err }\<close>.\<close>

definition unless :: "bool \<Rightarrow> 'e \<Rightarrow> 'e option" where
  "unless b e = (if b then None else Some e)"

text \<open>A loop whose body may panic: the panic or the first error ends it.\<close>

fun first_err_m :: "('a \<Rightarrow> 'e option option) \<Rightarrow> 'a list \<Rightarrow> 'e option option" where
  "first_err_m f [] = Some None"
| "first_err_m f (x # xs) =
     (case f x of None \<Rightarrow> None | Some (Some e) \<Rightarrow> Some (Some e) | Some None \<Rightarrow> first_err_m f xs)"

section \<open>Lemmas\<close>

lemma or_err_None [simp, go_err]: "or_err a b = None \<longleftrightarrow> a = None \<and> b = None"
  by (cases a) (auto simp: or_err_def)

lemma unless_None [simp, go_err]: "unless b e = None \<longleftrightarrow> b"
  by (simp add: unless_def)

lemma first_err_None [simp, go_err]: "first_err f xs = None \<longleftrightarrow> (\<forall>x \<in> set xs. f x = None)"
  by (induction xs) (auto split: option.splits)

lemma first_err_m_ok [go_err]: "first_err_m f xs = Some None \<longleftrightarrow> (\<forall>x \<in> set xs. f x = Some None)"
  by (induction xs) (auto split: option.splits)

lemma first_err_m_total: "\<forall>x \<in> set xs. f x \<noteq> None \<Longrightarrow> first_err_m f xs \<noteq> None"
  by (induction xs) (auto split: option.splits)

lemma first_err_cong [fundef_cong]:
  "xs = ys \<Longrightarrow> (\<And>x. x \<in> set ys \<Longrightarrow> f x = g x) \<Longrightarrow> first_err f xs = first_err g ys"
proof (induction xs arbitrary: ys)
  case (Cons x xs)
  then show ?case by (auto split: option.splits)
qed simp

end
