(* ===== verification/Custom_Handlers.thy ===== *)
theory Custom_Handlers
  imports Json Go_Errors Tenant_Template
begin

text \<open>
  The allow-list for admin-supplied Caddy handlers (\<open>internal/caddyapi/customhandlers.go\<close>): the walk
  that refuses embedded handlers and unsafe placeholders, the schema of each permitted handler, and
  \<open>SanitizeCustomHandlers\<close>. A handler object is the association list of its members. Go ranges over
  a map in no fixed order; the lists stand for whichever order a run takes, which can change the
  error that is reported but not whether there is one. Parameters: \<open>compiles\<close> is whether
  \<open>regexp.Compile\<close> accepts a pattern; \<open>decode\<close> is \<open>json.Unmarshal\<close> into a JSON value, \<open>encode\<close> is
  \<open>json.Marshal\<close>. \<open>unmarshal_maps\<close> is what unmarshalling into \<open>[]map[string]any\<close> makes of a value:
  the literal \<open>null\<close> gives the nil slice \<^term>\<open>None\<close>, a \<open>null\<close> entry a nil map.
\<close>

type_synonym hobj = "(string \<times> json) list"

datatype handler_error =
    Nested_too_deeply
  | Nested_not_permitted string
  | Unsafe_placeholder tmpl_error
  | Must_be string string
  | Key_not_permitted string string
  | Bad_regexp string
  | Encoder_missing string string
  | Find_empty string
  | Scalar_wanted string
  | Too_large
  | Not_a_handler_array
  | Missing_handler nat
  | Handler_not_permitted nat string
  | Property_not_permitted nat string string
  | In_property nat string handler_error
  | In_handler nat string handler_error
  | No_schema nat string
  | Remarshal_failed

definition customHandlerProps :: "(string \<times> string list option) list" where
  "customHandlerProps =
     [(''headers'', Some [''request'', ''response'']),
      (''encode'', Some [''encodings'', ''prefer'', ''minimum_length'']),
      (''rewrite'', Some [''method'', ''uri'', ''strip_path_prefix'', ''strip_path_suffix'',
                          ''uri_substring'', ''path_regexp'']),
      (''vars'', None),
      (''request_body'', Some [''max_size'', ''read_timeout'', ''write_timeout''])]"

definition nodeEncoders :: "string list" where
  "nodeEncoders = [''gzip'', ''zstd'']"

definition nestedHandlerKeys :: "string list" where
  "nestedHandlerKeys =
     [''handler'', ''handle'', ''routes'', ''handler_chain'', ''error_routes'', ''match'',
      ''terminal'', ''group'']"

section \<open>The walks\<close>

fun rejectNestedHandlers :: "json \<Rightarrow> nat \<Rightarrow> handler_error option" where
  "rejectNestedHandlers v depth =
     (if 8 < depth then Some Nested_too_deeply
      else case v of
        JObj t \<Rightarrow> first_err (\<lambda>kv.
          if fst kv \<in> set nestedHandlerKeys then Some (Nested_not_permitted (fst kv))
          else rejectNestedHandlers (snd kv) (depth + 1)) t
      | JArr t \<Rightarrow> first_err (\<lambda>vv. rejectNestedHandlers vv (depth + 1)) t
      | _ \<Rightarrow> None)"

fun rejectUnsafePlaceholders :: "json \<Rightarrow> nat \<Rightarrow> handler_error option" where
  "rejectUnsafePlaceholders v depth =
     (if 8 < depth then Some Nested_too_deeply
      else case v of
        JStr t \<Rightarrow> map_option Unsafe_placeholder (ScreenReplacerValue t)
      | JObj t \<Rightarrow> first_err (\<lambda>kv.
          or_err (rejectUnsafePlaceholders (JStr (fst kv)) (depth + 1))
                 (rejectUnsafePlaceholders (snd kv) (depth + 1))) t
      | JArr t \<Rightarrow> first_err (\<lambda>vv. rejectUnsafePlaceholders vv (depth + 1)) t
      | _ \<Rightarrow> None)"

declare rejectNestedHandlers.simps [simp del] rejectUnsafePlaceholders.simps [simp del]

section \<open>Value checks\<close>

definition asObject :: "json \<Rightarrow> string \<Rightarrow> handler_error + hobj" where
  "asObject v loc = (case v of JObj m \<Rightarrow> Inr m | _ \<Rightarrow> Inl (Must_be loc ''an object''))"

definition onlyKeys :: "hobj \<Rightarrow> string list \<Rightarrow> string \<Rightarrow> handler_error option" where
  "onlyKeys m allowed loc =
     first_err (\<lambda>kv. unless (fst kv \<in> set allowed) (Key_not_permitted loc (fst kv))) m"

definition wantString :: "json \<Rightarrow> string \<Rightarrow> handler_error option" where
  "wantString v loc = (case v of JStr _ \<Rightarrow> None | _ \<Rightarrow> Some (Must_be loc ''a string''))"

definition wantInt :: "json \<Rightarrow> string \<Rightarrow> handler_error option" where
  "wantInt v loc = (case v of JNum _ \<Rightarrow> None | _ \<Rightarrow> Some (Must_be loc ''an integer''))"

definition wantArr :: "json \<Rightarrow> string \<Rightarrow> string \<Rightarrow> handler_error + json list" where
  "wantArr v loc what = (case v of JArr vs \<Rightarrow> Inr vs | _ \<Rightarrow> Inl (Must_be loc what))"

text \<open>Sequencing after a call that returns a value or an error.\<close>

definition with_ok :: "'e + 'a \<Rightarrow> ('a \<Rightarrow> 'e option) \<Rightarrow> 'e option" where
  "with_ok r f = (case r of Inl e \<Rightarrow> Some e | Inr x \<Rightarrow> f x)"

definition indexed :: "string \<Rightarrow> nat \<Rightarrow> string" where
  "indexed loc i = loc @ ''['' @ Itoa (int i) @ '']''"

definition sub_loc :: "string \<Rightarrow> string \<Rightarrow> string" where
  "sub_loc loc k = loc @ ''.'' @ k"

definition wantStringSlice :: "json \<Rightarrow> string \<Rightarrow> handler_error + string list" where
  "wantStringSlice v loc =
     (case v of
        JArr arr \<Rightarrow>
          (case first_err (\<lambda>(i, e). case e of JStr _ \<Rightarrow> None | _ \<Rightarrow> Some (Must_be (indexed loc i) ''a string''))
                 (enumerate 0 arr) of
             Some err \<Rightarrow> Inl err
           | None \<Rightarrow> Inr (map (\<lambda>e. case jstr_of e of Some s \<Rightarrow> s | None \<Rightarrow> '''') arr))
      | _ \<Rightarrow> Inl (Must_be loc ''an array of strings''))"

definition wantHeaderMap :: "json \<Rightarrow> string \<Rightarrow> handler_error option" where
  "wantHeaderMap v loc =
     with_ok (asObject v loc) (first_err (\<lambda>(k, vv). with_ok (wantStringSlice vv (sub_loc loc k)) (\<lambda>_. None)))"

definition compilableRegexp :: "(string \<Rightarrow> bool) \<Rightarrow> string \<Rightarrow> string \<Rightarrow> handler_error option" where
  "compilableRegexp compiles pat loc =
     (if (case IndexByte pat (CHR ''{'') of
            None \<Rightarrow> False
          | Some i \<Rightarrow> (case IndexByte (drop (Suc i) pat) (CHR ''}'') of None \<Rightarrow> False | Some j \<Rightarrow> 0 < j))
      then None
      else unless (compiles pat) (Bad_regexp loc))"

section \<open>Schemas\<close>

definition headerOpsKeys :: "string list" where
  "headerOpsKeys = [''add'', ''set'', ''delete'', ''replace'']"

definition respHeaderOpsKeys :: "string list" where
  "respHeaderOpsKeys = [''add'', ''set'', ''delete'', ''replace'', ''require'', ''deferred'']"

text \<open>The case \<open>"replace"\<close> of \<open>validateHeaderOps\<close>.\<close>

definition validate_replace :: "(string \<Rightarrow> bool) \<Rightarrow> json \<Rightarrow> string \<Rightarrow> handler_error option" where
  "validate_replace compiles vv loc =
     with_ok (asObject vv loc) (first_err (\<lambda>(field, reps).
       with_ok (wantArr reps (sub_loc loc field) ''an array of replacements'') (\<lambda>arr.
         first_err (\<lambda>(i, e).
           let rw = indexed (sub_loc loc field) i in
           with_ok (asObject e rw) (\<lambda>ro.
             or_err (onlyKeys ro [''search'', ''search_regexp'', ''replace''] rw)
               (first_err (\<lambda>(rk, rv).
                  or_err (wantString rv (sub_loc rw rk))
                    (case rv of
                       JStr s \<Rightarrow> if rk = ''search_regexp''
                         then compilableRegexp compiles s (sub_loc rw ''search_regexp'') else None
                     | _ \<Rightarrow> None)) ro)))
         (enumerate 0 arr))))"

text \<open>The case \<open>"require"\<close> of \<open>validateHeaderOps\<close>.\<close>

definition validate_require :: "json \<Rightarrow> string \<Rightarrow> handler_error option" where
  "validate_require vv loc =
     with_ok (asObject vv loc) (\<lambda>rm.
       or_err (onlyKeys rm [''status_code'', ''headers''] loc)
       (or_err
         (case map_of rm ''status_code'' of
            None \<Rightarrow> None
          | Some codes \<Rightarrow>
              with_ok (wantArr codes (sub_loc loc ''status_code'') ''an array of integers'') (\<lambda>arr.
                first_err (\<lambda>(i, c). wantInt c (indexed (sub_loc loc ''status_code'') i)) (enumerate 0 arr)))
         (case map_of rm ''headers'' of
            None \<Rightarrow> None
          | Some hdrs \<Rightarrow> wantHeaderMap hdrs (sub_loc loc ''headers''))))"

definition validateHeaderOps :: "(string \<Rightarrow> bool) \<Rightarrow> json \<Rightarrow> bool \<Rightarrow> string \<Rightarrow> handler_error option" where
  "validateHeaderOps compiles v resp loc =
     with_ok (asObject v loc) (\<lambda>m.
       or_err (onlyKeys m (if resp then respHeaderOpsKeys else headerOpsKeys) loc)
       (first_err (\<lambda>(k, vv).
          let sub = sub_loc loc k in
          if k = ''add'' \<or> k = ''set'' then wantHeaderMap vv sub
          else if k = ''delete'' then with_ok (wantStringSlice vv sub) (\<lambda>_. None)
          else if k = ''replace'' then validate_replace compiles vv sub
          else if k = ''deferred'' then (case vv of JBool _ \<Rightarrow> None | _ \<Rightarrow> Some (Must_be sub ''a boolean''))
          else if k = ''require'' then validate_require vv sub
          else None) m))"

definition validateHeadersHandler :: "(string \<Rightarrow> bool) \<Rightarrow> hobj \<Rightarrow> handler_error option" where
  "validateHeadersHandler compiles h =
     or_err (case map_of h ''request'' of
               None \<Rightarrow> None | Some v \<Rightarrow> validateHeaderOps compiles v False ''request'')
            (case map_of h ''response'' of
               None \<Rightarrow> None | Some v \<Rightarrow> validateHeaderOps compiles v True ''response'')"

definition validateEncodeHandler :: "hobj \<Rightarrow> handler_error option" where
  "validateEncodeHandler h =
     or_err
       (case map_of h ''encodings'' of
          None \<Rightarrow> None
        | Some v \<Rightarrow> with_ok (asObject v ''encodings'') (first_err (\<lambda>(name, cfg).
            if name \<notin> set nodeEncoders then Some (Encoder_missing ''encodings'' name)
            else with_ok (asObject cfg (sub_loc ''encodings'' name)) (\<lambda>c.
              or_err (onlyKeys c [''level''] (sub_loc ''encodings'' name))
                (case map_of c ''level'' of
                   None \<Rightarrow> None
                 | Some lvl \<Rightarrow> if name = ''gzip'' then wantInt lvl ''encodings.gzip.level''
                              else wantString lvl ''encodings.zstd.level'')))))
     (or_err
       (case map_of h ''prefer'' of
          None \<Rightarrow> None
        | Some v \<Rightarrow> with_ok (wantStringSlice v ''prefer'')
            (first_err (\<lambda>n. unless (n \<in> set nodeEncoders) (Encoder_missing ''prefer'' n))))
       (case map_of h ''minimum_length'' of
          None \<Rightarrow> None | Some v \<Rightarrow> wantInt v ''minimum_length''))"

definition validateRewriteHandler :: "(string \<Rightarrow> bool) \<Rightarrow> hobj \<Rightarrow> handler_error option" where
  "validateRewriteHandler compiles h =
     or_err
       (first_err (\<lambda>k. case map_of h k of None \<Rightarrow> None | Some v \<Rightarrow> wantString v k)
          [''method'', ''uri'', ''strip_path_prefix'', ''strip_path_suffix''])
     (or_err
       (case map_of h ''uri_substring'' of
          None \<Rightarrow> None
        | Some v \<Rightarrow> with_ok (wantArr v ''uri_substring'' ''an array of objects'') (\<lambda>arr.
            first_err (\<lambda>(i, e).
              let loc = indexed ''uri_substring'' i in
              with_ok (asObject e loc) (\<lambda>o'.
                or_err (onlyKeys o' [''find'', ''replace'', ''limit''] loc)
                  (first_err (\<lambda>(k, vv). if k = ''limit'' then wantInt vv (sub_loc loc ''limit'')
                                        else wantString vv (sub_loc loc k)) o')))
            (enumerate 0 arr)))
       (case map_of h ''path_regexp'' of
          None \<Rightarrow> None
        | Some v \<Rightarrow> with_ok (wantArr v ''path_regexp'' ''an array of objects'') (\<lambda>arr.
            first_err (\<lambda>(i, e).
              let loc = indexed ''path_regexp'' i in
              with_ok (asObject e loc) (\<lambda>o'.
                or_err (onlyKeys o' [''find'', ''replace''] loc)
                (or_err (first_err (\<lambda>(k, vv). wantString vv (sub_loc loc k)) o')
                  (let find' = (case Option.bind (map_of o' ''find'') jstr_of of Some s \<Rightarrow> s | None \<Rightarrow> '''') in
                   or_err (unless (find' \<noteq> '''') (Find_empty loc))
                     (compilableRegexp compiles find' (sub_loc loc ''find''))))))
            (enumerate 0 arr))))"

definition validateVarsHandler :: "hobj \<Rightarrow> handler_error option" where
  "validateVarsHandler h =
     first_err (\<lambda>(k, v).
       if k = ''handler'' then None
       else (case v of JObj _ \<Rightarrow> Some (Scalar_wanted k) | JArr _ \<Rightarrow> Some (Scalar_wanted k) | _ \<Rightarrow> None)) h"

definition validateRequestBodyHandler :: "hobj \<Rightarrow> handler_error option" where
  "validateRequestBodyHandler h =
     first_err (\<lambda>k. case map_of h k of None \<Rightarrow> None | Some v \<Rightarrow> wantInt v k)
       [''max_size'', ''read_timeout'', ''write_timeout'']"

definition handlerSchemas :: "(string \<Rightarrow> bool) \<Rightarrow> (string \<times> (hobj \<Rightarrow> handler_error option)) list" where
  "handlerSchemas compiles =
     [(''headers'', validateHeadersHandler compiles),
      (''encode'', validateEncodeHandler),
      (''rewrite'', validateRewriteHandler compiles),
      (''vars'', validateVarsHandler),
      (''request_body'', validateRequestBodyHandler)]"

section \<open>SanitizeCustomHandlers\<close>

definition hobj_name :: "hobj \<Rightarrow> string" where
  "hobj_name h = (case Option.bind (map_of h ''handler'') jstr_of of Some s \<Rightarrow> s | None \<Rightarrow> '''')"

text \<open>The loop body on entry \<open>i\<close>.\<close>

definition check_entry :: "(string \<Rightarrow> bool) \<Rightarrow> nat \<Rightarrow> hobj \<Rightarrow> handler_error option" where
  "check_entry compiles i h =
     (let name = hobj_name h in
      if name = '''' then Some (Missing_handler i)
      else case map_of customHandlerProps name of
        None \<Rightarrow> Some (Handler_not_permitted i name)
      | Some props \<Rightarrow>
          or_err
            (first_err (\<lambda>(k, v).
               if k = ''handler'' then None
               else if (case props of Some ps \<Rightarrow> k \<notin> set ps | None \<Rightarrow> False)
                 then Some (Property_not_permitted i k name)
               else or_err (map_option (In_property i k) (rejectNestedHandlers v 0))
                           (map_option (In_property i k) (rejectUnsafePlaceholders v 0))) h)
            (case map_of (handlerSchemas compiles) name of
               Some schema \<Rightarrow> map_option (In_handler i name) (schema h)
             | None \<Rightarrow> Some (No_schema i name)))"

fun map_entry :: "json \<Rightarrow> hobj option" where
  "map_entry (JObj m) = Some m"
| "map_entry JNull = Some []"
| "map_entry _ = None"

fun unmarshal_maps :: "json \<Rightarrow> hobj list option option" where
  "unmarshal_maps JNull = Some None"
| "unmarshal_maps (JArr vs) =
     (if list_all (\<lambda>v. map_entry v \<noteq> None) vs then Some (Some (map (\<lambda>v. the (map_entry v)) vs)) else None)"
| "unmarshal_maps _ = None"

definition marshal_maps :: "hobj list option \<Rightarrow> json" where
  "marshal_maps arr = (case arr of None \<Rightarrow> JNull | Some hs \<Rightarrow> JArr (map JObj hs))"

definition SanitizeCustomHandlers ::
  "(string \<Rightarrow> bool) \<Rightarrow> (string \<Rightarrow> json option) \<Rightarrow> (json \<Rightarrow> string option) \<Rightarrow>
   string \<Rightarrow> handler_error + string" where
  "SanitizeCustomHandlers compiles decode encode raw0 =
     (let raw = TrimSpace raw0 in
      if raw = '''' then Inr ''''
      else if 16384 < length raw then Inl Too_large
      else case Option.bind (decode raw) unmarshal_maps of
        None \<Rightarrow> Inl Not_a_handler_array
      | Some arr \<Rightarrow>
          (case first_err (\<lambda>(i, h). check_entry compiles i h)
                  (enumerate 0 (case arr of Some hs \<Rightarrow> hs | None \<Rightarrow> [])) of
             Some e \<Rightarrow> Inl e
           | None \<Rightarrow>
               (case encode (marshal_maps arr) of Some out \<Rightarrow> Inr out | None \<Rightarrow> Inl Remarshal_failed)))"

section \<open>What an accepted value holds\<close>

text \<open>Every member name, and every string (member names included), at any depth of a value.\<close>

fun json_keys :: "json \<Rightarrow> string set" where
  "json_keys (JObj kvs) = fst ` set kvs \<union> (\<Union>kv \<in> set kvs. json_keys (snd kv))"
| "json_keys (JArr vs) = (\<Union>v \<in> set vs. json_keys v)"
| "json_keys _ = {}"

fun json_strings :: "json \<Rightarrow> string set" where
  "json_strings (JStr s) = {s}"
| "json_strings (JObj kvs) = fst ` set kvs \<union> (\<Union>kv \<in> set kvs. json_strings (snd kv))"
| "json_strings (JArr vs) = (\<Union>v \<in> set vs. json_strings v)"
| "json_strings _ = {}"

lemma rejectNestedHandlers_keys:
  "rejectNestedHandlers v depth = None \<Longrightarrow> json_keys v \<inter> set nestedHandlerKeys = {}"
proof (induction v arbitrary: depth)
  case (JObj kvs)
  have d: "\<not> 8 < depth" using JObj.prems by (auto simp: rejectNestedHandlers.simps [of "JObj kvs"])
  have "fst kv \<notin> set nestedHandlerKeys \<and> json_keys (snd kv) \<inter> set nestedHandlerKeys = {}" if kv: "kv \<in> set kvs" for kv
  proof -
    from JObj.prems d kv have "fst kv \<notin> set nestedHandlerKeys" "rejectNestedHandlers (snd kv) (depth + 1) = None"
      by (auto simp: rejectNestedHandlers.simps [of "JObj kvs"] split: if_split_asm)
    with JObj.IH [of kv "snd kv"] kv show ?thesis by (cases kv) auto
  qed
  then show ?case by fastforce
next
  case (JArr vs)
  then have "rejectNestedHandlers v (depth + 1) = None" if "v \<in> set vs" for v
    using that by (simp add: rejectNestedHandlers.simps [of "JArr vs"] split: if_split_asm)
  then show ?case using JArr.IH by fastforce
qed simp_all

lemma rejectUnsafePlaceholders_strings:
  "rejectUnsafePlaceholders v depth = None \<Longrightarrow> s \<in> json_strings v \<Longrightarrow> ScreenReplacerValue s = None"
proof (induction v arbitrary: depth)
  case (JStr t)
  then show ?case by (simp add: rejectUnsafePlaceholders.simps [of "JStr t"] split: if_split_asm)
next
  case (JObj kvs)
  have d: "\<not> 8 < depth" using JObj.prems by (auto simp: rejectUnsafePlaceholders.simps [of "JObj kvs"])
  from JObj.prems(2) obtain kv where kv: "kv \<in> set kvs" "s = fst kv \<or> s \<in> json_strings (snd kv)" by auto
  have "rejectUnsafePlaceholders (JStr (fst kv)) (depth + 1) = None"
    and v: "rejectUnsafePlaceholders (snd kv) (depth + 1) = None"
    using JObj.prems(1) d kv(1) by (auto simp: rejectUnsafePlaceholders.simps [of "JObj kvs"])
  then have "ScreenReplacerValue (fst kv) = None"
    by (simp add: rejectUnsafePlaceholders.simps [of "JStr (fst kv)"] split: if_split_asm)
  with kv(2) v JObj.IH [of kv "snd kv" "depth + 1"] kv(1) show ?case by (cases kv) auto
next
  case (JArr vs)
  then have "rejectUnsafePlaceholders v (depth + 1) = None" if "v \<in> set vs" for v
    using that by (simp add: rejectUnsafePlaceholders.simps [of "JArr vs"] split: if_split_asm)
  then show ?case using JArr.IH JArr.prems(2) by fastforce
qed simp_all

lemma check_entry_ok:
  assumes "check_entry compiles i h = None"
  shows "hobj_name h \<in> fst ` set customHandlerProps"
    and "\<forall>(k, v) \<in> set h. k \<noteq> ''handler'' \<longrightarrow>
           (\<forall>ps. map_of customHandlerProps (hobj_name h) = Some (Some ps) \<longrightarrow> k \<in> set ps) \<and>
           rejectNestedHandlers v 0 = None \<and> rejectUnsafePlaceholders v 0 = None"
    and "\<exists>schema. map_of (handlerSchemas compiles) (hobj_name h) = Some schema \<and> schema h = None"
proof -
  obtain props where p: "map_of customHandlerProps (hobj_name h) = Some props"
    using assms by (auto simp: check_entry_def Let_def split: if_split_asm option.split_asm)
  then show "hobj_name h \<in> fst ` set customHandlerProps"
    by (metis fst_conv image_eqI map_of_SomeD)
  have loop: "first_err (\<lambda>(k, v).
               if k = ''handler'' then None
               else if (case props of Some ps \<Rightarrow> k \<notin> set ps | None \<Rightarrow> False)
                 then Some (Property_not_permitted i k (hobj_name h))
               else or_err (map_option (In_property i k) (rejectNestedHandlers v 0))
                           (map_option (In_property i k) (rejectUnsafePlaceholders v 0))) h = None"
    and sch: "(case map_of (handlerSchemas compiles) (hobj_name h) of
               Some schema \<Rightarrow> map_option (In_handler i (hobj_name h)) (schema h)
             | None \<Rightarrow> Some (No_schema i (hobj_name h))) = None"
    using assms p by (simp_all add: check_entry_def Let_def split: if_split_asm)
  from loop p show "\<forall>(k, v) \<in> set h. k \<noteq> ''handler'' \<longrightarrow>
           (\<forall>ps. map_of customHandlerProps (hobj_name h) = Some (Some ps) \<longrightarrow> k \<in> set ps) \<and>
           rejectNestedHandlers v 0 = None \<and> rejectUnsafePlaceholders v 0 = None"
    by (auto split: if_split_asm option.split_asm)
  from sch show "\<exists>schema. map_of (handlerSchemas compiles) (hobj_name h) = Some schema \<and> schema h = None"
    by (auto split: option.split_asm)
qed

lemma unmarshal_marshal [simp]: "unmarshal_maps (marshal_maps arr) = Some arr"
  by (cases arr) (auto simp: marshal_maps_def list_all_iff o_def)

lemma first_err_enumerate:
  "first_err (\<lambda>(i, x). f i x) (enumerate n xs) = None \<longleftrightarrow> (\<forall>j < length xs. f (n + j) (xs ! j) = None)"
proof (induction xs arbitrary: n)
  case (Cons x xs)
  then show ?case by (simp add: All_less_Suc2 del: first_err_None split: option.splits)
qed simp

lemma SanitizeCustomHandlers_Inr:
  assumes "SanitizeCustomHandlers compiles decode encode raw = Inr out" "TrimSpace raw \<noteq> ''''"
  obtains arr where "Option.bind (decode (TrimSpace raw)) unmarshal_maps = Some arr"
    "encode (marshal_maps arr) = Some out"
    "\<forall>h \<in> set (case arr of Some hs \<Rightarrow> hs | None \<Rightarrow> []). \<exists>i. check_entry compiles i h = None"
proof -
  from assms obtain arr where a: "Option.bind (decode (TrimSpace raw)) unmarshal_maps = Some arr"
    by (auto simp: SanitizeCustomHandlers_def Let_def split: if_split_asm option.split_asm)
  let ?hs = "case arr of Some hs \<Rightarrow> hs | None \<Rightarrow> []"
  have loop: "first_err (\<lambda>(i, h). check_entry compiles i h) (enumerate 0 ?hs) = None"
    using assms a by (simp add: SanitizeCustomHandlers_def Let_def split: if_split_asm option.split_asm)
  then have "\<exists>i. check_entry compiles i h = None" if "h \<in> set ?hs" for h
    using that unfolding first_err_enumerate in_set_conv_nth by auto
  moreover have "encode (marshal_maps arr) = Some out"
    using assms a loop by (simp add: SanitizeCustomHandlers_def Let_def split: if_split_asm option.split_asm)
  ultimately show thesis using that a by blast
qed

text \<open>A permitted handler whose properties hold no handler, route or matcher and no placeholder into
  the node's environment or files, at any depth.\<close>

definition hobj_safe :: "hobj \<Rightarrow> bool" where
  "hobj_safe h \<longleftrightarrow>
     hobj_name h \<in> set [''headers'', ''encode'', ''rewrite'', ''vars'', ''request_body''] \<and>
     (\<forall>(k, v) \<in> set h. k \<noteq> ''handler'' \<longrightarrow>
        json_keys v \<inter> set nestedHandlerKeys = {} \<and>
        (\<forall>s \<in> json_strings v. \<forall>t \<in> set unsafePlaceholderTokens. \<not> Contains (ToLower s) t))"

lemma check_entry_safe:
  assumes "check_entry compiles i h = None"
  shows "hobj_safe h"
proof -
  have "json_keys v \<inter> set nestedHandlerKeys = {} \<and>
      (\<forall>s \<in> json_strings v. \<forall>t \<in> set unsafePlaceholderTokens. \<not> Contains (ToLower s) t)"
    if "(k, v) \<in> set h" "k \<noteq> ''handler''" for k v
  proof -
    have r: "rejectNestedHandlers v 0 = None" "rejectUnsafePlaceholders v 0 = None"
      using bspec [OF check_entry_ok(2) [OF assms] that(1)] that(2) by simp_all
    show ?thesis
      using rejectNestedHandlers_keys [OF r(1)] rejectUnsafePlaceholders_strings [OF r(2)]
      by (simp add: ScreenReplacerValue_None)
  qed
  moreover have "hobj_name h \<in> set [''headers'', ''encode'', ''rewrite'', ''vars'', ''request_body'']"
    using check_entry_ok(1) [OF assms] by (simp add: customHandlerProps_def)
  ultimately show ?thesis unfolding hobj_safe_def by (auto simp del: list.set)
qed

lemma marshal_unmarshal:
  assumes "unmarshal_maps v = Some arr" "\<forall>h \<in> set (case arr of Some hs \<Rightarrow> hs | None \<Rightarrow> []). h \<noteq> []"
  shows "marshal_maps arr = v"
proof (cases v)
  case (JArr vs)
  with assms have "\<forall>x \<in> set vs. map_entry x \<noteq> None \<and> the (map_entry x) \<noteq> []"
    by (auto simp: list_all_iff split: if_split_asm)
  then have "JObj (the (map_entry x)) = x" if "x \<in> set vs" for x
    using that by (cases x) auto
  then show ?thesis using assms(1) JArr by (auto simp: marshal_maps_def map_idI split: if_split_asm)
qed (use assms in \<open>auto simp: marshal_maps_def\<close>)

lemma check_entry_nonempty: "check_entry compiles i h = None \<Longrightarrow> h \<noteq> []"
  using check_entry_safe [of compiles i h] by (auto simp: hobj_safe_def hobj_name_def)

text \<open>An accepted text is stored as the encoding of the value it decodes to.\<close>

lemma SanitizeCustomHandlers_value:
  assumes "SanitizeCustomHandlers compiles decode encode raw = Inr out" "TrimSpace raw \<noteq> ''''"
  obtains arr where "decode (TrimSpace raw) = Some (marshal_maps arr)" "encode (marshal_maps arr) = Some out"
    "\<forall>h \<in> set (case arr of Some hs \<Rightarrow> hs | None \<Rightarrow> []). \<exists>i. check_entry compiles i h = None"
proof -
  obtain arr where a: "Option.bind (decode (TrimSpace raw)) unmarshal_maps = Some arr"
    "encode (marshal_maps arr) = Some out"
    "\<forall>h \<in> set (case arr of Some hs \<Rightarrow> hs | None \<Rightarrow> []). \<exists>i. check_entry compiles i h = None"
    by (rule SanitizeCustomHandlers_Inr [OF assms])
  from a(1) obtain v where v: "decode (TrimSpace raw) = Some v" "unmarshal_maps v = Some arr"
    by (auto split: Option.bind_split_asm)
  have "marshal_maps arr = v" using v(2) a(3) check_entry_nonempty by (intro marshal_unmarshal) blast+
  then show thesis using that a(2,3) v(1) by blast
qed

section \<open>Properties\<close>


text \<open>A codec for the witnesses: it knows one text and its value.\<close>

definition codec_text :: string where
  "codec_text = ''[{handler:rewrite,uri:/x}]''"

definition codec_value :: json where
  "codec_value = JArr [JObj [(''handler'', JStr ''rewrite''), (''uri'', JStr ''/x'')]]"


text \<open>C6: what \<open>SanitizeCustomHandlers\<close> stores is accepted again unchanged when it is read back for
  emission, given that a decoded value survives encoding and decoding, and that the re-encoded text has no
  outer blanks and is still within the size limit. The size condition is needed: the limit is
  tested on the text that comes in, and the encoder may make it longer.\<close>

theorem SanitizeCustomHandlers_stable:
  assumes "\<And>t v s. decode t = Some v \<Longrightarrow> encode v = Some s \<Longrightarrow> decode s = Some v"
    and "SanitizeCustomHandlers compiles decode encode raw = Inr out"
    and "TrimSpace out = out" "length out \<le> 16384"
  shows "SanitizeCustomHandlers compiles decode encode out = Inr out"
proof (cases "TrimSpace raw = '''' \<or> out = ''''")
  case True
  then show ?thesis using assms(2) by (auto simp: SanitizeCustomHandlers_def)
next
  case False
  then obtain arr where a: "decode (TrimSpace raw) = Some (marshal_maps arr)" "encode (marshal_maps arr) = Some out"
    using SanitizeCustomHandlers_value [OF assms(2)] by blast
  with False assms(2) have e: "encode (marshal_maps arr) = Some out"
    and c: "first_err (\<lambda>(i, h). check_entry compiles i h)
                  (enumerate 0 (case arr of Some hs \<Rightarrow> hs | None \<Rightarrow> [])) = None"
    by (simp_all add: SanitizeCustomHandlers_def Let_def del: first_err_None split: if_split_asm option.split_asm)
  have "decode out = Some (marshal_maps arr)" using assms(1) a .
  then show ?thesis
    using False assms(3,4) e c by (simp add: SanitizeCustomHandlers_def Let_def del: first_err_None)
qed

theorem SanitizeCustomHandlers_stable_witness:
  "SanitizeCustomHandlers (\<lambda>_. True) (\<lambda>s. if s = codec_text then Some codec_value else None)
     (\<lambda>v. if v = codec_value then Some codec_text else None) codec_text = Inr codec_text"
proof (rule SanitizeCustomHandlers_stable)
  show "(if t = codec_text then Some codec_value else None) = Some v \<Longrightarrow>
      (if v = codec_value then Some codec_text else None) = Some s \<Longrightarrow>
      (if s = codec_text then Some codec_value else None) = Some v" for t v s
    by (simp split: if_split_asm)
  show "SanitizeCustomHandlers (\<lambda>_. True) (\<lambda>s. if s = codec_text then Some codec_value else None)
     (\<lambda>v. if v = codec_value then Some codec_text else None) (CHR '' '' # codec_text) = Inr codec_text"
    by code_simp
  show "TrimSpace codec_text = codec_text" by code_simp
  show "length codec_text \<le> 16384" by (simp add: codec_text_def)
qed

end
