(* ===== verification/Waf_Directives.thy ===== *)
theory Waf_Directives
  imports Go_Strings Go_Errors
begin

text \<open>
  The screen of custom WAF directives (\<open>internal/caddyapi/wafdirectives.go\<close>). Directives of every
  tenant end in one Coraza configuration per node, so a line Coraza cannot parse would take the node
  down. \<open>wafArgsOK\<close> slices its arguments and \<open>wafRemoveByIDOnly\<close> indexes the first field; both
  panic in Go on an empty list, which is \<^term>\<open>None\<close> here, and the lemmas below show that no caller
  reaches it.
\<close>

datatype waf_error =
    Line_too_long
  | Control_character
  | Unbalanced_quote string
  | Not_a_Sec_directive string
  | Unknown_directive string
  | No_argument string
  | Numeric_ids_wanted string string
  | Engine_mode_wanted string "string list"
  | On_off_wanted string "string list"
  | Positive_number_wanted string "string list"
  | Only_RemoveById string

definition wafNumericID :: "string \<Rightarrow> bool" where
  "wafNumericID s = (case Atoi s of Some n \<Rightarrow> 0 < n \<and> n \<le> 999999999 | None \<Rightarrow> False)"

text \<open>The test on one rule id or range, in \<open>wafArgsOK\<close> and in \<open>wafRemoveByIDOnly\<close> alike.\<close>

definition waf_id_ok :: "string \<Rightarrow> bool" where
  "waf_id_ok i = (case Cut i (CHR ''-'') of (lo, hi, isRange) \<Rightarrow>
     \<not> (\<not> wafNumericID lo \<or> (isRange \<and> \<not> wafNumericID hi)))"

definition wafOneOf :: "string list \<Rightarrow> string list \<Rightarrow> bool" where
  "wafOneOf args accepted =
     (case args of [a] \<Rightarrow> list_ex (\<lambda>k. EqualFold a k) accepted | _ \<Rightarrow> False)"

definition knownWAFDirectives :: "string list" where
  "knownWAFDirectives =
     [''SecAction'', ''SecArgumentSeparator'', ''SecArgumentsLimit'', ''SecAuditEngine'',
      ''SecAuditLog'', ''SecAuditLogDir'', ''SecAuditLogDirMode'', ''SecAuditLogFileMode'',
      ''SecAuditLogFormat'', ''SecAuditLogParts'', ''SecAuditLogRelevantStatus'',
      ''SecAuditLogType'', ''SecCollectionTimeout'', ''SecComponentSignature'',
      ''SecConnEngine'', ''SecContentInjection'', ''SecDataDir'', ''SecDebugLog'',
      ''SecDebugLogLevel'', ''SecDefaultAction'', ''SecGeoLookupDB'', ''SecHashEngine'',
      ''SecHashKey'', ''SecHashMethodPm'', ''SecHashMethodRx'', ''SecHashParam'',
      ''SecHttpBlKey'', ''SecInterceptOnError'', ''SecMarker'', ''SecPcreMatchLimit'',
      ''SecPcreMatchLimitRecursion'', ''SecRequestBodyAccess'',
      ''SecRequestBodyInMemoryLimit'', ''SecRequestBodyLimit'',
      ''SecRequestBodyLimitAction'', ''SecRequestBodyNoFilesLimit'',
      ''SecResponseBodyAccess'', ''SecResponseBodyLimit'', ''SecResponseBodyLimitAction'',
      ''SecResponseBodyMimeType'', ''SecResponseBodyMimeTypesClear'', ''SecRule'',
      ''SecRuleEngine'', ''SecRuleInheritance'', ''SecRulePerfTime'', ''SecRuleRemoveById'',
      ''SecRuleRemoveByMsg'', ''SecRuleRemoveByTag'', ''SecRuleUpdateActionById'',
      ''SecRuleUpdateTargetById'', ''SecRuleUpdateTargetByMsg'',
      ''SecRuleUpdateTargetByTag'', ''SecSensorId'', ''SecServerSignature'',
      ''SecStatusEngine'', ''SecStreamInBodyInspection'', ''SecStreamOutBodyInspection'',
      ''SecTmpDir'', ''SecUnicodeMapFile'', ''SecUploadDir'', ''SecUploadFileLimit'',
      ''SecUploadFileMode'', ''SecUploadKeepFiles'', ''SecWebAppId'', ''SecXmlExternalEntity'']"

definition wafArgsOK :: "string \<Rightarrow> string list \<Rightarrow> waf_error option option" where
  "wafArgsOK name args =
     (if name \<in> set [''SecRuleRemoveById'', ''SecRuleUpdateActionById'', ''SecRuleUpdateTargetById''] then
        (if name \<noteq> ''SecRuleRemoveById'' then
           (case args of
              [] \<Rightarrow> None
            | a # _ \<Rightarrow> Some (unless (waf_id_ok a) (Numeric_ids_wanted name a)))
         else Some (first_err (\<lambda>i. unless (waf_id_ok i) (Numeric_ids_wanted name i)) args))
      else if name \<in> set [''SecRuleEngine'', ''SecAuditEngine''] then
        Some (unless (wafOneOf args [''on'', ''off'', ''detectiononly'', ''relevantonly''])
          (Engine_mode_wanted name args))
      else if name \<in> set [''SecRequestBodyAccess'', ''SecResponseBodyAccess'', ''SecContentInjection'',
          ''SecStreamInBodyInspection'', ''SecStreamOutBodyInspection'', ''SecUploadKeepFiles'',
          ''SecXmlExternalEntity'', ''SecRuleInheritance'', ''SecInterceptOnError''] then
        Some (unless (wafOneOf args [''on'', ''off'']) (On_off_wanted name args))
      else if name \<in> set [''SecRequestBodyLimit'', ''SecRequestBodyNoFilesLimit'',
          ''SecRequestBodyInMemoryLimit'', ''SecResponseBodyLimit'', ''SecUploadFileLimit'',
          ''SecArgumentsLimit''] then
        Some (unless (case args of [a] \<Rightarrow> wafNumericID a | _ \<Rightarrow> False) (Positive_number_wanted name args))
      else Some None)"

definition waf_line_name :: "string \<Rightarrow> string" where
  "waf_line_name line =
     (case IndexAny line [CHR '' '', CHR 0x09] of
        Some i \<Rightarrow> if 0 < i then take i line else line
      | None \<Rightarrow> line)"

definition wafLineOK :: "string \<Rightarrow> waf_error option option" where
  "wafLineOK line =
     (if 2048 < length line then Some (Some Line_too_long)
      else if list_ex (\<lambda>c. byte c < 32 \<and> c \<noteq> CHR 0x09) line then Some (Some Control_character)
      else if CountByte line (CHR 34) mod 2 \<noteq> 0 then Some (Some (Unbalanced_quote line))
      else let name = waf_line_name line in
        if \<not> HasPrefix name ''Sec'' \<or> length name < 4 then Some (Some (Not_a_Sec_directive name))
        else if list_ex (\<lambda>c. \<not> (is_lower c \<or> is_upper c)) (drop 3 name)
          then Some (Some (Not_a_Sec_directive name))
        else if name \<notin> set knownWAFDirectives then Some (Some (Unknown_directive name))
        else if TrimSpace (drop (length name) line) = '''' then Some (Some (No_argument name))
        else (case Fields line of [] \<Rightarrow> None | _ # args \<Rightarrow> wafArgsOK name args))"

definition wafRemoveByIDOnly :: "string \<Rightarrow> waf_error option option" where
  "wafRemoveByIDOnly line =
     (case Fields line of
        [] \<Rightarrow> None
      | f # ids \<Rightarrow>
          (if ids = [] \<or> f \<noteq> ''SecRuleRemoveById'' then Some (Some (Only_RemoveById f))
           else Some (first_err
             (\<lambda>i. unless (waf_id_ok i) (Numeric_ids_wanted ''SecRuleRemoveById'' i)) ids)))"

text \<open>One turn of the loop of \<open>ValidateWAFDirectives\<close>.\<close>

definition validate_line :: "bool \<Rightarrow> string \<Rightarrow> waf_error option option" where
  "validate_line unrestricted l =
     (let line = TrimSpace l in
      if line = '''' \<or> HasPrefix line ''#'' then Some None
      else (case wafLineOK line of
          None \<Rightarrow> None
        | Some (Some e) \<Rightarrow> Some (Some e)
        | Some None \<Rightarrow> if unrestricted then Some None else wafRemoveByIDOnly line))"

definition ValidateWAFDirectives :: "string \<Rightarrow> bool \<Rightarrow> waf_error option option" where
  "ValidateWAFDirectives raw unrestricted =
     first_err_m (validate_line unrestricted) (Split raw (CHR 10))"

fun sanitize_lines :: "string list \<Rightarrow> (string list \<times> bool) option" where
  "sanitize_lines [] = Some ([], False)"
| "sanitize_lines (l # ls) =
     (let trimmed = TrimSpace l in
      if trimmed = '''' then sanitize_lines ls
      else if HasPrefix trimmed ''#'' then
        map_option (\<lambda>(kept, d). (trimmed # kept, d)) (sanitize_lines ls)
      else (case wafLineOK trimmed of
          None \<Rightarrow> None
        | Some None \<Rightarrow> map_option (\<lambda>(kept, d). (trimmed # kept, d)) (sanitize_lines ls)
        | Some (Some e) \<Rightarrow> map_option (\<lambda>(kept, d). (kept, True)) (sanitize_lines ls)))"

definition SanitizeWAFDirectives :: "string \<Rightarrow> (string \<times> bool) option" where
  "SanitizeWAFDirectives raw =
     map_option (\<lambda>(kept, dropped). (Join kept (CHR 10), dropped)) (sanitize_lines (Split raw (CHR 10)))"

section \<open>No panic\<close>

lemma wafArgsOK_total: "args \<noteq> [] \<Longrightarrow> wafArgsOK name args \<noteq> None"
  by (auto simp: wafArgsOK_def split: list.splits)

text \<open>Past the name of a directive the line goes on with a space, or ends.\<close>

lemma waf_line_split:
  assumes "waf_line_name line = name" "HasPrefix name ''Sec''"
    "\<not> list_ex (\<lambda>c. \<not> (is_lower c \<or> is_upper c)) (drop 3 name)"
    "TrimSpace (drop (length name) line) \<noteq> ''''"
  shows "\<exists>args. args \<noteq> [] \<and> Fields line = name # args"
proof -
  obtain i where i: "index_where (\<lambda>c. c \<in> set [CHR '' '', CHR 0x09]) line = Some i" "0 < i" "name = take i line"
  proof (cases "IndexAny line [CHR '' '', CHR 0x09]")
    case None
    with assms(1,4) show thesis by (simp add: waf_line_name_def)
  next
    case (Some i)
    with assms(1,4) have "0 < i" "name = take i line"
      by (simp_all add: waf_line_name_def split: if_split_asm)
    with Some that show thesis by (simp add: IndexAny_def)
  qed
  have li: "i < length line" "is_space (line ! i)"
    using index_where_Some [OF i(1)] by (auto simp: is_space_def byte_def)
  have line: "name @ line ! i # drop (Suc i) line = line"
    using id_take_nth_drop [OF li(1)] i(3) by simp
  from assms(2) obtain w where w: "name = ''Sec'' @ w" by (auto simp: HasPrefix_def prefix_def)
  have letters: "\<not> is_space c" if "is_lower c \<or> is_upper c" for c
    using that by (auto simp: is_space_def is_lower_def is_upper_def)
  have "\<not> is_space (CHR ''S'')" "\<not> is_space (CHR ''e'')" "\<not> is_space (CHR ''c'')"
    by (simp_all add: is_space_def byte_def)
  moreover have "\<forall>y \<in> set w. \<not> is_space y"
    using assms(3) letters unfolding w by (simp add: list_ex_iff)
  ultimately have "\<forall>y \<in> set name. \<not> is_space y" unfolding w by simp
  then have F: "Fields line = name # Fields (drop (Suc i) line)"
    using Fields_word [of name "line ! i" "drop (Suc i) line", unfolded line] li(2) w by simp
  have "drop (length name) line = line ! i # drop (Suc i) line"
    using i(3) li(1) by (simp add: Cons_nth_drop_Suc)
  then have "Fields (drop (Suc i) line) \<noteq> []"
    using assms(4) li(2) by (auto simp: TrimSpace_Nil_iff Fields_Nil_iff)
  with F show ?thesis by blast
qed

lemma wafLineOK_total: "wafLineOK line \<noteq> None"
proof (cases "Fields line")
  case Nil
  then show ?thesis using waf_line_split [OF refl, of line] by (auto simp: wafLineOK_def Let_def)
next
  case (Cons f args)
  then show ?thesis
    using waf_line_split [OF refl, of line] wafArgsOK_total [of args "waf_line_name line"]
    by (auto simp: wafLineOK_def Let_def)
qed

lemma TrimSpace_Fields: "TrimSpace l \<noteq> [] \<Longrightarrow> Fields (TrimSpace l) \<noteq> []"
  by (metis Fields_Nil_iff TrimSpace_Nil_iff TrimSpace_idem)

lemma validate_line_total: "validate_line u l \<noteq> None"
  using wafLineOK_total [of "TrimSpace l"] TrimSpace_Fields [of l]
  by (auto simp: validate_line_def wafRemoveByIDOnly_def Let_def split: option.splits list.splits)

section \<open>What is kept\<close>

definition waf_keeps :: "string \<Rightarrow> bool" where
  "waf_keeps l \<longleftrightarrow> l \<noteq> '''' \<and> TrimSpace l = l \<and> CHR 10 \<notin> set l \<and> (HasPrefix l ''#'' \<or> wafLineOK l = Some None)"

lemma sanitize_lines_total: "\<exists>kept d. sanitize_lines ls = Some (kept, d)"
proof (induction ls)
  case (Cons l ls)
  then show ?case using wafLineOK_total [of "TrimSpace l"] by (auto simp: Let_def split: option.splits)
qed auto

lemma sanitize_lines_keeps:
  "sanitize_lines ls = Some (kept, d) \<Longrightarrow> \<forall>l \<in> set ls. CHR 10 \<notin> set l \<Longrightarrow> \<forall>l \<in> set kept. waf_keeps l"
proof (induction ls arbitrary: kept d)
  case (Cons l ls)
  have nl: "CHR 10 \<notin> set (TrimSpace l)" using Cons.prems(2) set_TrimSpace by auto
  from sanitize_lines_total obtain k e where ke: "sanitize_lines ls = Some (k, e)" by blast
  with Cons.IH Cons.prems(2) have "\<forall>l \<in> set k. waf_keeps l" by simp
  moreover have "waf_keeps (TrimSpace l)"
    if "TrimSpace l \<noteq> ''''" "HasPrefix (TrimSpace l) ''#'' \<or> wafLineOK (TrimSpace l) = Some None"
    using that nl by (simp add: waf_keeps_def)
  ultimately show ?case
    using ke Cons.prems(1) by (simp add: Let_def split: if_split_asm option.split_asm) auto
qed simp

lemma sanitize_lines_id: "\<forall>l \<in> set ls. waf_keeps l \<Longrightarrow> sanitize_lines ls = Some (ls, False)"
  by (induction ls) (auto simp: Let_def waf_keeps_def)

lemma sanitize_lines_valid:
  "\<forall>l \<in> set ls. validate_line True l = Some None \<Longrightarrow> \<exists>kept. sanitize_lines ls = Some (kept, False)"
  by (induction ls) (auto simp: Let_def validate_line_def split: if_splits option.splits)

lemma Split_Join_kept:
  assumes "\<forall>l \<in> set kept. waf_keeps l"
  shows "Split (Join kept (CHR 10)) (CHR 10) = (if kept = [] then [[]] else kept)"
  using assms Split_Join [of kept "CHR 10"] by (auto simp: waf_keeps_def Split_def)

lemma waf_keeps_valid: "waf_keeps l \<Longrightarrow> validate_line True l = Some None"
  by (auto simp: waf_keeps_def validate_line_def)

lemma Sanitize_result:
  "\<exists>kept d. SanitizeWAFDirectives raw = Some (Join kept (CHR 10), d) \<and> (\<forall>l \<in> set kept. waf_keeps l)"
proof -
  obtain kept d where k: "sanitize_lines (Split raw (CHR 10)) = Some (kept, d)"
    using sanitize_lines_total by blast
  then have "\<forall>l \<in> set kept. waf_keeps l"
    using sanitize_lines_keeps Split_words by blast
  with k show ?thesis by (auto simp: SanitizeWAFDirectives_def)
qed

lemma Sanitize_again:
  assumes "\<forall>l \<in> set kept. waf_keeps l"
  shows "SanitizeWAFDirectives (Join kept (CHR 10)) = Some (Join kept (CHR 10), False)"
    and "ValidateWAFDirectives (Join kept (CHR 10)) True = Some None"
proof -
  show "SanitizeWAFDirectives (Join kept (CHR 10)) = Some (Join kept (CHR 10), False)"
    using sanitize_lines_id [OF assms] unfolding SanitizeWAFDirectives_def Split_Join_kept [OF assms]
    by (cases "kept = []") auto
  have "validate_line True [] = Some None" by (simp add: validate_line_def)
  then show "ValidateWAFDirectives (Join kept (CHR 10)) True = Some None"
    using waf_keeps_valid assms by (simp add: ValidateWAFDirectives_def Split_Join_kept [OF assms] first_err_m_ok)
qed

lemma Validate_nothing_dropped:
  "ValidateWAFDirectives raw True = Some None \<Longrightarrow> \<exists>out. SanitizeWAFDirectives raw = Some (out, False)"
  using sanitize_lines_valid [of "Split raw (CHR 10)"]
  by (auto simp: ValidateWAFDirectives_def SanitizeWAFDirectives_def first_err_m_ok)

section \<open>Properties\<close>



text \<open>Validation never panics, and when it accepts text of a scoped admin, every line that is
  neither blank nor a comment is \<open>SecRuleRemoveById\<close> followed by at least one id, each a rule
  number or a range of rule numbers: a scoped admin cannot define a rule, include a file or change
  the engine of the shared node.\<close>

theorem ValidateWAFDirectives_scoped:
  "\<exists>r. ValidateWAFDirectives raw unrestricted = Some r \<and>
     (r = None \<and> \<not> unrestricted \<longrightarrow>
      (\<forall>l \<in> set (Split raw (CHR 10)). TrimSpace l = '''' \<or> HasPrefix (TrimSpace l) ''#'' \<or>
         (\<exists>ids. ids \<noteq> [] \<and> Fields (TrimSpace l) = ''SecRuleRemoveById'' # ids \<and>
            (\<forall>i \<in> set ids. waf_id_ok i))))"
proof -
  have total: "ValidateWAFDirectives raw unrestricted \<noteq> None"
    unfolding ValidateWAFDirectives_def by (rule first_err_m_total) (simp add: validate_line_total)
  have "TrimSpace l = '''' \<or> HasPrefix (TrimSpace l) ''#'' \<or>
      (\<exists>ids. ids \<noteq> [] \<and> Fields (TrimSpace l) = ''SecRuleRemoveById'' # ids \<and> (\<forall>i \<in> set ids. waf_id_ok i))"
    if "validate_line False l = Some None" for l
    using that by (auto simp: validate_line_def wafRemoveByIDOnly_def Let_def split: if_splits option.splits list.splits)
  then have "\<forall>l \<in> set (Split raw (CHR 10)). TrimSpace l = '''' \<or> HasPrefix (TrimSpace l) ''#'' \<or>
      (\<exists>ids. ids \<noteq> [] \<and> Fields (TrimSpace l) = ''SecRuleRemoveById'' # ids \<and> (\<forall>i \<in> set ids. waf_id_ok i))"
    if "ValidateWAFDirectives raw False = Some None"
    using that unfolding ValidateWAFDirectives_def first_err_m_ok by blast
  with total show ?thesis by (cases unrestricted) auto
qed

theorem ValidateWAFDirectives_scoped_witness:
  "ValidateWAFDirectives ''SecRuleRemoveById 10-12 7'' False = Some None \<and>
   waf_id_ok ''10-12'' \<and> waf_id_ok ''7''"
proof -
  have v: "ValidateWAFDirectives ''SecRuleRemoveById 10-12 7'' False = Some None" by code_simp
  have s: "Split ''SecRuleRemoveById 10-12 7'' (CHR 10) = [''SecRuleRemoveById 10-12 7'']"
    "TrimSpace ''SecRuleRemoveById 10-12 7'' = ''SecRuleRemoveById 10-12 7''"
    "Fields ''SecRuleRemoveById 10-12 7'' = [''SecRuleRemoveById'', ''10-12'', ''7'']"
    "\<not> HasPrefix ''SecRuleRemoveById 10-12 7'' ''#''"
    by code_simp+
  from v s show ?thesis
    using ValidateWAFDirectives_scoped [of "''SecRuleRemoveById 10-12 7''" False] by simp
qed

end
