(* ===== verification/Route_Types.thy ===== *)
theory Route_Types
  imports Json Custom_Handlers
begin

text \<open>
  The input of the route builder (\<open>internal/caddyapi/route.go\<close>, types \<open>Route\<close>, \<open>Upstream\<close>,
  \<open>LocationRule\<close>, \<open>MTLSPathRule\<close>, \<open>BasicAuthUser\<close>, and \<open>ErrorBranding\<close> of \<open>config.go\<close>), with the
  source's field names; the fields of the small structures carry a prefix so that they do not clash.
  \<open>route\<close> is split over three record extensions only to keep the record package fast.
  \<open>zero_route\<close> is Go's zero value. \<open>go_env\<close> collects the functions outside the repository the
  builder calls and the model takes as parameters: the regular-expression compiler, the JSON codec,
  \<open>idna.ToASCII\<close> and \<open>url.Parse\<close> (its scheme and host).
\<close>

record go_env =
  regexp_compiles :: "string \<Rightarrow> bool"
  json_decode :: "string \<Rightarrow> json option"
  json_encode :: "json \<Rightarrow> string option"
  idna_ToASCII :: "string \<Rightarrow> string option"
  url_Parse :: "string \<Rightarrow> (string \<times> string) option"

record BasicAuthAccount =
  ba_Username :: string
  ba_Hash :: string

record Upstream =
  up_Host :: string
  up_Port :: int
  up_Weight :: int
  up_MaxRequests :: int

record LocationRule =
  loc_Path :: string
  loc_Action :: string
  loc_UpstreamHost :: string
  loc_UpstreamPort :: int
  loc_UpstreamScheme :: string
  loc_PinnedSNI :: string
  loc_RedirectURL :: string
  loc_RedirectCode :: int
  loc_RewriteURI :: string

record MTLSPathRule =
  PathPattern :: string
  RequiredRole :: string

record ErrorBrandingRec =
  LogoURL :: string
  LogoLink :: string
  BgColor :: string
  Brand :: string

record route_base =
  ID :: string
  Hosts :: "string list"
  WildcardZone :: string
  PathPrefix :: string
  UpstreamIP :: string
  UpstreamPort :: int
  IsPanelSelfRoute :: bool
  BackendResolver :: string
  ResolveNodeSide :: bool
  UpstreamScheme :: string
  UpstreamSkipTLSVerify :: bool
  WebSocket :: bool
  ForceHTTPS :: bool
  HTTP2 :: bool
  HTTP3 :: bool
  Headers :: "(string \<times> string) list"
  Kind :: string
  RedirectURL :: string
  RedirectCode :: int
  CacheEnabled :: bool
  CacheTTLSeconds :: int
  CachePublic :: bool
  CacheVary :: "string list"
  CacheModuleAvailable :: bool
  MaintenanceMode :: bool
  MaintenanceMessage :: string
  AccessAllow :: "string list"
  AccessDeny :: "string list"
  AccessBlockAll :: bool
  MaintenanceAllow :: "string list"
  BasicAuthUser :: string
  BasicAuthBcrypt :: string
  BasicAuthUsers :: "BasicAuthAccount list"
  SSOProviderURL :: string
  SSOCopyHeaders :: "string list"
  SSOTrustedProxies :: "string list"
  SSOPaths :: "string list"
  SSOHosts :: "string list"
  SSOResolver :: string
  SSOStrictMode :: bool

record route_mid = route_base +
  External :: bool
  ExternalWildcard :: bool
  UpstreamSNI :: string
  UpstreamHostHeader :: string
  PinnedSNI :: string
  ProxySecret :: string
  ErrorBranding :: ErrorBrandingRec
  CustomErrorOverride :: bool
  CustomErrorHTML :: string
  CustomErrorBranding :: ErrorBrandingRec
  PortalPublicPaths :: "string list"
  PortalNoGrants :: bool
  CustomHandlers :: string
  CompressDisabled :: bool
  StripPathPrefix :: bool
  UpstreamPathPrefix :: string
  Upstreams :: "Upstream list"
  LocationRules :: "LocationRule list"
  LBPolicy :: string
  WeightedLBAvailable :: bool
  LBHeaderField :: string
  LBCookieName :: string
  LBCookieSecret :: string
  LBTryDurationMs :: int
  LBTryIntervalMs :: int
  DialTimeoutMs :: int
  ResponseHeaderTimeoutMs :: int
  HealthURI :: string
  HealthIntervalSecs :: int
  HealthTimeoutSecs :: int
  HealthExpectStatus :: int
  HealthFails :: int
  HealthPassive :: bool
  HealthFailDurationSecs :: int
  HealthMaxFails :: int
  RateLimitEnabled :: bool
  RateLimitWindow :: string
  RateLimitMaxEvents :: int
  RateLimitKey :: string
  RateLimitModuleAvailable :: bool

record route = route_mid +
  WAFEnabled :: bool
  WAFBlocking :: bool
  WAFDirectives :: string
  WAFModuleAvailable :: bool
  WAFFailOpen :: bool
  GeoMode :: string
  GeoCountries :: string
  GeoModuleAvailable :: bool
  GeoResponseCode :: int
  GeoFailClosed :: bool
  GeoAllowCIDRs :: string
  GeoContinents :: string
  GeoBlockCIDRs :: string
  GeoBlockAction :: string
  GeoRedirectURL :: string
  GeoBlockTitle :: string
  GeoBlockMessage :: string
  GeoBlockBranding :: ErrorBrandingRec
  OutboundIPMode :: string
  OutboundIP :: string
  DNSResolverIP :: string
  DNSResolverViaWGPeerIP :: string
  DNSAddressFamily :: string
  PortalProtect :: bool
  PortalDial :: string
  PortalTLS :: bool
  PortalSNI :: string
  PortalDenyOnMisconfig :: bool
  RequireClientCert :: bool
  MTLSCACertPEM :: string
  MTLSDenyOnMisconfig :: bool
  MTLSRevokedFingerprints :: "string list"
  TLSPQOnly :: bool
  MTLSPathRules :: "MTLSPathRule list"
  PanelBaseURL :: string
  RBACNodeID :: int
  RBACToken :: string

section \<open>Zero values\<close>

definition zero_branding :: ErrorBrandingRec where
  "zero_branding = \<lparr>LogoURL = '''', LogoLink = '''', BgColor = '''', Brand = ''''\<rparr>"

definition zero_base :: route_base where
  "zero_base =
     \<lparr>ID = '''', Hosts = [], WildcardZone = '''', PathPrefix = '''', UpstreamIP = '''', UpstreamPort = 0,
      IsPanelSelfRoute = False, BackendResolver = '''', ResolveNodeSide = False, UpstreamScheme = '''',
      UpstreamSkipTLSVerify = False, WebSocket = False, ForceHTTPS = False, HTTP2 = False,
      HTTP3 = False, Headers = [], Kind = '''', RedirectURL = '''', RedirectCode = 0,
      CacheEnabled = False, CacheTTLSeconds = 0, CachePublic = False, CacheVary = [],
      CacheModuleAvailable = False, MaintenanceMode = False, MaintenanceMessage = '''',
      AccessAllow = [], AccessDeny = [], AccessBlockAll = False, MaintenanceAllow = [],
      BasicAuthUser = '''', BasicAuthBcrypt = '''', BasicAuthUsers = [], SSOProviderURL = '''',
      SSOCopyHeaders = [], SSOTrustedProxies = [], SSOPaths = [], SSOHosts = [], SSOResolver = '''',
      SSOStrictMode = False\<rparr>"

definition zero_mid :: route_mid where
  "zero_mid = route_base.extend zero_base
     \<lparr>External = False, ExternalWildcard = False, UpstreamSNI = '''', UpstreamHostHeader = '''',
      PinnedSNI = '''', ProxySecret = '''', ErrorBranding = zero_branding, CustomErrorOverride = False,
      CustomErrorHTML = '''', CustomErrorBranding = zero_branding, PortalPublicPaths = [],
      PortalNoGrants = False, CustomHandlers = '''', CompressDisabled = False, StripPathPrefix = False,
      UpstreamPathPrefix = '''', Upstreams = [], LocationRules = [], LBPolicy = '''',
      WeightedLBAvailable = False, LBHeaderField = '''', LBCookieName = '''', LBCookieSecret = '''',
      LBTryDurationMs = 0, LBTryIntervalMs = 0, DialTimeoutMs = 0, ResponseHeaderTimeoutMs = 0,
      HealthURI = '''', HealthIntervalSecs = 0, HealthTimeoutSecs = 0, HealthExpectStatus = 0,
      HealthFails = 0, HealthPassive = False, HealthFailDurationSecs = 0, HealthMaxFails = 0,
      RateLimitEnabled = False, RateLimitWindow = '''', RateLimitMaxEvents = 0, RateLimitKey = '''',
      RateLimitModuleAvailable = False\<rparr>"

definition zero_route :: route where
  "zero_route = route_mid.extend zero_mid
     \<lparr>WAFEnabled = False, WAFBlocking = False, WAFDirectives = '''', WAFModuleAvailable = False,
      WAFFailOpen = False, GeoMode = '''', GeoCountries = '''', GeoModuleAvailable = False,
      GeoResponseCode = 0, GeoFailClosed = False, GeoAllowCIDRs = '''', GeoContinents = '''',
      GeoBlockCIDRs = '''', GeoBlockAction = '''', GeoRedirectURL = '''', GeoBlockTitle = '''',
      GeoBlockMessage = '''', GeoBlockBranding = zero_branding, OutboundIPMode = '''',
      OutboundIP = '''', DNSResolverIP = '''', DNSResolverViaWGPeerIP = '''', DNSAddressFamily = '''',
      PortalProtect = False, PortalDial = '''', PortalTLS = False, PortalSNI = '''',
      PortalDenyOnMisconfig = False, RequireClientCert = False, MTLSCACertPEM = '''',
      MTLSDenyOnMisconfig = False, MTLSRevokedFingerprints = [], TLSPQOnly = False,
      MTLSPathRules = [], PanelBaseURL = '''', RBACNodeID = 0, RBACToken = ''''\<rparr>"

lemmas zero_route_defs = zero_route_def zero_mid_def zero_base_def zero_branding_def
  route_base.defs route_mid.defs

end
