(* ===== verification/Error_Page.thy ===== *)
theory Error_Page
  imports Route_Types
begin

text \<open>
  The pages Caddy serves without an upstream (\<open>internal/caddyapi/errorpage.go\<close>, \<open>htmlEscape\<close> of
  \<open>route.go\<close>). The body of a \<open>static_response\<close> runs through Caddy's replacer, so the braces a
  tenant can put there matter: the properties show that a rendered page has the braces of its own
  style sheet and no others.
\<close>

section \<open>Escaping\<close>

definition html_byte :: "char \<Rightarrow> string" where
  "html_byte c =
     (if c = CHR ''&'' then ''&amp;''
      else if c = CHR ''<'' then ''&lt;''
      else if c = CHR ''>'' then ''&gt;''
      else if c = CHR 34 then ''&quot;''
      else if c = CHR 39 then ''&#39;''
      else if c = CHR ''{'' then ''&#123;''
      else if c = CHR ''}'' then ''&#125;''
      else [c])"

definition htmlEscape :: "string \<Rightarrow> string" where
  "htmlEscape s = concat (map html_byte s)"

definition cssColorSafe :: "string \<Rightarrow> bool" where
  "cssColorSafe s \<longleftrightarrow>
     1 \<le> length s \<and> length s \<le> 64 \<and>
     list_all (\<lambda>c. c \<in> set ''#(),.% -'' \<or> is_lower c \<or> is_upper c \<or> is_digit c) s"

definition safeAssetURL :: "string \<Rightarrow> string" where
  "safeAssetURL u =
     (let t = TrimSpace u in
      if t = '''' \<or> HasPrefix t ''//'' then ''''
      else if HasPrefix t ''https://'' \<or> HasPrefix t ''http://'' then t
      else (case IndexAny t '':/'' of
          Some i \<Rightarrow> if t ! i = CHR '':'' then '''' else t
        | None \<Rightarrow> t))"

section \<open>Pages\<close>

definition page_bg :: "ErrorBrandingRec \<Rightarrow> string" where
  "page_bg b = (let bg = TrimSpace (BgColor b) in if cssColorSafe bg then bg else ''#1f2937'')"

definition page_brand :: "ErrorBrandingRec \<Rightarrow> string" where
  "page_brand b = (if Brand b = '''' then ''Hostyt'' else Brand b)"

definition page_logo :: "ErrorBrandingRec \<Rightarrow> string" where
  \<open>page_logo b =
     (let logoURL = safeAssetURL (LogoURL b); logoLink = safeAssetURL (LogoLink b); brand = page_brand b in
      if logoURL \<noteq> '''' \<and> logoLink \<noteq> '''' then
        ''<a href="'' @ htmlEscape logoLink @ ''" class="logo"><img src="'' @ htmlEscape logoURL
          @ ''" alt="'' @ htmlEscape brand @ ''"></a>''
      else if logoURL \<noteq> '''' then
        ''<img class="logo" src="'' @ htmlEscape logoURL @ ''" alt="'' @ htmlEscape brand @ ''">''
      else if logoLink \<noteq> '''' then
        ''<a href="'' @ htmlEscape logoLink @ ''" class="brand">'' @ htmlEscape brand @ ''</a>''
      else ''<span class="brand">'' @ htmlEscape brand @ ''</span>'')\<close>

text \<open>The constant fragments of the page, in order. The separator in the title is the UTF-8 middle dot.\<close>

definition page_head :: string where
  \<open>page_head = ''<!doctype html><html lang="en"><head><meta charset="utf-8">''
     @ ''<meta name="viewport" content="width=device-width,initial-scale=1">'' @ ''<title>''\<close>

definition page_style :: string where
  \<open>page_style = ''</title>'' @ ''<style>'' @ ''*{box-sizing:border-box}''
     @ ''html,body{margin:0;padding:0;min-height:100%;}''
     @ ''body{font-family:-apple-system,BlinkMacSystemFont,"Segoe UI",Inter,system-ui,sans-serif;''
     @ ''background:''\<close>

definition page_rest :: string where
  \<open>page_rest = '';color:#e2e8f0;''
     @ ''display:flex;align-items:center;justify-content:center;padding:2rem;line-height:1.5;}''
     @ ''.wrap{max-width:32rem;width:100%;text-align:center;}''
     @ ''.logo,.brand{display:inline-block;margin:0 0 2rem;text-decoration:none;color:#f1f5f9;font-weight:600;font-size:1.25rem;letter-spacing:.02em;}''
     @ ''.logo img,img.logo{max-height:48px;max-width:240px;display:block;margin:0 auto;}''
     @ ''.status{font-size:4.5rem;font-weight:700;color:#f8fafc;margin:0 0 .5rem;letter-spacing:-.04em;line-height:1;}''
     @ ''h1{font-size:1.5rem;font-weight:600;color:#f1f5f9;margin:0 0 1rem;}''
     @ ''p{color:#94a3b8;margin:0;font-size:1rem;}''
     @ ''</style></head><body><div class="wrap">''\<close>

definition renderErrorPage :: "int \<Rightarrow> string \<Rightarrow> string \<Rightarrow> ErrorBrandingRec \<Rightarrow> string" where
  \<open>renderErrorPage status title msg b =
     (let statusStr = Itoa status in
      page_head @ statusStr @ [CHR 0x20, CHR 0xC2, CHR 0xB7, CHR 0x20] @ htmlEscape title
      @ page_style @ page_bg b @ page_rest
      @ page_logo b
      @ ''<div class="status">'' @ statusStr @ ''</div>''
      @ ''<h1>'' @ htmlEscape title @ ''</h1>''
      @ ''<p>'' @ htmlEscape msg @ ''</p>''
      @ ''</div></body></html>'')\<close>

definition maintenanceBody :: "string \<Rightarrow> ErrorBrandingRec \<Rightarrow> string" where
  "maintenanceBody msg b = renderErrorPage 503 ''Service under maintenance'' msg b"

definition routeErrorBranding :: "route \<Rightarrow> ErrorBrandingRec" where
  "routeErrorBranding r = (if CustomErrorOverride r then CustomErrorBranding r else ErrorBranding r)"

definition routeMaintenanceBody :: "route \<Rightarrow> string \<Rightarrow> string" where
  "routeMaintenanceBody r msg =
     (if CustomErrorOverride r \<and> TrimSpace (CustomErrorHTML r) \<noteq> ''''
         \<and> ScreenReplacerValue (CustomErrorHTML r) = None
      then NeutralizeTenantTemplate (CustomErrorHTML r)
      else maintenanceBody msg (routeErrorBranding r))"

section \<open>Error routes\<close>

definition brandedErrors :: "(int \<times> string \<times> string) list" where
  \<open>brandedErrors =
     [(400, ''Bad request'', ''The request was malformed.''),
      (401, ''Authentication required'', ''Please sign in to access this resource.''),
      (403, ''Access denied'', ''You don't have permission to view this page.''),
      (404, ''Page not found'', ''The page you're looking for doesn't exist or has moved.''),
      (405, ''Method not allowed'', ''This endpoint does not accept the request method you used.''),
      (408, ''Request timeout'', ''The server gave up waiting for the request to complete.''),
      (429, ''Too many requests'', ''You've hit the rate limit. Please slow down and try again shortly.''),
      (500, ''Server error'', ''Something went wrong on our side. Please try again in a moment.''),
      (502, ''Bad gateway'', ''The upstream service responded with an error.''),
      (503, ''Service unavailable'', ''The service is temporarily unavailable. Please try again shortly.''),
      (504, ''Gateway timeout'', ''The upstream service took too long to respond.'')]\<close>

definition html_headers :: json where
  "html_headers = JObj [(''Content-Type'', jstrs [''text/html; charset=utf-8'']), (''Cache-Control'', jstrs [''no-store''])]"

definition error_route :: "ErrorBrandingRec \<Rightarrow> int \<times> string \<times> string \<Rightarrow> json" where
  "error_route b = (\<lambda>(status, title, msg).
     JObj [(''match'', JArr [JObj [(''expression'', JStr (''{http.error.status_code} == '' @ Itoa status))]]),
           (''handle'', JArr [JObj
              [(''handler'', JStr ''static_response''), (''status_code'', JNum status),
               (''headers'', html_headers), (''body'', JStr (renderErrorPage status title msg b))]]),
           (''terminal'', JBool True)])"

definition buildErrorRoutes :: "ErrorBrandingRec \<Rightarrow> json list" where
  "buildErrorRoutes b =
     map (error_route b) brandedErrors @
     [JObj [(''handle'', JArr [JObj
               [(''handler'', JStr ''static_response''), (''status_code'', JStr ''{http.error.status_code}''),
                (''headers'', html_headers),
                (''body'', JStr (renderErrorPage 0 ''Something went wrong'' ''An unexpected error occurred.'' b))]]),
            (''terminal'', JBool True)]]"

section \<open>Lemmas\<close>

text \<open>A string without braces and not ending in a backslash: what may stand between placeholders.\<close>

definition plain :: "string \<Rightarrow> bool" where
  "plain w \<longleftrightarrow> (\<forall>x \<in> set w. \<not> is_brace x)"

lemma plain_simps [simp]:
  "plain []" "plain (x # w) \<longleftrightarrow> \<not> is_brace x \<and> plain w" "plain (v @ w) \<longleftrightarrow> plain v \<and> plain w"
  by (auto simp: plain_def)

lemma html_byte_safe: "x \<in> set (html_byte c) \<Longrightarrow> x \<notin> set ''<>{}'' \<and> x \<noteq> CHR 34 \<and> x \<noteq> CHR 39"
  by (auto simp: html_byte_def split: if_split_asm)

lemma htmlEscape_safe: "x \<in> set (htmlEscape s) \<Longrightarrow> x \<notin> set ''<>{}'' \<and> x \<noteq> CHR 34 \<and> x \<noteq> CHR 39"
  using html_byte_safe unfolding htmlEscape_def by (simp only: set_concat set_map) blast

lemma plain_htmlEscape [simp]: "plain (htmlEscape s)"
  using htmlEscape_safe by (auto simp: plain_def)

lemma plain_Itoa [simp]: "plain (Itoa i)"
proof -
  have "\<not> is_brace c" if "is_digit c" for c
    using that by (auto simp: is_digit_def byte_def)
  then have "plain (nat_dec n)" for n
    using nat_dec_digits [of n] unfolding plain_def list_all_iff by blast
  then show ?thesis by (simp add: Itoa_def)
qed

lemma cssColorSafe_plain: "cssColorSafe s \<Longrightarrow> plain s"
proof -
  have "\<not> (x \<in> set ''#(),.% -'' \<or> is_lower x \<or> is_upper x \<or> is_digit x)" if "is_brace x" for x
    using that by (auto simp: is_lower_def is_upper_def is_digit_def byte_def)
  then show "cssColorSafe s \<Longrightarrow> ?thesis"
    unfolding cssColorSafe_def list_all_iff plain_def by blast
qed

lemma plain_page_bg [simp]: "plain (page_bg b)"
  using cssColorSafe_plain by (simp add: page_bg_def Let_def)

lemma plain_page_logo [simp]: "plain (page_logo b)"
  by (simp add: page_logo_def Let_def)

text \<open>The scan for placeholders over plain text and over one pair of braces.\<close>

lemma scan_plain: "plain w \<Longrightarrow> map span_key (scan_loop b i (w @ [c] @ s)) =
    map span_key (scan_loop False j s)" if "\<not> is_brace c" "c \<noteq> CHR 92"
proof (induction w arbitrary: b i)
  case Nil
  then show ?case using that scan_keys_shift [of False "Suc i" s j] by (simp add: scan_loop.simps)
next
  case (Cons x w)
  then show ?case by (simp add: scan_loop.simps(2) [of b i x])
qed

lemma scan_tail: "plain w \<Longrightarrow> scan_loop b i w = []"
  by (induction w arbitrary: b i) (simp_all add: scan_loop.simps)

lemma scan_pair:
  "plain w \<Longrightarrow> map span_key (scan_loop False i (''{'' @ w @ ''}'' @ t)) = span_name w # map span_key (scan_loop False 0 t)"
  using scan_open_close [of w i t 0] by (simp add: plain_def)

text \<open>A pair of braces after plain text that does not end in a backslash.\<close>

lemma scan_block:
  assumes "plain v" "plain w" "v \<noteq> []" "last v \<noteq> CHR 92"
  shows "map span_key (scan_loop False i (v @ ''{'' @ w @ ''}'' @ t)) =
    span_name w # map span_key (scan_loop False 0 t)"
proof -
  obtain u c where v: "v = u @ [c]" using assms(3) by (metis rev_exhaust)
  with assms have "plain u" "\<not> is_brace c" "c \<noteq> CHR 92" by (simp_all add: plain_def)
  then have "map span_key (scan_loop False i (u @ [c] @ (''{'' @ w @ ''}'' @ t))) =
      map span_key (scan_loop False 0 (''{'' @ w @ ''}'' @ t))"
    using scan_plain by blast
  then show ?thesis using scan_pair [OF assms(2)] by (simp add: v)
qed

fun blocks :: "(string \<times> string) list \<Rightarrow> string \<Rightarrow> string" where
  "blocks [] t = t"
| "blocks ((v, w) # bs) t = v @ ''{'' @ w @ ''}'' @ blocks bs t"

lemma scan_blocks:
  "\<forall>(v, w) \<in> set bs. plain v \<and> plain w \<and> v \<noteq> [] \<and> last v \<noteq> CHR 92 \<Longrightarrow> plain t \<Longrightarrow>
   map span_key (scan_loop False i (blocks bs t)) = map (\<lambda>(v, w). span_name w) bs"
proof (induction bs arbitrary: i)
  case (Cons vw bs)
  obtain v w where vw: "vw = (v, w)" by (cases vw)
  with Cons show ?case using scan_block [of v w i "blocks bs t"] by simp
qed (simp add: scan_tail)

text \<open>The page cut at the rules of its style sheet.\<close>

definition page_rules :: "int \<Rightarrow> string \<Rightarrow> ErrorBrandingRec \<Rightarrow> (string \<times> string) list" where
  \<open>page_rules status title b =
     [(page_head @ Itoa status @ [CHR 0x20, CHR 0xC2, CHR 0xB7, CHR 0x20] @ htmlEscape title @ ''</title><style>*'',
       ''box-sizing:border-box''),
      (''html,body'', ''margin:0;padding:0;min-height:100%;''),
      (''body'', ''font-family:-apple-system,BlinkMacSystemFont,"Segoe UI",Inter,system-ui,sans-serif;background:''
         @ page_bg b @ '';color:#e2e8f0;display:flex;align-items:center;justify-content:center;padding:2rem;line-height:1.5;''),
      (''.wrap'', ''max-width:32rem;width:100%;text-align:center;''),
      (''.logo,.brand'', ''display:inline-block;margin:0 0 2rem;text-decoration:none;color:#f1f5f9;font-weight:600;font-size:1.25rem;letter-spacing:.02em;''),
      (''.logo img,img.logo'', ''max-height:48px;max-width:240px;display:block;margin:0 auto;''),
      (''.status'', ''font-size:4.5rem;font-weight:700;color:#f8fafc;margin:0 0 .5rem;letter-spacing:-.04em;line-height:1;''),
      (''h1'', ''font-size:1.5rem;font-weight:600;color:#f1f5f9;margin:0 0 1rem;''),
      (''p'', ''color:#94a3b8;margin:0;font-size:1rem;'')]\<close>

definition page_tail :: "int \<Rightarrow> string \<Rightarrow> string \<Rightarrow> ErrorBrandingRec \<Rightarrow> string" where
  \<open>page_tail status title msg b =
     ''</style></head><body><div class="wrap">'' @ page_logo b
      @ ''<div class="status">'' @ Itoa status @ ''</div>''
      @ ''<h1>'' @ htmlEscape title @ ''</h1>'' @ ''<p>'' @ htmlEscape msg @ ''</p>'' @ ''</div></body></html>''\<close>

lemma page_blocks: "renderErrorPage status title msg b = blocks (page_rules status title b) (page_tail status title msg b)"
  by (simp add: renderErrorPage_def Let_def page_rules_def page_tail_def page_style_def page_rest_def)

lemma page_head_plain [simp]: "plain page_head"
  by (simp add: page_head_def)

lemma page_tail_plain: "plain (page_tail status title msg b)"
  by (simp add: page_tail_def)

lemma page_rules_plain:
  "\<forall>(v, w) \<in> set (page_rules status title b). plain v \<and> plain w \<and> v \<noteq> [] \<and> last v \<noteq> CHR 92"
  by (simp add: page_rules_def)

lemma span_name_colon:
  assumes "CHR '':'' \<notin> set v"
  shows "span_name (v @ '':'' @ w) = TrimSpace v"
proof -
  have "IndexByte (v @ '':'' @ w) (CHR '':'') = Some (length v)"
    using assms index_where_append [of v "\<lambda>x. x = CHR '':''" "CHR '':''" w] by (auto simp: IndexByte_def)
  then show ?thesis by (simp add: span_name_def)
qed

definition page_names :: "string list" where
  "page_names = [''box-sizing'', ''margin'', ''font-family'', ''max-width'', ''display'', ''max-height'',
     ''font-size'', ''font-size'', ''color'']"

lemma page_rules_names: "map (\<lambda>(v, w). span_name w) (page_rules status title b) = page_names"
  using span_name_colon [of "''box-sizing''"] span_name_colon [of "''margin''"]
    span_name_colon [of "''font-family''"] span_name_colon [of "''max-width''"]
    span_name_colon [of "''display''"] span_name_colon [of "''max-height''"]
    span_name_colon [of "''font-size''"] span_name_colon [of "''color''"]
  by (simp add: page_rules_def page_names_def TrimSpace_id is_space_def byte_def)

lemma placeholders_page: "placeholders (renderErrorPage status title msg b) = page_names"
  unfolding placeholders_def scanPlaceholderSpans_def page_blocks
  using scan_blocks [OF page_rules_plain page_tail_plain] page_rules_names by simp

section \<open>Properties\<close>

text \<open>C8: the placeholders Caddy's replacer finds in a rendered error page are the nine declarations of
  its style sheet, whatever the title, the message, the brand, the links and the colour are: no
  text of a tenant adds one, hides one or moves one.\<close>

theorem renderErrorPage_placeholders:
  "placeholders (renderErrorPage status title msg b) =
     [''box-sizing'', ''margin'', ''font-family'', ''max-width'', ''display'', ''max-height'',
      ''font-size'', ''font-size'', ''color'']"
  using placeholders_page by (simp add: page_names_def)

text \<open>Every placeholder in the maintenance page of a route, a tenant's own HTML included, is a
  request placeholder or one of the style declarations of the built-in page.\<close>

theorem routeMaintenanceBody_placeholders:
  "\<forall>k \<in> set (placeholders (routeMaintenanceBody r msg)). allowedTenantPlaceholder k \<or> k \<in> set page_names"
  by (simp add: routeMaintenanceBody_def maintenanceBody_def placeholders_page placeholders_Neutralize)

theorem routeMaintenanceBody_placeholders_witness:
  "placeholders (routeMaintenanceBody
       (zero_route\<lparr>CustomErrorOverride := True, CustomErrorHTML := ''<p>{http.request.host} {x}''\<rparr>) '''')
     = [''http.request.host''] \<and>
   (allowedTenantPlaceholder ''http.request.host'' \<or> ''http.request.host'' \<in> set page_names)"
proof -
  let ?r = "zero_route\<lparr>CustomErrorOverride := True, CustomErrorHTML := ''<p>{http.request.host} {x}''\<rparr>"
  have p: "placeholders (routeMaintenanceBody ?r '''') = [''http.request.host'']" by code_simp
  show ?thesis using routeMaintenanceBody_placeholders [of ?r "''''"] p by simp
qed

end
