(* ===== verification/Route_Gates.thy ===== *)
theory Route_Gates
  imports Route_Types
begin

text \<open>
  The predicates on a route that decide between serving it, serving it uncached and refusing it
  (\<open>internal/caddyapi/route.go\<close>: \<open>RouteAuthGated\<close>, \<open>routeAudienceRestricted\<close>, \<open>WAFUnenforceable\<close>,
  \<open>CustomHandlerQuarantine\<close>; \<open>tenanttemplate.go\<close>: \<open>TenantTemplateQuarantine\<close>). A quarantine reason
  is an option here: the source's empty string is \<^term>\<open>None\<close>.
\<close>

definition cacheSafeCustomHandlers :: "string list" where
  "cacheSafeCustomHandlers = [''headers'', ''encode'', ''rewrite'', ''vars'', ''request_body'']"

definition handlerHasNested :: "hobj \<Rightarrow> bool" where
  "handlerHasNested h =
     list_ex (\<lambda>k. map_of h k \<noteq> None) [''routes'', ''handle'', ''handler_chain'', ''error_routes'']"

definition customHandlersAuth :: "go_env \<Rightarrow> string \<Rightarrow> bool" where
  "customHandlersAuth env raw =
     (if TrimSpace raw = '''' then False
      else case Option.bind (json_decode env raw) unmarshal_maps of
        None \<Rightarrow> True
      | Some hs \<Rightarrow> list_ex (\<lambda>h. hobj_name h \<notin> set cacheSafeCustomHandlers \<or> handlerHasNested h)
          (case hs of Some l \<Rightarrow> l | None \<Rightarrow> []))"

definition RouteAuthGated :: "go_env \<Rightarrow> route \<Rightarrow> bool" where
  "RouteAuthGated env r \<longleftrightarrow>
     SSOProviderURL r \<noteq> '''' \<or>
     BasicAuthUser r \<noteq> '''' \<or> BasicAuthUsers r \<noteq> [] \<or>
     MTLSPathRules r \<noteq> [] \<or>
     PortalProtect r \<or>
     RequireClientCert r \<or>
     (External r \<and> ProxySecret r \<noteq> '''') \<or>
     MTLSDenyOnMisconfig r \<or> PortalDenyOnMisconfig r \<or>
     customHandlersAuth env (CustomHandlers r)"

definition routeAudienceRestricted :: "route \<Rightarrow> bool" where
  "routeAudienceRestricted r =
     (if AccessBlockAll r \<or> AccessDeny r \<noteq> [] \<or> TrimSpace (GeoBlockCIDRs r) \<noteq> '''' then True
      else let mode = ToLower (TrimSpace (GeoMode r)) in mode = ''allow'' \<or> mode = ''deny'')"

definition WAFUnenforceable :: "route \<Rightarrow> bool" where
  "WAFUnenforceable r \<longleftrightarrow> WAFEnabled r \<and> WAFBlocking r \<and> \<not> WAFModuleAvailable r \<and> \<not> WAFFailOpen r"

abbreviation sanitize_custom :: "go_env \<Rightarrow> string \<Rightarrow> handler_error + string" where
  "sanitize_custom env \<equiv> SanitizeCustomHandlers (regexp_compiles env) (json_decode env) (json_encode env)"

definition CustomHandlerQuarantine :: "go_env \<Rightarrow> route \<Rightarrow> handler_error option" where
  "CustomHandlerQuarantine env r =
     (if TrimSpace (CustomHandlers r) = '''' then None
      else case sanitize_custom env (CustomHandlers r) of Inl e \<Rightarrow> Some e | Inr _ \<Rightarrow> None)"

text \<open>The reason names the field and the placeholder.\<close>

definition template_check :: "string \<times> string \<Rightarrow> (string \<times> tmpl_error) option" where
  "template_check c = map_option (Pair (fst c)) (ScreenTenantTemplate (snd c))"

definition TenantTemplateQuarantine :: "route \<Rightarrow> (string \<times> tmpl_error) option" where
  "TenantTemplateQuarantine r =
     or_err (first_err template_check
       [(''redirect_url'', RedirectURL r), (''geo_redirect_url'', GeoRedirectURL r),
        (''upstream_host_header'', UpstreamHostHeader r), (''upstream_sni'', UpstreamSNI r),
        (''upstream_path'', UpstreamPathPrefix r)])
     (or_err (first_err (\<lambda>(k, v). template_check (''custom header '' @ k, k @ '': '' @ v)) (Headers r))
     (or_err (first_err (\<lambda>rule. first_err template_check
        [(''location '' @ loc_Path rule @ '' redirect_url'', loc_RedirectURL rule),
         (''location '' @ loc_Path rule @ '' rewrite_uri'', loc_RewriteURI rule)]) (LocationRules r))
       (map_option (Pair ''rate_key'') (ScreenTenantRateKey (RateLimitKey r)))))"

section \<open>Lemmas\<close>

lemma template_check_None [simp]: "template_check c = None \<longleftrightarrow> ScreenTenantTemplate (snd c) = None"
  by (simp add: template_check_def)

lemma TenantTemplateQuarantine_None:
  assumes "TenantTemplateQuarantine r = None"
  shows "ScreenTenantTemplate (RedirectURL r) = None" "ScreenTenantTemplate (GeoRedirectURL r) = None"
    "ScreenTenantTemplate (UpstreamHostHeader r) = None" "ScreenTenantTemplate (UpstreamSNI r) = None"
    "ScreenTenantTemplate (UpstreamPathPrefix r) = None"
    "(k, v) \<in> set (Headers r) \<Longrightarrow> ScreenTenantTemplate (k @ '': '' @ v) = None"
    "rule \<in> set (LocationRules r) \<Longrightarrow> ScreenTenantTemplate (loc_RedirectURL rule) = None \<and>
       ScreenTenantTemplate (loc_RewriteURI rule) = None"
    "ScreenReplacerValue (RateLimitKey r) = None"
  using assms by (auto simp: TenantTemplateQuarantine_def ScreenTenantRateKey_def simp del: first_err.simps)

end
