(* ===== verification/Union_Find.thy ===== *)
theory Union_Find
  imports Main "HOL-Library.Monad_Syntax"
begin

text \<open>
  The union-find forest that \<open>EmissionOrder\<close> (\<open>internal/caddyapi/routeorder.go\<close>) keeps in the
  slice \<open>parent\<close>: \<open>find\<close> walks to the root and halves the path on its way, \<open>union\<close> hangs the second
  root under the first. The walk ends because the forest has no cycle, which is an invariant
  of the calls and not of the types, so \<open>uf_find\<close> is a partial function: \<^term>\<open>None\<close>
  is a walk that never ends, and \<open>uf_find_root\<close> proves that it returns.
  The locale \<open>partition_ops\<close> is the contract the emission order relies on: \<open>find\<close> returns a
  representative without changing the partition, and \<open>union\<close> merges two blocks.
\<close>

section \<open>The operations\<close>

partial_function (option) uf_find :: "nat list \<Rightarrow> nat \<Rightarrow> (nat list \<times> nat) option" where
  "uf_find p i =
     (if p ! i \<noteq> i then uf_find (p[i := p ! (p ! i)]) (p ! (p ! i)) else Some (p, i))"

declare uf_find.simps [code]

definition uf_union :: "nat list \<Rightarrow> nat \<Rightarrow> nat \<Rightarrow> nat list option" where
  "uf_union p a b = do {
     (p, ra) \<leftarrow> uf_find p a;
     (p, rb) \<leftarrow> uf_find p b;
     Some (if ra \<noteq> rb then p[rb := ra] else p)
   }"

text \<open>A sequence of unions, and the representatives of a sequence of elements.\<close>

fun unions_with :: "('p \<Rightarrow> nat \<Rightarrow> nat \<Rightarrow> 'p option) \<Rightarrow> 'p \<Rightarrow> (nat \<times> nat) list \<Rightarrow> 'p option" where
  "unions_with u p [] = Some p"
| "unions_with u p ((a, b) # us) = do { p \<leftarrow> u p a b; unions_with u p us }"

fun finds_with :: "('p \<Rightarrow> nat \<Rightarrow> ('p \<times> nat) option) \<Rightarrow> 'p \<Rightarrow> nat list \<Rightarrow> nat list option" where
  "finds_with f p [] = Some []"
| "finds_with f p (i # is) = do { (p, r) \<leftarrow> f p i; rs \<leftarrow> finds_with f p is; Some (r # rs) }"

section \<open>The contract\<close>

locale partition_ops =
  fixes find_op :: "'p \<Rightarrow> nat \<Rightarrow> ('p \<times> nat) option"
    and union_op :: "'p \<Rightarrow> nat \<Rightarrow> nat \<Rightarrow> 'p option"
    and invar :: "nat \<Rightarrow> 'p \<Rightarrow> bool"
    and rep :: "'p \<Rightarrow> nat \<Rightarrow> nat"
  assumes find_spec: "invar n p \<Longrightarrow> i < n \<Longrightarrow>
      \<exists>p'. find_op p i = Some (p', rep p i) \<and> invar n p' \<and> (\<forall>j < n. rep p' j = rep p j)"
    and union_spec: "invar n p \<Longrightarrow> a < n \<Longrightarrow> b < n \<Longrightarrow>
      \<exists>p'. union_op p a b = Some p' \<and> invar n p' \<and>
        (\<forall>j < n. rep p' j = (if rep p j = rep p b then rep p a else rep p j))"
begin

definition same :: "nat \<Rightarrow> 'p \<Rightarrow> (nat \<times> nat) set" where
  "same n p = {(x, y). x < n \<and> y < n \<and> rep p x = rep p y}"

lemma union_same:
  assumes "invar n p" "a < n" "b < n"
  shows "\<exists>p'. union_op p a b = Some p' \<and> invar n p' \<and> same n p \<subseteq> same n p' \<and> (a, b) \<in> same n p' \<and>
    (\<forall>E. equiv UNIV E \<longrightarrow> same n p \<subseteq> E \<longrightarrow> (a, b) \<in> E \<longrightarrow> same n p' \<subseteq> E)"
proof -
  obtain p' where p': "union_op p a b = Some p'" "invar n p'"
      "\<forall>j < n. rep p' j = (if rep p j = rep p b then rep p a else rep p j)"
    using union_spec [OF assms] by blast
  have "same n p' \<subseteq> E" if E: "equiv UNIV E" "same n p \<subseteq> E" "(a, b) \<in> E" for E
  proof clarify
    fix x y assume xy: "(x, y) \<in> same n p'"
    then have lt: "x < n" "y < n" by (auto simp: same_def)
    have in_E: "(u, v) \<in> E" if "u < n" "v < n" "rep p u = rep p v" for u v
      using that E(2) by (auto simp: same_def)
    have sym: "(v, u) \<in> E" if "(u, v) \<in> E" for u v using that E(1) by (auto simp: equiv_def dest: symD)
    have tr: "(u, w) \<in> E" if "(u, v) \<in> E" "(v, w) \<in> E" for u v w
      using that E(1) by (auto simp: equiv_def dest: transD)
    have key: "(u, a) \<in> E" if "u < n" "rep p u = rep p b" for u
      using tr [OF in_E [OF that(1) assms(3) that(2)] sym [OF E(3)]] .
    have eq: "rep p' x = rep p' y" using xy by (simp add: same_def)
    consider "rep p x = rep p b" "rep p y = rep p b" | "rep p x = rep p b" "rep p y = rep p a"
      | "rep p x = rep p a" "rep p y = rep p b" | "rep p x = rep p y"
      using eq p'(3) lt by (auto split: if_splits)
    then show "(x, y) \<in> E"
    proof cases
      case 1 then show ?thesis using in_E lt by simp
    next
      case 2 then show ?thesis using tr [OF key [of x] in_E [of a y]] lt assms(2) by simp
    next
      case 3 then show ?thesis using tr [OF in_E [of x a] sym [OF key [of y]]] lt assms(2) by simp
    next
      case 4 then show ?thesis using in_E lt by simp
    qed
  qed
  then show ?thesis using p' assms by (auto simp: same_def)
qed

text \<open>After a list of unions the partition is the least equivalence that holds them all.\<close>

lemma unions_same:
  assumes "invar n p" "\<forall>(a, b) \<in> set us. a < n \<and> b < n"
  shows "\<exists>p'. unions_with union_op p us = Some p' \<and> invar n p' \<and>
    same n p \<subseteq> same n p' \<and> set us \<subseteq> same n p' \<and>
    (\<forall>E. equiv UNIV E \<longrightarrow> same n p \<subseteq> E \<longrightarrow> set us \<subseteq> E \<longrightarrow> same n p' \<subseteq> E)"
  using assms
proof (induction us arbitrary: p)
  case (Cons ab us)
  obtain a b where ab: "ab = (a, b)" by (cases ab)
  with Cons.prems obtain p1 where p1: "union_op p a b = Some p1" "invar n p1"
      "same n p \<subseteq> same n p1" "(a, b) \<in> same n p1"
      "\<forall>E. equiv UNIV E \<longrightarrow> same n p \<subseteq> E \<longrightarrow> (a, b) \<in> E \<longrightarrow> same n p1 \<subseteq> E"
    using union_same [of n p a b] by auto
  from Cons.IH [OF p1(2)] Cons.prems(2) obtain p2 where p2:
      "unions_with union_op p1 us = Some p2" "invar n p2" "same n p1 \<subseteq> same n p2"
      "set us \<subseteq> same n p2"
      "\<forall>E. equiv UNIV E \<longrightarrow> same n p1 \<subseteq> E \<longrightarrow> set us \<subseteq> E \<longrightarrow> same n p2 \<subseteq> E"
    by auto
  show ?case
  proof (intro exI conjI allI impI)
    show "unions_with union_op p (ab # us) = Some p2" using ab p1 p2 by simp
    show "invar n p2" by (rule p2(2))
    show "same n p \<subseteq> same n p2" using p1(3) p2(3) by blast
    show "set (ab # us) \<subseteq> same n p2" using ab p1(4) p2(3,4) by auto
  next
    fix E assume E: "equiv UNIV E" "same n p \<subseteq> E" "set (ab # us) \<subseteq> E"
    then have "same n p1 \<subseteq> E" using p1(5) ab by simp
    then show "same n p2 \<subseteq> E" using p2(5) E by simp
  qed
qed auto

lemma finds_spec:
  assumes "invar n p" "\<forall>i \<in> set is. i < n"
  shows "finds_with find_op p is = Some (map (rep p) is)"
  using assms
proof (induction "is" arbitrary: p)
  case (Cons i js)
  obtain p' where p': "find_op p i = Some (p', rep p i)" "invar n p'" "\<forall>j < n. rep p' j = rep p j"
    using find_spec [OF Cons.prems(1), of i] Cons.prems(2) by auto
  with Cons.IH [OF p'(2)] Cons.prems(2) show ?case by auto
qed simp

end

section \<open>The forest implements the contract\<close>

text \<open>\<open>uf_root p i d r\<close>: walking \<open>d\<close> steps up from \<open>i\<close> reaches the root \<open>r\<close>.\<close>

inductive uf_root :: "nat list \<Rightarrow> nat \<Rightarrow> nat \<Rightarrow> nat \<Rightarrow> bool" where
  here: "p ! i = i \<Longrightarrow> uf_root p i 0 i"
| up: "p ! i \<noteq> i \<Longrightarrow> uf_root p (p ! i) d r \<Longrightarrow> uf_root p i (Suc d) r"

inductive_cases uf_root_0: "uf_root p i 0 r"
inductive_cases uf_root_Suc: "uf_root p i (Suc d) r"
inductive_cases uf_rootE: "uf_root p i d r"

definition uf_invar :: "nat \<Rightarrow> nat list \<Rightarrow> bool" where
  "uf_invar n p \<longleftrightarrow> length p = n \<and> (\<forall>i < n. p ! i < n \<and> (\<exists>d r. uf_root p i d r))"

definition uf_rep :: "nat list \<Rightarrow> nat \<Rightarrow> nat" where
  "uf_rep p i = (THE r. \<exists>d. uf_root p i d r)"

lemma uf_root_unique: "uf_root p i d r \<Longrightarrow> uf_root p i e s \<Longrightarrow> d = e \<and> r = s"
proof (induction arbitrary: e s rule: uf_root.induct)
  case (here p i)
  from here.prems here.hyps show ?case by (cases rule: uf_root.cases) simp_all
next
  case (up p i d r)
  from up.prems up.hyps(1) obtain e' where "e = Suc e'" "uf_root p (p ! i) e' s"
    by (cases rule: uf_root.cases) simp_all
  with up.IH [of e' s] show ?case by simp
qed

lemma uf_rep_eq: "uf_root p i d r \<Longrightarrow> uf_rep p i = r"
  unfolding uf_rep_def by (rule the_equality) (auto dest: uf_root_unique)

lemma uf_root_fix: "uf_root p i d r \<Longrightarrow> p ! r = r"
  by (induction rule: uf_root.induct) auto

lemma uf_root_less: "uf_root p i d r \<Longrightarrow> uf_invar n p \<Longrightarrow> i < n \<Longrightarrow> r < n"
  by (induction rule: uf_root.induct) (auto simp: uf_invar_def)

text \<open>Pointing an element at a node nearer to its own root keeps every root.\<close>

lemma uf_root_shortcut:
  assumes i: "uf_root p i di r" and q: "uf_root p q dq r" and "dq < di" and "i < length p"
  shows "uf_root p j d s \<Longrightarrow> \<exists>d' \<le> d. uf_root (p[i := q]) j d' s"
proof (induction d arbitrary: j rule: less_induct)
  case (less d)
  show ?case
  proof (cases "j = i")
    case True
    with less.prems i have ds: "d = di" "s = r" using uf_root_unique by blast+
    with less.IH [of dq q] q assms(3) obtain d' where d': "d' \<le> dq" "uf_root (p[i := q]) q d' r"
      by auto
    have "q \<noteq> i" using q i assms(3) uf_root_unique by blast
    then have "uf_root (p[i := q]) i (Suc d') r"
      using d'(2) assms(4) by (intro uf_root.up) auto
    then show ?thesis using True ds d'(1) assms(3) by (intro exI [of _ "Suc d'"]) auto
  next
    case False
    then have nth: "p[i := q] ! j = p ! j" by simp
    from less.prems show ?thesis
    proof (cases rule: uf_root.cases)
      case here
      then have "uf_root (p[i := q]) j 0 s" using nth by (metis uf_root.here)
      then show ?thesis by blast
    next
      case (up e)
      then obtain d' where "d' \<le> e" "uf_root (p[i := q]) (p ! j) d' s" using less.IH [of e] by auto
      moreover from this(2) have "uf_root (p[i := q]) j (Suc d') s"
        using up(2) nth by (intro uf_root.up) simp_all
      ultimately show ?thesis using up(1) by (intro exI [of _ "Suc d'"]) simp
    qed
  qed
qed

lemma uf_find_root:
  "uf_root p i d r \<Longrightarrow> uf_invar n p \<Longrightarrow> i < n \<Longrightarrow>
   \<exists>p'. uf_find p i = Some (p', r) \<and> uf_invar n p' \<and>
     (\<forall>j e s. j < n \<longrightarrow> uf_root p j e s \<longrightarrow> (\<exists>e'. uf_root p' j e' s))"
proof (induction d arbitrary: p i rule: less_induct)
  case (less d)
  show ?case
  proof (cases "p ! i = i")
    case True
    with less.prems(1) have "r = i" by (auto dest: uf_root.here uf_root_unique)
    moreover have "uf_find p i = Some (p, i)" using True by (subst uf_find.simps) simp
    ultimately show ?thesis using less.prems(2) by blast
  next
    case False
    let ?q = "p ! (p ! i)"
    from less.prems(1) False obtain e where e: "d = Suc e" "uf_root p (p ! i) e r"
      by (auto elim: uf_rootE)
    have "\<exists>f \<le> e. uf_root p ?q f r"
      using e(2) by (cases rule: uf_root.cases) (auto intro: uf_root.here le_SucI)
    then obtain f where f: "f \<le> e" "uf_root p ?q f r" by blast
    have n: "length p = n" "?q < n" using less.prems(2,3) by (auto simp: uf_invar_def)
    have short: "\<exists>d' \<le> x. uf_root (p[i := ?q]) j d' s" if "uf_root p j x s" for j x s
      using uf_root_shortcut [OF less.prems(1) f(2) _ _ that] e(1) f(1) n(1) less.prems(3) by auto
    have inv: "uf_invar n (p[i := ?q])"
      unfolding uf_invar_def
    proof (intro conjI allI impI)
      fix j assume j: "j < n"
      then show "p[i := ?q] ! j < n"
        using less.prems(2) n by (cases "j = i") (auto simp: uf_invar_def)
      from j less.prems(2) obtain x s where "uf_root p j x s" by (auto simp: uf_invar_def)
      then show "\<exists>x s. uf_root (p[i := ?q]) j x s" using short by blast
    qed (use n in simp)
    obtain f' where f': "f' \<le> f" "uf_root (p[i := ?q]) ?q f' r" using short [OF f(2)] by auto
    then have "f' < d" using e f by simp
    from less.IH [OF this f'(2) inv n(2)] obtain p' where
        p': "uf_find (p[i := ?q]) ?q = Some (p', r)" "uf_invar n p'"
        "\<forall>j e s. j < n \<longrightarrow> uf_root (p[i := ?q]) j e s \<longrightarrow> (\<exists>e'. uf_root p' j e' s)"
      by blast
    have "uf_find p i = Some (p', r)" using False p'(1) by (subst uf_find.simps) simp
    moreover have "\<exists>e'. uf_root p' j e' s" if "j < n" "uf_root p j x s" for j x s
      using short [OF that(2)] p'(3) that(1) by blast
    ultimately show ?thesis using p'(2) by blast
  qed
qed

lemma uf_find_spec:
  assumes "uf_invar n p" "i < n"
  shows "\<exists>p'. uf_find p i = Some (p', uf_rep p i) \<and> uf_invar n p' \<and> (\<forall>j < n. uf_rep p' j = uf_rep p j)"
proof -
  from assms obtain d r where r: "uf_root p i d r" by (auto simp: uf_invar_def)
  from uf_find_root [OF r assms] obtain p' where p': "uf_find p i = Some (p', r)" "uf_invar n p'"
    "\<forall>j e s. j < n \<longrightarrow> uf_root p j e s \<longrightarrow> (\<exists>e'. uf_root p' j e' s)" by blast
  have "uf_rep p' j = uf_rep p j" if "j < n" for j
    using that assms(1) p'(3) unfolding uf_invar_def by (metis uf_rep_eq)
  then show ?thesis using p' uf_rep_eq [OF r] by auto
qed

lemma uf_root_link:
  assumes "p ! ra = ra" "p ! rb = rb" "ra \<noteq> rb" "rb < length p"
  shows "uf_root p j d s \<Longrightarrow> \<exists>d'. uf_root (p[rb := ra]) j d' (if s = rb then ra else s)"
proof (induction d arbitrary: j)
  case 0
  then have j: "p ! j = j" "s = j" by (auto elim: uf_root_0)
  have ra: "uf_root (p[rb := ra]) ra 0 ra" using assms by (intro uf_root.here) simp
  show ?case
  proof (cases "j = rb")
    case True
    have "uf_root (p[rb := ra]) rb (Suc 0) ra" using assms ra by (intro uf_root.up) auto
    with True j show ?thesis by auto
  next
    case False
    then have "uf_root (p[rb := ra]) j 0 j" using j by (intro uf_root.here) simp
    with False j show ?thesis by auto
  qed
next
  case (Suc d)
  then have j: "p ! j \<noteq> j" "uf_root p (p ! j) d s" by (auto elim: uf_root_Suc)
  then have "j \<noteq> rb" using assms(2) by auto
  moreover from Suc.IH [OF j(2)] obtain d' where
    "uf_root (p[rb := ra]) (p ! j) d' (if s = rb then ra else s)" by blast
  ultimately show ?case using j(1) by (intro exI [of _ "Suc d'"] uf_root.up) auto
qed

lemma uf_union_spec:
  assumes "uf_invar n p" "a < n" "b < n"
  shows "\<exists>p'. uf_union p a b = Some p' \<and> uf_invar n p' \<and>
    (\<forall>j < n. uf_rep p' j = (if uf_rep p j = uf_rep p b then uf_rep p a else uf_rep p j))"
proof -
  obtain p1 where p1: "uf_find p a = Some (p1, uf_rep p a)" "uf_invar n p1"
    "\<forall>j < n. uf_rep p1 j = uf_rep p j" using uf_find_spec [OF assms(1,2)] by blast
  obtain p2 where p2: "uf_find p1 b = Some (p2, uf_rep p b)" "uf_invar n p2"
    "\<forall>j < n. uf_rep p2 j = uf_rep p j" using uf_find_spec [OF p1(2) assms(3)] p1(3) assms(3) by auto
  let ?ra = "uf_rep p a" and ?rb = "uf_rep p b"
  have root: "\<exists>d. uf_root p2 j d (uf_rep p j)" if "j < n" for j
    using that p2(2,3) unfolding uf_invar_def by (metis uf_rep_eq)
  show ?thesis
  proof (cases "?ra = ?rb")
    case True
    with p1 p2 show ?thesis by (auto simp: uf_union_def)
  next
    case False
    let ?p = "p2[?rb := ?ra]"
    have fx: "p2 ! ?ra = ?ra" "p2 ! ?rb = ?rb" using root assms(2,3) uf_root_fix by blast+
    have lt: "?ra < n" "?rb < n" using root assms(2,3) p2(2) uf_root_less by blast+
    have len: "length p2 = n" using p2(2) by (simp add: uf_invar_def)
    have new: "\<exists>d. uf_root ?p j d (if uf_rep p j = ?rb then ?ra else uf_rep p j)" if "j < n" for j
      using root [OF that] uf_root_link [OF fx False] lt len by blast
    have "uf_invar n ?p"
      unfolding uf_invar_def
    proof (intro conjI allI impI)
      fix j assume "j < n"
      then show "?p ! j < n" using lt p2(2) by (cases "j = ?rb") (auto simp: uf_invar_def)
      show "\<exists>d r. uf_root ?p j d r" using new [OF \<open>j < n\<close>] by blast
    qed (use len in simp)
    moreover have "uf_rep ?p j = (if uf_rep p j = ?rb then ?ra else uf_rep p j)" if "j < n" for j
      using new [OF that] uf_rep_eq by blast
    moreover have "uf_union p a b = Some ?p" using False p1 p2 by (simp add: uf_union_def)
    ultimately show ?thesis by blast
  qed
qed

interpretation uf: partition_ops uf_find uf_union uf_invar uf_rep
  by unfold_locales (fact uf_find_spec uf_union_spec)+

text \<open>The forest in which every element is its own root.\<close>

lemma uf_init: "uf_invar n [0..<n]" and uf_rep_init: "i < n \<Longrightarrow> uf_rep [0..<n] i = i"
proof -
  have root: "uf_root [0..<n] i 0 i" if "i < n" for i using that by (intro uf_root.here) simp
  then show "uf_invar n [0..<n]" by (auto simp: uf_invar_def)
  show "i < n \<Longrightarrow> uf_rep [0..<n] i = i" using root uf_rep_eq by blast
qed

end
