(* ===== verification/Route_Order.thy ===== *)
theory Route_Order
  imports Route_Gates Host_Match Union_Find "HOL-Library.Product_Lexorder" "HOL-Library.Multiset"
begin

text \<open>
  The order in which routes are emitted (\<open>internal/caddyapi/routeorder.go\<close>). Caddy takes the first
  route that matches and every route is terminal, so a broad route in front of a narrow one on the
  same host hides it. \<open>EmissionOrder\<close> groups the routes whose hosts can overlap with a union-find
  forest and sorts each group inside its own slots. Go iterates over the maps \<open>byHost\<close> and \<open>groups\<close>
  in no fixed order: \<open>host_perm\<close> and \<open>group_perm\<close> are that order, and the properties hold for all
  of them. \<^term>\<open>None\<close> would be a walk in the forest that never ends; the properties show that it
  does not happen.
\<close>

section \<open>The operations\<close>

definition pathSpecificity :: "route \<Rightarrow> int" where
  "pathSpecificity r = (let p = TrimSpace (PathPrefix r) in if p = ''/'' then 0 else int (length p))"

definition wildcardRank :: "route \<Rightarrow> int" where
  "wildcardRank r = (if list_ex (\<lambda>h. Contains h ''*'') (Hosts r) then 1 else 0)"

definition denyRank :: "go_env \<Rightarrow> route \<Rightarrow> int" where
  "denyRank env r =
     (if MTLSDenyOnMisconfig r \<or> PortalDenyOnMisconfig r then 0
      else if RouteAuthGated env r then 1 else 2)"

text \<open>The comparison of the sort, as a lexicographic key.\<close>

definition emission_key :: "go_env \<Rightarrow> route \<Rightarrow> int \<times> int \<times> int" where
  "emission_key env r = (- pathSpecificity r, wildcardRank r, denyRank env r)"

text \<open>The canonical hosts of a route, blank ones left out.\<close>

definition route_hosts :: "go_env \<Rightarrow> route \<Rightarrow> string list" where
  "route_hosts env r = filter (\<lambda>h. h \<noteq> '''') (map (NormalizeHost (idna_ToASCII env)) (Hosts r))"

text \<open>The map \<open>byHost\<close> as an association list in the order of the slice \<open>hosts\<close>.\<close>

fun byHost_add :: "(string \<times> nat list) list \<Rightarrow> string \<Rightarrow> nat \<Rightarrow> (string \<times> nat list) list" where
  "byHost_add [] h i = [(h, [i])]"
| "byHost_add ((k, is) # m) h i = (if k = h then (k, is @ [i]) # m else (k, is) # byHost_add m h i)"

definition byHost :: "go_env \<Rightarrow> route list \<Rightarrow> (string \<times> nat list) list" where
  "byHost env routes =
     fold (\<lambda>(i, r) m. fold (\<lambda>h m. byHost_add m h i) (route_hosts env r) m) (enumerate 0 routes) []"

definition catch_all_unions :: "go_env \<Rightarrow> route list \<Rightarrow> (nat \<times> nat) list" where
  "catch_all_unions env routes =
     concat (map (\<lambda>(i, r). if route_hosts env r = [] then map (Pair i) [0..<length routes] else [])
       (enumerate 0 routes))"

definition same_host_unions :: "(string \<times> nat list) list \<Rightarrow> (nat \<times> nat) list" where
  "same_host_unions m = concat (map (\<lambda>(h, idxs). map (Pair (hd idxs)) (tl idxs)) m)"

fun overlap_unions :: "go_env \<Rightarrow> (string \<times> nat list) list \<Rightarrow> (nat \<times> nat) list" where
  "overlap_unions env [] = []"
| "overlap_unions env ((h, is) # m) =
     map (\<lambda>(k, js). (hd is, hd js)) (filter (\<lambda>(k, js). HostsOverlap (idna_ToASCII env) h k) m)
     @ overlap_unions env m"

definition write_slots :: "nat list \<Rightarrow> nat list \<Rightarrow> nat list \<Rightarrow> nat list" where
  "write_slots order slots members = fold (\<lambda>(slot, m) o'. o'[slot := m]) (zip slots members) order"

definition place_group :: "go_env \<Rightarrow> route list \<Rightarrow> nat list \<Rightarrow> nat \<Rightarrow> nat list \<Rightarrow> nat list" where
  "place_group env routes roots root order =
     (let slots = filter (\<lambda>i. roots ! i = root) [0..<length routes] in
      if length slots < 2 then order
      else write_slots order slots (sort_key (\<lambda>i. emission_key env (routes ! i)) slots))"

definition EmissionOrder ::
  "((string \<times> nat list) list \<Rightarrow> (string \<times> nat list) list) \<Rightarrow> (nat list \<Rightarrow> nat list) \<Rightarrow>
   go_env \<Rightarrow> route list \<Rightarrow> nat list option" where
  "EmissionOrder host_perm group_perm env routes =
     (let n = length routes in
      if n < 2 then Some [0..<n]
      else do {
        let m = byHost env routes;
        p \<leftarrow> unions_with uf_union [0..<n] (catch_all_unions env routes);
        p \<leftarrow> unions_with uf_union p (same_host_unions (host_perm m));
        p \<leftarrow> unions_with uf_union p (overlap_unions env m);
        roots \<leftarrow> finds_with uf_find p [0..<n];
        Some (fold (place_group env routes roots) (group_perm (remdups roots)) [0..<n])
      })"

definition SortRoutesForEmission ::
  "((string \<times> nat list) list \<Rightarrow> (string \<times> nat list) list) \<Rightarrow> (nat list \<Rightarrow> nat list) \<Rightarrow>
   go_env \<Rightarrow> route list \<Rightarrow> route list option" where
  "SortRoutesForEmission host_perm group_perm env routes =
     map_option (map (\<lambda>i. routes ! i)) (EmissionOrder host_perm group_perm env routes)"

section \<open>The map of hosts\<close>

definition in_byHost :: "(string \<times> nat list) list \<Rightarrow> string \<Rightarrow> nat \<Rightarrow> bool" where
  "in_byHost m h i \<longleftrightarrow> (\<exists>is. (h, is) \<in> set m \<and> i \<in> set is)"

lemma in_byHost_add: "in_byHost (byHost_add m h i) k j \<longleftrightarrow> in_byHost m k j \<or> (k = h \<and> j = i)"
proof (induction m h i rule: byHost_add.induct)
  case (2 k' ixs m h i)
  then show ?case by (cases "k' = h") (auto simp: in_byHost_def)
qed (auto simp: in_byHost_def)

lemma byHost_add_keys: "fst ` set (byHost_add m h i) = insert h (fst ` set m)"
  by (induction m h i rule: byHost_add.induct) auto

lemma byHost_add_wf:
  "distinct (map fst m) \<and> (\<forall>(h, is) \<in> set m. is \<noteq> []) \<Longrightarrow>
   distinct (map fst (byHost_add m h i)) \<and> (\<forall>(h, is) \<in> set (byHost_add m h i). is \<noteq> [])"
proof (induction m h i rule: byHost_add.induct)
  case (2 k' ixs m h i)
  then show ?case using byHost_add_keys [of m h i] by (auto simp: image_iff)
qed auto

lemma byHost_fold:
  fixes m :: "(string \<times> nat list) list"
  shows "in_byHost (fold (\<lambda>h m. byHost_add m h i) hs m) k j \<longleftrightarrow> in_byHost m k j \<or> (k \<in> set hs \<and> j = i)"
    and "distinct (map fst m) \<and> (\<forall>(h, is) \<in> set m. is \<noteq> []) \<Longrightarrow>
      distinct (map fst (fold (\<lambda>h m. byHost_add m h i) hs m)) \<and>
      (\<forall>(h, is) \<in> set (fold (\<lambda>h m. byHost_add m h i) hs m). is \<noteq> [])"
proof -
  show "in_byHost (fold (\<lambda>h m. byHost_add m h i) hs m) k j \<longleftrightarrow> in_byHost m k j \<or> (k \<in> set hs \<and> j = i)"
    by (induction hs arbitrary: m) (auto simp: in_byHost_add)
  show "distinct (map fst m) \<and> (\<forall>(h, is) \<in> set m. is \<noteq> []) \<Longrightarrow>
      distinct (map fst (fold (\<lambda>h m. byHost_add m h i) hs m)) \<and>
      (\<forall>(h, is) \<in> set (fold (\<lambda>h m. byHost_add m h i) hs m). is \<noteq> [])"
  proof (induction hs arbitrary: m)
    case (Cons h hs)
    show ?case using Cons.IH [OF byHost_add_wf [OF Cons.prems]] by simp
  qed simp
qed

lemma byHost_enumerate:
  fixes m :: "(string \<times> nat list) list"
  shows "in_byHost (fold (\<lambda>(i, r) m. fold (\<lambda>h m. byHost_add m h i) (route_hosts env r) m) (enumerate s rs) m) k j
     \<longleftrightarrow> in_byHost m k j \<or> (s \<le> j \<and> j < s + length rs \<and> k \<in> set (route_hosts env (rs ! (j - s))))"
proof (induction rs arbitrary: s m)
  case (Cons r rs)
  have "(j = s \<and> k \<in> set (route_hosts env r)) \<or>
      (Suc s \<le> j \<and> j < Suc s + length rs \<and> k \<in> set (route_hosts env (rs ! (j - Suc s)))) \<longleftrightarrow>
      (s \<le> j \<and> j < s + length (r # rs) \<and> k \<in> set (route_hosts env ((r # rs) ! (j - s))))"
    by (cases "j = s") (auto simp: nth_Cons' Suc_diff_Suc le_less)
  then show ?case using Cons.IH by (auto simp: byHost_fold(1))
qed auto

lemma in_byHost_iff:
  "in_byHost (byHost env routes) h i \<longleftrightarrow> i < length routes \<and> h \<in> set (route_hosts env (routes ! i))"
  unfolding byHost_def byHost_enumerate by (auto simp: in_byHost_def)

lemma byHost_wf: "distinct (map fst (byHost env routes))" "(h, is) \<in> set (byHost env routes) \<Longrightarrow> is \<noteq> []"
proof -
  have "distinct (map fst m) \<and> (\<forall>(h, is) \<in> set m. is \<noteq> []) \<Longrightarrow>
      distinct (map fst (fold (\<lambda>(i, r) m. fold (\<lambda>h m. byHost_add m h i) (route_hosts env r) m) xs m)) \<and>
      (\<forall>(h, is) \<in> set (fold (\<lambda>(i, r) m. fold (\<lambda>h m. byHost_add m h i) (route_hosts env r) m) xs m). is \<noteq> [])"
    for xs and m :: "(string \<times> nat list) list"
  proof (induction xs arbitrary: m)
    case (Cons x xs)
    obtain i r where x: "x = (i, r)" by (cases x)
    show ?case using Cons.IH [OF byHost_fold(2) [OF Cons.prems]] by (simp add: x)
  qed simp
  from this [of "[]" "enumerate 0 routes"] show "distinct (map fst (byHost env routes))"
    "(h, is) \<in> set (byHost env routes) \<Longrightarrow> is \<noteq> []" by (auto simp: byHost_def)
qed

section \<open>The partition\<close>

definition hosts_overlap :: "go_env \<Rightarrow> route list \<Rightarrow> nat \<Rightarrow> nat \<Rightarrow> bool" where
  "hosts_overlap env routes i j \<longleftrightarrow>
     HostSetsOverlap (idna_ToASCII env) (route_hosts env (routes ! i)) (route_hosts env (routes ! j))"

text \<open>Routes that must be ordered together: a chain of overlapping host sets joins them.\<close>

definition linked :: "go_env \<Rightarrow> route list \<Rightarrow> nat \<Rightarrow> nat \<Rightarrow> bool" where
  "linked env routes i j \<longleftrightarrow>
     (i, j) \<in> {(a, b). a < length routes \<and> b < length routes \<and> hosts_overlap env routes a b}\<^sup>*"

lemma hostPatternsIntersect_refl: "hostPatternsIntersect a a"
  unfolding hostPatternsIntersect_labels by (rule list_all2_refl) simp

lemma HostsOverlap_refl: "HostsOverlap idna a a"
  by (simp add: HostsOverlap_def hostPatternsIntersect_refl)

lemma HostSetsOverlap_sym: "HostSetsOverlap idna as bs = HostSetsOverlap idna bs as"
  unfolding HostSetsOverlap_def list_ex_iff using HostsOverlap_sym by metis

lemma HostSetsOverlap_member: "x \<in> set as \<Longrightarrow> y \<in> set bs \<Longrightarrow> HostsOverlap idna x y \<Longrightarrow> HostSetsOverlap idna as bs"
  by (auto simp: HostSetsOverlap_def list_ex_iff)

lemma overlap_unions_sound:
  "(a, b) \<in> set (overlap_unions env m) \<Longrightarrow>
   \<exists>h is k js. (h, is) \<in> set m \<and> (k, js) \<in> set m \<and> HostsOverlap (idna_ToASCII env) h k \<and> a = hd is \<and> b = hd js"
  by (induction env m rule: overlap_unions.induct) (auto; blast)+

lemma overlap_unions_complete:
  "(h, is) \<in> set m \<Longrightarrow> (k, js) \<in> set m \<Longrightarrow> (h, is) \<noteq> (k, js) \<Longrightarrow> HostsOverlap (idna_ToASCII env) h k \<Longrightarrow>
   (hd is, hd js) \<in> set (overlap_unions env m) \<or> (hd js, hd is) \<in> set (overlap_unions env m)"
proof (induction env m rule: overlap_unions.induct)
  case (2 env h' ixs m)
  then show ?case using HostsOverlap_sym [of "idna_ToASCII env" h k] by (auto simp: image_iff split_beta)
qed simp

lemma catch_all_unions_iff:
  "(a, b) \<in> set (catch_all_unions env routes) \<longleftrightarrow>
     a < length routes \<and> b < length routes \<and> route_hosts env (routes ! a) = []"
proof
  assume "a < length routes \<and> b < length routes \<and> route_hosts env (routes ! a) = []"
  then have "(a, routes ! a) \<in> set (enumerate 0 routes)" "(a, b) \<in> Pair a ` {0..<length routes}"
    "route_hosts env (routes ! a) = []" by (auto simp: in_set_enumerate_eq)
  then show "(a, b) \<in> set (catch_all_unions env routes)" by (fastforce simp: catch_all_unions_def)
qed (auto simp: catch_all_unions_def in_set_enumerate_eq split: if_split_asm)

lemma same_host_unions_iff:
  "(a, b) \<in> set (same_host_unions m) \<longleftrightarrow> (\<exists>h is. (h, is) \<in> set m \<and> a = hd is \<and> b \<in> set (tl is))"
  by (auto simp: same_host_unions_def)

definition all_unions :: "go_env \<Rightarrow> route list \<Rightarrow> (string \<times> nat list) list \<Rightarrow> (nat \<times> nat) list" where
  "all_unions env routes m' =
     catch_all_unions env routes @ same_host_unions m' @ overlap_unions env (byHost env routes)"

text \<open>Every union joins routes whose hosts overlap.\<close>

lemma all_unions_sound:
  assumes "set m' = set (byHost env routes)" "(a, b) \<in> set (all_unions env routes m')"
  shows "a < length routes \<and> b < length routes \<and> hosts_overlap env routes a b"
proof -
  let ?m = "byHost env routes"
  have mem: "i < length routes" "h \<in> set (route_hosts env (routes ! i))" if "(h, is) \<in> set ?m" "i \<in> set is" for h "is" i
    using in_byHost_iff [of env routes h i] that by (auto simp: in_byHost_def)
  have ov: "hosts_overlap env routes i j"
    if "h \<in> set (route_hosts env (routes ! i))" "k \<in> set (route_hosts env (routes ! j))"
      "HostsOverlap (idna_ToASCII env) h k" for h k i j
    using HostSetsOverlap_member that by (auto simp: hosts_overlap_def)
  from assms(2) consider (c) "(a, b) \<in> set (catch_all_unions env routes)"
    | (s) "(a, b) \<in> set (same_host_unions m')" | (o') "(a, b) \<in> set (overlap_unions env ?m)"
    by (auto simp: all_unions_def)
  then show ?thesis
  proof cases
    case c
    then show ?thesis
      by (auto simp: catch_all_unions_iff hosts_overlap_def HostSetsOverlap_def hostSetIsCatchAll_def)
  next
    case s
    then obtain h "is" where h: "(h, is) \<in> set ?m" "a = hd is" "b \<in> set (tl is)"
      using assms(1) by (auto simp: same_host_unions_iff)
    then have ab: "a \<in> set is" "b \<in> set is" using byHost_wf(2) [OF h(1)] by (simp_all add: list.set_sel)
    show ?thesis using mem [OF h(1) ab(1)] mem [OF h(1) ab(2)] ov [OF _ _ HostsOverlap_refl] by simp
  next
    case o'
    then obtain h "is" k js where h: "(h, is) \<in> set ?m" "(k, js) \<in> set ?m"
      "HostsOverlap (idna_ToASCII env) h k" "a = hd is" "b = hd js"
      using overlap_unions_sound by blast
    then have ab: "a \<in> set is" "b \<in> set js" using byHost_wf(2) by auto
    show ?thesis using mem [OF h(1) ab(1)] mem [OF h(2) ab(2)] ov [OF _ _ h(3)] by simp
  qed
qed

text \<open>Any equivalence on the indices that holds the unions holds every overlapping pair.\<close>

lemma all_unions_complete:
  assumes m': "set m' = set (byHost env routes)"
    and R: "sym R" "trans R" "\<forall>i < length routes. (i, i) \<in> R" "set (all_unions env routes m') \<subseteq> R"
    and ij: "i < length routes" "j < length routes" "hosts_overlap env routes i j"
  shows "(i, j) \<in> R"
proof -
  let ?m = "byHost env routes"
  have head: "(hd is, i) \<in> R" if "(h, is) \<in> set ?m" "i \<in> set is" "i < length routes" for h "is" i
  proof (cases "i = hd is")
    case False
    with that(2) have "i \<in> set (tl is)" by (cases "is") auto
    with that(1) m' have "(hd is, i) \<in> set (all_unions env routes m')"
      by (auto simp: all_unions_def same_host_unions_iff)
    with R(4) show ?thesis by blast
  qed (use that R(3) in simp)
  have host: "(a, b) \<in> R" if "a < length routes" "b < length routes"
      "h \<in> set (route_hosts env (routes ! a))" "k \<in> set (route_hosts env (routes ! b))"
      "HostsOverlap (idna_ToASCII env) h k" for a b h k
  proof -
    note asm = that
    obtain ia where ia: "(h, ia) \<in> set ?m" "a \<in> set ia"
      using asm(1,3) in_byHost_iff [of env routes h a] by (auto simp: in_byHost_def)
    obtain ib where ib: "(k, ib) \<in> set ?m" "b \<in> set ib"
      using asm(2,4) in_byHost_iff [of env routes k b] by (auto simp: in_byHost_def)
    have "(hd ia, hd ib) \<in> R"
    proof (cases "(h, ia) = (k, ib)")
      case True
      then show ?thesis using head [OF ia asm(1)] R(1,2) by (metis Pair_inject symD transD)
    next
      case False
      from overlap_unions_complete [OF ia(1) ib(1) False asm(5)] R(4) show ?thesis
        using R(1) by (auto simp: all_unions_def dest: symD)
    qed
    then show ?thesis using head [OF ia asm(1)] head [OF ib asm(2)] R(1,2) by (metis symD transD)
  qed
  have empty: "(a, b) \<in> R" if "route_hosts env (routes ! a) = []" "a < length routes" "b < length routes" for a b
    using that R(4) catch_all_unions_iff [of a b env routes] by (auto simp: all_unions_def)
  show ?thesis
  proof (cases "route_hosts env (routes ! i) = [] \<or> route_hosts env (routes ! j) = []")
    case True
    then show ?thesis using empty ij(1,2) R(1) by (metis symD)
  next
    case False
    have "\<exists>h \<in> set (route_hosts env (routes ! i)). \<exists>k \<in> set (route_hosts env (routes ! j)). HostsOverlap (idna_ToASCII env) h k"
    proof (cases "hostSetIsCatchAll (idna_ToASCII env) (route_hosts env (routes ! i)) \<or>
        hostSetIsCatchAll (idna_ToASCII env) (route_hosts env (routes ! j))")
      case True
      then have "HostsOverlap (idna_ToASCII env) (hd (route_hosts env (routes ! i))) (hd (route_hosts env (routes ! j)))"
        using False by (auto simp: hostSetIsCatchAll_def list_all_iff HostsOverlap_def)
      then show ?thesis using False by (meson hd_in_set)
    next
      case False
      then show ?thesis using ij(3) by (auto simp: hosts_overlap_def HostSetsOverlap_def list_ex_iff)
    qed
    then show ?thesis using host ij(1,2) by blast
  qed
qed

lemma linked_equiv: "equiv UNIV {(i, j). linked env routes i j}"
proof -
  let ?r = "{(a, b). a < length routes \<and> b < length routes \<and> hosts_overlap env routes a b}"
  have "sym ?r" using HostSetsOverlap_sym by (auto simp: sym_def hosts_overlap_def)
  then have "sym (?r\<^sup>*)" by (rule sym_rtrancl)
  moreover have "{(i, j). linked env routes i j} = ?r\<^sup>*" by (auto simp: linked_def)
  ultimately show ?thesis using refl_rtrancl trans_rtrancl by (auto simp: equiv_def)
qed

lemma unions_with_append:
  "unions_with u p (xs @ ys) = Option.bind (unions_with u p xs) (\<lambda>p. unions_with u p ys)"
  by (induction xs arbitrary: p) (auto split: Option.bind_splits)

text \<open>The forest after the unions: two routes have one root exactly when they are linked.\<close>

lemma unions_linked:
  assumes "set m' = set (byHost env routes)"
  defines "n \<equiv> length routes"
  shows "\<exists>p. unions_with uf_union [0..<n] (all_unions env routes m') = Some p \<and> uf_invar n p \<and>
    (\<forall>i < n. \<forall>j < n. uf_rep p i = uf_rep p j \<longleftrightarrow> linked env routes i j)"
proof -
  let ?us = "all_unions env routes m'"
  have bound: "\<forall>(a, b) \<in> set ?us. a < n \<and> b < n" using all_unions_sound [OF assms(1)] n_def by blast
  obtain p where p: "unions_with uf_union [0..<n] ?us = Some p" "uf_invar n p" "set ?us \<subseteq> uf.same n p"
    and least: "\<And>E. equiv UNIV E \<Longrightarrow> uf.same n [0..<n] \<subseteq> E \<Longrightarrow> set ?us \<subseteq> E \<Longrightarrow> uf.same n p \<subseteq> E"
    using uf.unions_same [OF uf_init bound] by blast
  have "uf.same n p \<subseteq> {(i, j). linked env routes i j}"
  proof (rule least [OF linked_equiv])
    show "uf.same n [0..<n] \<subseteq> {(i, j). linked env routes i j}"
      by (auto simp: uf.same_def uf_rep_init linked_def)
    show "set ?us \<subseteq> {(i, j). linked env routes i j}"
      using all_unions_sound [OF assms(1)] by (auto simp: linked_def)
  qed
  then have 1: "linked env routes i j" if "i < n" "j < n" "uf_rep p i = uf_rep p j" for i j
    using that by (auto simp: uf.same_def)
  have R: "sym (uf.same n p)" "trans (uf.same n p)" "\<forall>i < length routes. (i, i) \<in> uf.same n p"
    by (auto simp: uf.same_def sym_def trans_def n_def)
  have "(i, j) \<in> uf.same n p" if "linked env routes i j" "i < n" for i j
    using that unfolding linked_def
  proof (induction rule: rtrancl_induct)
    case base
    then show ?case using R(3) n_def by simp
  next
    case (step y z)
    then have "(y, z) \<in> uf.same n p" using all_unions_complete [OF assms(1) R p(3)] by simp
    then show ?case using step R(2) by (meson transD)
  qed
  then have 2: "uf_rep p i = uf_rep p j" if "i < n" "linked env routes i j" for i j
    using that by (auto simp: uf.same_def)
  show ?thesis using p(1,2) 1 2 by blast
qed

section \<open>The slots\<close>

text \<open>What ends up in slot \<open>i\<close>: the slots of its group, sorted, at the place \<open>i\<close> has among them.\<close>

definition emission_target :: "go_env \<Rightarrow> route list \<Rightarrow> (nat \<Rightarrow> nat \<Rightarrow> bool) \<Rightarrow> nat \<Rightarrow> nat" where
  "emission_target env routes L i =
     sort_key (\<lambda>i. emission_key env (routes ! i)) (filter (L i) [0..<length routes]) ! length (filter (L i) [0..<i])"

lemma filter_upt_nth:
  assumes "i < n" "P i"
  shows "filter P [0..<n] ! length (filter P [0..<i]) = i" "length (filter P [0..<i]) < length (filter P [0..<n])"
proof -
  have "[0..<n] = [0..<i] @ i # [Suc i..<n]"
    using upt_add_eq_append [of 0 i "n - i"] upt_conv_Cons [OF assms(1)] assms(1) by simp
  then show "filter P [0..<n] ! length (filter P [0..<i]) = i"
    "length (filter P [0..<i]) < length (filter P [0..<n])"
    using assms(2) by (simp_all add: nth_append)
qed

lemma length_write_slots [simp]: "length (write_slots order slots members) = length order"
proof -
  have "length (fold (\<lambda>(slot, m) o'. o'[slot := m]) xs order) = length order" for xs and order :: "nat list"
    by (induction xs arbitrary: order) auto
  then show ?thesis by (simp add: write_slots_def)
qed

lemma write_slots_nth:
  "distinct slots \<Longrightarrow> length members = length slots \<Longrightarrow> \<forall>s \<in> set slots. s < length order \<Longrightarrow>
   (\<forall>s. s \<notin> set slots \<longrightarrow> write_slots order slots members ! s = order ! s) \<and>
   (\<forall>k < length slots. write_slots order slots members ! (slots ! k) = members ! k)"
proof (induction slots arbitrary: order members)
  case (Cons s slots)
  then obtain m ms where ms: "members = m # ms" by (cases members) auto
  have IH: "(\<forall>x. x \<notin> set slots \<longrightarrow> write_slots (order[s := m]) slots ms ! x = order[s := m] ! x) \<and>
    (\<forall>k < length slots. write_slots (order[s := m]) slots ms ! (slots ! k) = ms ! k)"
    using Cons ms by simp
  have "write_slots order (s # slots) members = write_slots (order[s := m]) slots ms"
    by (simp add: write_slots_def ms)
  then show ?case using IH Cons.prems ms by (auto simp: nth_Cons' less_Suc_eq_0_disj)
qed (simp add: write_slots_def)

lemma place_group_length [simp]: "length (place_group env routes roots root order) = length order"
  by (simp add: place_group_def Let_def)

lemma place_group_nth:
  assumes "length order = length routes" "s < length routes" "roots ! s = root \<Longrightarrow> order ! s = s"
  shows "place_group env routes roots root order ! s =
    (if roots ! s = root then emission_target env routes (\<lambda>i j. roots ! i = roots ! j) s else order ! s)"
proof -
  define slots where "slots = filter (\<lambda>i. roots ! i = root) [0..<length routes]"
  define ms where "ms = sort_key (\<lambda>i. emission_key env (routes ! i)) slots"
  have pg: "place_group env routes roots root order = (if length slots < 2 then order else write_slots order slots ms)"
    by (simp add: place_group_def slots_def ms_def Let_def)
  have "distinct slots" "length ms = length slots" "\<forall>s \<in> set slots. s < length order"
    using assms(1) by (auto simp: slots_def ms_def)
  from write_slots_nth [OF this]
  have out: "s \<notin> set slots \<Longrightarrow> write_slots order slots ms ! s = order ! s"
    and at: "\<And>k. k < length slots \<Longrightarrow> write_slots order slots ms ! (slots ! k) = ms ! k" by blast+
  show ?thesis
  proof (cases "roots ! s = root")
    case False
    then have "s \<notin> set slots" by (simp add: slots_def)
    then show ?thesis using False out pg by simp
  next
    case True
    define k where "k = length (filter (\<lambda>i. roots ! i = root) [0..<s])"
    have k: "slots ! k = s" "k < length slots"
      using filter_upt_nth [OF assms(2), of "\<lambda>i. roots ! i = root"] True by (simp_all add: k_def slots_def)
    have eqs: "(\<lambda>j. root = roots ! j) = (\<lambda>j. roots ! j = root)" by (auto simp: fun_eq_iff)
    have t: "emission_target env routes (\<lambda>i j. roots ! i = roots ! j) s = ms ! k"
      unfolding emission_target_def True eqs k_def ms_def slots_def ..
    show ?thesis
    proof (cases "length slots < 2")
      case short: True
      with k(2) have k0: "k = 0" "length slots = 1" by linarith+
      then have "slots = [s]" using k(1) by (cases slots) auto
      then have "ms ! k = s" using k0 by (simp add: ms_def)
      then show ?thesis using short t assms(3) True pg by simp
    next
      case False
      then show ?thesis using at [OF k(2)] k(1) t True pg by simp
    qed
  qed
qed

lemma fold_place_groups:
  assumes "distinct gs" "length order = length routes"
    and "\<forall>s < length routes. roots ! s \<in> set gs \<longrightarrow> order ! s = s"
  shows "length (fold (place_group env routes roots) gs order) = length routes \<and>
    (\<forall>s < length routes. fold (place_group env routes roots) gs order ! s =
       (if roots ! s \<in> set gs then emission_target env routes (\<lambda>i j. roots ! i = roots ! j) s else order ! s))"
  using assms
proof (induction gs arbitrary: order)
  case (Cons g gs)
  let ?o = "place_group env routes roots g order"
  have o': "?o ! s = (if roots ! s = g then emission_target env routes (\<lambda>i j. roots ! i = roots ! j) s else order ! s)"
    if "s < length routes" for s
    using place_group_nth [OF Cons.prems(2) that] Cons.prems(3) that by simp
  have "\<forall>s < length routes. roots ! s \<in> set gs \<longrightarrow> ?o ! s = s"
    using o' Cons.prems by auto
  from Cons.IH [OF _ _ this] show ?case using o' Cons.prems by auto
qed simp

lemma emission_target_cong:
  assumes "\<And>j. j < length routes \<Longrightarrow> L i j = M i j" "i < length routes"
  shows "emission_target env routes L i = emission_target env routes M i"
proof -
  have "filter (L i) [0..<length routes] = filter (M i) [0..<length routes]"
    "filter (L i) [0..<i] = filter (M i) [0..<i]"
    using assms by (auto intro: filter_cong)
  then show ?thesis by (simp add: emission_target_def)
qed

text \<open>The order in closed form: it does not depend on the order of the map iterations.\<close>

lemma EmissionOrder_eq:
  assumes "\<And>m. mset (host_perm m) = mset m" "\<And>g. mset (group_perm g) = mset g"
  shows "EmissionOrder host_perm group_perm env routes =
    Some (map (emission_target env routes (linked env routes)) [0..<length routes])"
proof (cases "length routes < 2")
  case True
  then have "length routes = 0 \<or> length routes = 1" by linarith
  moreover have "linked env routes 0 0" by (simp add: linked_def)
  ultimately show ?thesis by (auto simp: EmissionOrder_def emission_target_def)
next
  case False
  let ?n = "length routes" and ?m = "byHost env routes"
  have "set (host_perm ?m) = set ?m" using assms(1) by (metis mset_eq_setD)
  from unions_linked [OF this] obtain p where p:
      "unions_with uf_union [0..<?n] (all_unions env routes (host_perm ?m)) = Some p" "uf_invar ?n p"
      "\<forall>i < ?n. \<forall>j < ?n. uf_rep p i = uf_rep p j \<longleftrightarrow> linked env routes i j" by blast
  define roots where "roots = map (uf_rep p) [0..<?n]"
  have finds: "finds_with uf_find p [0..<?n] = Some roots"
    using uf.finds_spec [OF p(2)] by (simp add: roots_def)
  have run: "EmissionOrder host_perm group_perm env routes =
      Some (fold (place_group env routes roots) (group_perm (remdups roots)) [0..<?n])"
    using p(1) finds False
    by (auto simp: EmissionOrder_def Let_def all_unions_def unions_with_append split: Option.bind_splits)
  have g: "distinct (group_perm (remdups roots))" "set (group_perm (remdups roots)) = set roots"
    using assms(2) by (metis distinct_remdups mset_eq_imp_distinct_iff, metis mset_eq_setD set_remdups)
  have "emission_target env routes (\<lambda>i j. roots ! i = roots ! j) s = emission_target env routes (linked env routes) s"
    if "s < ?n" for s
    using that p(3) by (intro emission_target_cong) (auto simp: roots_def)
  moreover have "roots ! s \<in> set roots" if "s < ?n" for s using that by (simp add: roots_def)
  ultimately have "fold (place_group env routes roots) (group_perm (remdups roots)) [0..<?n] =
      map (emission_target env routes (linked env routes)) [0..<?n]"
    using fold_place_groups [OF g(1), of "[0..<?n]" routes roots env] g(2)
    by (intro nth_equalityI) simp_all
  then show ?thesis using run by simp
qed

section \<open>The order sorts every group\<close>

lemma linked_rel:
  "linked env routes i i" "linked env routes i j \<Longrightarrow> linked env routes j i"
  "linked env routes i j \<Longrightarrow> linked env routes j k \<Longrightarrow> linked env routes i k"
  using linked_equiv [of env routes] unfolding equiv_def refl_on_def sym_def trans_def by blast+

lemma emission_target_linked:
  assumes "i < length routes"
  shows "emission_target env routes (linked env routes) i < length routes \<and>
    linked env routes i (emission_target env routes (linked env routes) i)"
proof -
  let ?c = "filter (linked env routes i) [0..<length routes]"
  have "emission_target env routes (linked env routes) i \<in> set (sort_key (\<lambda>i. emission_key env (routes ! i)) ?c)"
    unfolding emission_target_def
    using filter_upt_nth(2) [OF assms, of "linked env routes i"] linked_rel(1) by (intro nth_mem) simp
  then show ?thesis by (simp only: set_sort set_filter set_upt mem_Collect_eq atLeastLessThan_iff)
qed

text \<open>Slots of one group read one sorted list, at increasing places.\<close>

lemma emission_target_group:
  assumes "i < j" "j < length routes" "linked env routes i j"
  obtains c k l where "c = filter (linked env routes i) [0..<length routes]" "k < l" "l < length c"
    "emission_target env routes (linked env routes) i = sort_key (\<lambda>i. emission_key env (routes ! i)) c ! k"
    "emission_target env routes (linked env routes) j = sort_key (\<lambda>i. emission_key env (routes ! i)) c ! l"
proof -
  have same: "linked env routes j = linked env routes i"
    using linked_rel(3) [OF assms(3)] linked_rel(3) [OF linked_rel(2) [OF assms(3)]] by (auto simp: fun_eq_iff)
  let ?c = "filter (linked env routes i) [0..<length routes]"
  have "[0..<j] = [0..<i] @ i # [Suc i..<j]"
    using upt_add_eq_append [of 0 i "j - i"] upt_conv_Cons [OF assms(1)] assms(1) by simp
  then have "length (filter (linked env routes i) [0..<i]) < length (filter (linked env routes i) [0..<j])"
    using linked_rel(1) by simp
  moreover have "length (filter (linked env routes i) [0..<j]) < length ?c"
    using filter_upt_nth(2) [OF assms(2), of "linked env routes i"] assms(3) by simp
  ultimately show thesis using that [OF refl] by (simp add: emission_target_def same)
qed

lemma sorted_wrt_filter_nth:
  "sorted_wrt P (filter Q ys) \<Longrightarrow> i < j \<Longrightarrow> j < length ys \<Longrightarrow> Q (ys ! i) \<Longrightarrow> Q (ys ! j) \<Longrightarrow> P (ys ! i) (ys ! j)"
proof (induction ys arbitrary: i j)
  case (Cons y ys)
  then obtain j' where j': "j = Suc j'" "j' < length ys" by (cases j) auto
  then show ?case
    using Cons by (cases i) (auto split: if_split_asm simp: in_set_conv_nth)
qed simp

lemma sort_key_stable_nth:
  fixes f :: "nat \<Rightarrow> 'a::linorder"
  assumes "sorted_wrt (<) xs" "i < j" "j < length xs"
  shows "f (sort_key f xs ! i) \<le> f (sort_key f xs ! j) \<and>
    (f (sort_key f xs ! i) = f (sort_key f xs ! j) \<longrightarrow> sort_key f xs ! i < sort_key f xs ! j)"
proof -
  let ?ys = "sort_key f xs"
  have "sorted (map f ?ys)" by simp
  then have le: "f (?ys ! i) \<le> f (?ys ! j)"
    using assms sorted_nth_mono [of "map f ?ys" i j] by simp
  have "sorted_wrt (<) (filter (\<lambda>y. f y = f (?ys ! j)) ?ys)"
    using assms(1) by (simp add: sort_key_stable sorted_wrt_filter)
  from sorted_wrt_filter_nth [OF this assms(2)] assms(3)
  have "?ys ! i < ?ys ! j" if "f (?ys ! i) = f (?ys ! j)" using that by simp
  with le show ?thesis by blast
qed

lemma lex_lessI: "a \<le> b \<and> (a = b \<longrightarrow> x < y) \<Longrightarrow> (a, x) < (b, y)"
  for a b :: "'a::linorder" and x y :: "'b::linorder"
  by (auto simp: less_prod_simp)

lemma emission_target_sorted:
  assumes "i < j" "j < length routes" "linked env routes i j"
  defines "t \<equiv> emission_target env routes (linked env routes)"
  shows "(emission_key env (routes ! t i), t i) < (emission_key env (routes ! t j), t j)"
proof -
  obtain c k l where c: "c = filter (linked env routes i) [0..<length routes]" "k < l" "l < length c"
    and t: "t i = sort_key (\<lambda>i. emission_key env (routes ! i)) c ! k"
      "t j = sort_key (\<lambda>i. emission_key env (routes ! i)) c ! l"
    using emission_target_group [OF assms(1-3)] unfolding t_def by metis
  have "sorted_wrt (<) c" unfolding c(1) by (rule sorted_wrt_filter) simp
  from sort_key_stable_nth [OF this c(2,3), of "\<lambda>i. emission_key env (routes ! i)"]
  show ?thesis unfolding t by (rule lex_lessI)
qed

lemma emission_target_inj: "inj_on (emission_target env routes (linked env routes)) {..<length routes}"
proof (rule linorder_inj_onI)
  fix i j assume ij: "i < j" "i \<in> {..<length routes}" "j \<in> {..<length routes}"
  let ?t = "emission_target env routes (linked env routes)"
  show "?t i \<noteq> ?t j"
  proof
    assume eq: "?t i = ?t j"
    have "linked env routes i (?t j)" "linked env routes j (?t j)"
      using emission_target_linked [of i routes env] emission_target_linked [of j routes env] ij eq by simp_all
    then have "linked env routes i j" using linked_rel(3) [OF _ linked_rel(2)] by blast
    from emission_target_sorted [OF ij(1) _ this] ij(3) eq show False by simp
  qed
qed (auto simp: linorder_class.less_linear)

lemma emission_target_alone:
  assumes "i < length routes" "\<forall>j < length routes. j \<noteq> i \<longrightarrow> \<not> hosts_overlap env routes i j"
  shows "emission_target env routes (linked env routes) i = i"
proof -
  have "j = i" if "linked env routes i j" for j
    using that unfolding linked_def by (induction rule: rtrancl_induct) (use assms in auto)
  then have "linked env routes i = (\<lambda>j. j = i)" using linked_rel(1) by (auto simp: fun_eq_iff)
  moreover have "filter (\<lambda>j. j = i) [0..<n] = (if i < n then [i] else [])" for n by (induction n) auto
  ultimately show ?thesis using assms(1) by (simp add: emission_target_def)
qed

lemma hosts_overlap_linked:
  "hosts_overlap env routes i j \<Longrightarrow> i < length routes \<Longrightarrow> j < length routes \<Longrightarrow> linked env routes i j"
  by (auto simp: linked_def)

lemma emission_target_mset:
  "mset (map (emission_target env routes (linked env routes)) [0..<length routes]) = mset [0..<length routes]"
proof -
  let ?t = "emission_target env routes (linked env routes)" and ?n = "length routes"
  have "distinct (map ?t [0..<?n])" using emission_target_inj by (simp add: distinct_map atLeast0LessThan)
  moreover have "set (map ?t [0..<?n]) = {0..<?n}"
  proof (rule card_subset_eq)
    show "set (map ?t [0..<?n]) \<subseteq> {0..<?n}" using emission_target_linked by auto
    show "card (set (map ?t [0..<?n])) = card {0..<?n}"
      using emission_target_inj [of env routes] by (simp add: card_image atLeast0LessThan)
  qed simp
  ultimately show ?thesis by (metis distinct_upt set_eq_iff_mset_eq_distinct set_upt)
qed

text \<open>\<open>SortRoutesForEmission\<close> returns the same routes in another order.\<close>

lemma SortRoutes_mset:
  assumes "\<And>m. mset (host_perm m) = mset m" "\<And>g. mset (group_perm g) = mset g"
  shows "\<exists>rs. SortRoutesForEmission host_perm group_perm env routes = Some rs \<and> mset rs = mset routes"
proof -
  let ?t = "emission_target env routes (linked env routes)" and ?n = "length routes"
  have "SortRoutesForEmission host_perm group_perm env routes = Some (map ((!) routes) (map ?t [0..<?n]))"
    using EmissionOrder_eq [OF assms, of env routes] by (simp add: SortRoutesForEmission_def)
  moreover have "mset (map ((!) routes) (map ?t [0..<?n])) = image_mset ((!) routes) (mset [0..<?n])"
    using emission_target_mset [of env routes] by (simp only: mset_map)
  moreover have "\<dots> = mset routes" by (metis map_nth mset_map)
  ultimately show ?thesis by simp
qed

section \<open>Properties\<close>

text \<open>\<open>EmissionOrder\<close> always returns, and what it returns is a permutation of the route indices:
  every route is emitted exactly once. The result is the same for every order in which the Go
  maps are iterated, so a rebuild of the same routes gives the same configuration.\<close>

theorem EmissionOrder_permutation:
  assumes "\<And>m. mset (host_perm m) = mset m" "\<And>g. mset (group_perm g) = mset g"
  shows "\<exists>order. EmissionOrder host_perm group_perm env routes = Some order \<and>
    mset order = mset [0..<length routes] \<and>
    EmissionOrder (\<lambda>m. m) (\<lambda>g. g) env routes = Some order"
  using EmissionOrder_eq [OF assms, of env routes] EmissionOrder_eq [of "\<lambda>m. m" "\<lambda>g. g" env routes]
    emission_target_mset [of env routes] by simp

text \<open>Parameters and routes for the witnesses.\<close>

definition w_env :: go_env where
  "w_env = \<lparr>regexp_compiles = (\<lambda>_. True), json_decode = (\<lambda>_. None), json_encode = (\<lambda>_. None),
     idna_ToASCII = Some, url_Parse = (\<lambda>_. None)\<rparr>"

definition w_routes :: "route list" where
  "w_routes = [zero_route\<lparr>Hosts := [''a.com'']\<rparr>, zero_route\<lparr>Hosts := [''b.com'']\<rparr>,
     zero_route\<lparr>Hosts := [''A.com''], PathPrefix := ''/api''\<rparr>]"

theorem EmissionOrder_permutation_witness:
  "EmissionOrder rev rev w_env w_routes = Some [2, 1, 0] \<and> mset [2, 1, 0] = mset [0..<length w_routes]"
proof -
  have "EmissionOrder (\<lambda>m. m) (\<lambda>g. g) w_env w_routes = Some [2, 1, 0]" by code_simp
  then show ?thesis using EmissionOrder_permutation [of rev rev w_env w_routes] by simp
qed

text \<open>C2: of two routes whose hosts can match the same request, the one with the longer path prefix
  comes first; between equal prefixes the one without a wildcard host, then the refusing or gated
  one, then the one stored first. A broad route never hides a narrower one, nor an open route its
  guarded twin.\<close>

theorem EmissionOrder_no_shadowing:
  assumes "\<And>m. mset (host_perm m) = mset m" "\<And>g. mset (group_perm g) = mset g"
    and "EmissionOrder host_perm group_perm env routes = Some order"
    and "a < b" "b < length routes" "hosts_overlap env routes (order ! a) (order ! b)"
  shows "let x = routes ! (order ! a); y = routes ! (order ! b) in
    pathSpecificity y < pathSpecificity x \<or> pathSpecificity y = pathSpecificity x \<and>
    (wildcardRank x < wildcardRank y \<or> wildcardRank x = wildcardRank y \<and>
     (denyRank env x < denyRank env y \<or> denyRank env x = denyRank env y \<and> order ! a < order ! b))"
proof -
  let ?t = "emission_target env routes (linked env routes)"
  have o': "order ! i = ?t i" if "i < length routes" for i
    using that EmissionOrder_eq [OF assms(1,2), of env routes] assms(3) by auto
  have ab: "order ! a = ?t a" "order ! b = ?t b" using o' assms(4,5) by auto
  have la: "linked env routes a (?t a)" "linked env routes b (?t b)" "?t a < length routes" "?t b < length routes"
    using emission_target_linked assms(4,5) by simp_all
  then have "linked env routes (?t a) (?t b)" using hosts_overlap_linked assms(6) ab by simp
  from linked_rel(3) [OF linked_rel(3) [OF la(1) this] linked_rel(2) [OF la(2)]]
  have "(emission_key env (routes ! (order ! a)), order ! a) < (emission_key env (routes ! (order ! b)), order ! b)"
    using emission_target_sorted [OF assms(4,5)] ab by simp
  then show ?thesis by (auto simp: emission_key_def Let_def)
qed

theorem EmissionOrder_no_shadowing_witness:
  "EmissionOrder (\<lambda>m. m) (\<lambda>g. g) w_env w_routes = Some [2, 1, 0] \<and>
   pathSpecificity (w_routes ! 0) < pathSpecificity (w_routes ! 2)"
proof -
  have "EmissionOrder (\<lambda>m. m) (\<lambda>g. g) w_env w_routes = Some [2, 1, 0]" by code_simp
  moreover have "hosts_overlap w_env w_routes 2 0" "length w_routes = 3" by code_simp+
  moreover have "pathSpecificity (w_routes ! 0) \<noteq> pathSpecificity (w_routes ! 2)" by code_simp
  ultimately show ?thesis
    using EmissionOrder_no_shadowing [of "\<lambda>m. m" "\<lambda>g. g" w_env w_routes "[2, 1, 0]" 0 2] by (simp add: Let_def)
qed

text \<open>A route whose hosts overlap with no other route keeps its exact slot, so a deployment
  without overlapping hosts is emitted in the stored order.\<close>

theorem EmissionOrder_keeps_slot:
  assumes "\<And>m. mset (host_perm m) = mset m" "\<And>g. mset (group_perm g) = mset g"
    and "i < length routes" "\<forall>j < length routes. j \<noteq> i \<longrightarrow> \<not> hosts_overlap env routes i j"
  shows "\<exists>order. EmissionOrder host_perm group_perm env routes = Some order \<and> order ! i = i"
  using EmissionOrder_eq [OF assms(1,2), of env routes] emission_target_alone [OF assms(3,4)] assms(3) by simp

theorem EmissionOrder_keeps_slot_witness:
  "\<exists>order. EmissionOrder rev rev w_env w_routes = Some order \<and> order ! 1 = 1"
proof (rule EmissionOrder_keeps_slot)
  have n: "length w_routes = 3" by (simp add: w_routes_def)
  then show "1 < length w_routes" by simp
  have "\<not> hosts_overlap w_env w_routes 1 0" "\<not> hosts_overlap w_env w_routes 1 2" by code_simp+
  then show "\<forall>j < length w_routes. j \<noteq> 1 \<longrightarrow> \<not> hosts_overlap w_env w_routes 1 j"
    unfolding n by (auto simp: less_Suc_eq numeral_3_eq_3 numeral_2_eq_2)
qed simp_all

end
