(* ===== verification/Go_Net.thy ===== *)
theory Go_Net
  imports Go_Strings
begin

text \<open>
  The part of Go's package \<open>net\<close> the panel uses to read and write addresses:
  \<open>JoinHostPort\<close>, \<open>SplitHostPort\<close>, \<open>ParseIP\<close> and \<open>ParseCIDR\<close>. An address is its list of
  bytes, four for a dotted address and sixteen for a colon address, as \<open>net/netip\<close> keeps them apart.
\<close>

section \<open>Host and port\<close>

definition JoinHostPort :: "string \<Rightarrow> string \<Rightarrow> string" where
  "JoinHostPort host port =
     (if CHR '':'' \<in> set host then ''['' @ host @ '']:'' @ port else host @ '':'' @ port)"

text \<open>\<open>SplitHostPort\<close>: \<^term>\<open>None\<close> is any of its errors.\<close>

definition SplitHostPort :: "string \<Rightarrow> (string \<times> string) option" where
  "SplitHostPort hp =
     (case LastIndexByte hp (CHR '':'') of
        None \<Rightarrow> None
      | Some i \<Rightarrow>
          (if hp ! 0 = CHR ''['' then
             (case IndexByte hp (CHR '']'') of
                None \<Rightarrow> None
              | Some e \<Rightarrow>
                  (if Suc e = length hp \<or> Suc e \<noteq> i then None
                   else if CHR ''['' \<in> set (drop 1 hp) \<or> CHR '']'' \<in> set (drop (Suc e) hp) then None
                   else Some (drop 1 (take e hp), drop (Suc i) hp)))
           else
             (let host = take i hp in
              if CHR '':'' \<in> set host then None
              else if CHR ''['' \<in> set hp \<or> CHR '']'' \<in> set hp then None
              else Some (host, drop (Suc i) hp))))"

section \<open>Addresses\<close>

text \<open>One field of a dotted address: one to three digits, no leading zero, at most 255.\<close>

definition ipv4_field :: "string \<Rightarrow> nat option" where
  "ipv4_field f =
     (if all_digits f \<and> length f \<le> 3 \<and> (length f = 1 \<or> hd f \<noteq> CHR ''0'') \<and> dec_val 0 f \<le> 255
      then Some (dec_val 0 f) else None)"

definition parse_ipv4 :: "string \<Rightarrow> nat list option" where
  "parse_ipv4 s = (case map ipv4_field (Split s (CHR ''.'')) of
      [Some a, Some b, Some c, Some d] \<Rightarrow> Some [a, b, c, d]
    | _ \<Rightarrow> None)"

definition hex_val :: "char \<Rightarrow> nat option" where
  "hex_val c = (if is_digit c then Some (byte c - 48)
     else if 97 \<le> byte c \<and> byte c \<le> 102 then Some (byte c - 87)
     else if 65 \<le> byte c \<and> byte c \<le> 70 then Some (byte c - 55) else None)"

definition is_hex :: "char \<Rightarrow> bool" where
  "is_hex c \<longleftrightarrow> hex_val c \<noteq> None"

fun hex_acc :: "nat \<Rightarrow> string \<Rightarrow> nat" where
  "hex_acc a [] = a"
| "hex_acc a (c # cs) = hex_acc (16 * a + (case hex_val c of Some v \<Rightarrow> v | None \<Rightarrow> 0)) cs"

text \<open>
  The loop of \<open>parseIPv6\<close>: \<open>bs\<close> are the bytes read so far, \<open>ell\<close> the position of the ellipsis.
  The fuel is the number of 16-bit groups that still fit, so the loop runs at most eight times, as
  the guard \<open>i < 16\<close> of the source has it.
\<close>

fun ipv6_loop :: "nat \<Rightarrow> string \<Rightarrow> nat list \<Rightarrow> nat option \<Rightarrow> (string \<times> nat list \<times> nat option) option" where
  "ipv6_loop 0 s bs ell = Some (s, bs, ell)"
| "ipv6_loop (Suc fuel) s bs ell =
     (let g = takeWhile is_hex s; rest = drop (length g) s; acc = hex_acc 0 g
      in if g = [] \<or> length g > 4 then None
         else if rest \<noteq> [] \<and> hd rest = CHR ''.'' then
           (if (ell = None \<and> length bs \<noteq> 12) \<or> length bs + 4 > 16 then None
            else (case parse_ipv4 s of None \<Rightarrow> None | Some v4 \<Rightarrow> Some ([], bs @ v4, ell)))
         else
           (let bs' = bs @ [acc div 256, acc mod 256] in
            (case rest of
               [] \<Rightarrow> Some ([], bs', ell)
             | c # more \<Rightarrow>
                 (if c \<noteq> CHR '':'' then None
                  else (case more of
                      [] \<Rightarrow> None
                    | d # more' \<Rightarrow>
                        (if d = CHR '':'' then
                           (if ell \<noteq> None then None
                            else if more' = [] then Some ([], bs', Some (length bs'))
                            else ipv6_loop fuel more' bs' (Some (length bs')))
                         else ipv6_loop fuel more bs' ell))))))"

definition parse_ipv6 :: "string \<Rightarrow> nat list option" where
  "parse_ipv6 s =
     (let lead = HasPrefix s ''::''; body = (if lead then drop 2 s else s)
      in if lead \<and> body = [] then Some (replicate 16 0)
         else (case ipv6_loop 8 body [] (if lead then Some 0 else None) of
             None \<Rightarrow> None
           | Some (rest, bs, ell) \<Rightarrow>
               (if rest \<noteq> [] then None
                else (case ell of
                    None \<Rightarrow> (if length bs < 16 then None else Some bs)
                  | Some e \<Rightarrow> (if length bs < 16
                       then Some (take e bs @ replicate (16 - length bs) 0 @ drop e bs) else None)))))"

text \<open>
  \<open>netip.ParseAddr\<close> without a zone: the first dot or colon decides which form is read. A \<open>%\<close>
  starts a zone, which \<open>net.ParseIP\<close> and \<open>net.ParseCIDR\<close> refuse in every case.
\<close>

definition ParseIP :: "string \<Rightarrow> nat list option" where
  "ParseIP s =
     (if CHR ''%'' \<in> set s then None
      else (case IndexAny s ''.:'' of
          None \<Rightarrow> None
        | Some i \<Rightarrow> (if s ! i = CHR ''.'' then parse_ipv4 s else parse_ipv6 s)))"

definition ParseCIDR :: "string \<Rightarrow> (nat list \<times> nat) option" where
  "ParseCIDR s =
     (case Cut s (CHR ''/'') of (addr, len, found) \<Rightarrow>
        (if \<not> found then None
         else (case ParseIP addr of
             None \<Rightarrow> None
           | Some ip \<Rightarrow>
               (if all_digits len \<and> dec_val 0 len \<le> 8 * length ip then Some (ip, dec_val 0 len)
                else None))))"

section \<open>Lemmas\<close>

lemma LastIndexByte_append:
  assumes "c \<notin> set t"
  shows "LastIndexByte (s @ c # t) c = Some (length s)"
proof -
  have "index_where (\<lambda>x. x = c) (rev t @ c # rev s) = Some (length t)"
    using assms by (subst index_where_append) auto
  then show ?thesis by (simp add: LastIndexByte_def IndexByte_def)
qed

text \<open>\<open>SplitHostPort\<close> undoes \<open>JoinHostPort\<close> on a host free of brackets and a numeric port.\<close>

lemma SplitHostPort_Join:
  assumes "CHR ''['' \<notin> set h" "CHR '']'' \<notin> set h" "all_digits p"
  shows "SplitHostPort (JoinHostPort h p) = Some (h, p)"
proof -
  have p: "CHR '':'' \<notin> set p" "CHR ''['' \<notin> set p" "CHR '']'' \<notin> set p"
    using assms(3) by (auto simp: all_digits_def list_all_iff is_digit_def byte_def)
  show ?thesis
  proof (cases "CHR '':'' \<in> set h")
    case False
    have "LastIndexByte (h @ CHR '':'' # p) (CHR '':'') = Some (length h)"
      by (rule LastIndexByte_append [OF p(1)])
    moreover have "(h @ CHR '':'' # p) ! 0 \<noteq> CHR ''[''"
      using assms(1) by (cases h) auto
    ultimately show ?thesis
      using False assms p by (simp add: SplitHostPort_def JoinHostPort_def)
  next
    case True
    let ?hp = "CHR ''['' # h @ CHR '']'' # CHR '':'' # p"
    have "LastIndexByte ((CHR ''['' # h @ [CHR '']'']) @ CHR '':'' # p) (CHR '':'')
        = Some (length (CHR ''['' # h @ [CHR '']'']))"
      by (rule LastIndexByte_append [OF p(1)])
    then have l: "LastIndexByte ?hp (CHR '':'') = Some (Suc (Suc (length h)))" by simp
    have "index_where (\<lambda>x. x = CHR '']'') ((CHR ''['' # h) @ CHR '']'' # CHR '':'' # p)
        = Some (length (CHR ''['' # h))"
      using assms(2) by (subst index_where_append) auto
    then have e: "IndexByte ?hp (CHR '']'') = Some (Suc (length h))" by (simp add: IndexByte_def)
    show ?thesis using True assms p l e
      by (simp add: SplitHostPort_def JoinHostPort_def)
  qed
qed

lemma ipv4_field_bound: "ipv4_field f = Some n \<Longrightarrow> n \<le> 255"
  by (auto simp: ipv4_field_def split: if_splits)

lemma parse_ipv4_length: "parse_ipv4 s = Some bs \<Longrightarrow> length bs = 4"
  by (auto simp: parse_ipv4_def split: list.splits option.splits)

end
