(* ===== verification/Route_Handlers.thy ===== *)
theory Route_Handlers
  imports Route_Gates Error_Page Waf_Directives Go_Net "HOL-Library.Monad_Syntax"
begin

text \<open>
  The handler builders that \<open>BuildRoute\<close> composes (\<open>internal/caddyapi/route.go\<close>, with
  \<open>internal/geoip/continents.go\<close>): small formatters, location rules, geo and address blocks, load
  balancing and health checks, caching, forward authentication. \<open>itoa\<close> writes into a buffer of six
  bytes and panics on a longer number, so every builder that formats a number through it returns an
  option, with \<^term>\<open>None\<close> for the panic. A builder that returns nil where nothing is emitted returns
  the empty list of handlers here.
\<close>

section \<open>Formatting\<close>

fun itoa_loop :: "nat \<Rightarrow> int \<Rightarrow> string \<Rightarrow> string option" where
  "itoa_loop i n buf =
     (if n > 0 then
        (case i of
           0 \<Rightarrow> None
         | Suc i' \<Rightarrow> itoa_loop i' (n div 10) (digit_char (nat (n mod 10)) # buf))
      else Some buf)"

declare itoa_loop.simps [simp del]

definition itoa :: "int \<Rightarrow> string option" where
  "itoa n = (if n = 0 then Some ''0'' else itoa_loop 6 n '''')"

definition dial :: "string \<Rightarrow> int \<Rightarrow> string option" where
  "dial ip port = map_option (JoinHostPort ip) (itoa port)"

fun firstNonEmpty :: "string list \<Rightarrow> string" where
  "firstNonEmpty [] = ''''"
| "firstNonEmpty (v # vs) = (if v \<noteq> '''' then v else firstNonEmpty vs)"

definition secs :: "int \<Rightarrow> int \<Rightarrow> string option" where
  "secs n def = map_option (\<lambda>s. s @ ''s'') (itoa (if n \<le> 0 then def else n))"

definition msDur :: "int \<Rightarrow> int \<Rightarrow> string option" where
  "msDur n defMs =
     (let n = (if n \<le> 0 then defMs else n) in
      if n mod 1000 = 0 then map_option (\<lambda>s. s @ ''s'') (itoa (n div 1000))
      else map_option (\<lambda>s. s @ ''ms'') (itoa n))"

section \<open>Single sign-on target\<close>

definition dialFromURL :: "string \<Rightarrow> string" where
  "dialFromURL raw =
     (let s = TrimSpace raw;
          scheme = (if HasPrefix s ''https://'' then ''https'' else if HasPrefix s ''http://'' then ''http'' else '''');
          s = (if HasPrefix s ''https://'' then drop 8 s else if HasPrefix s ''http://'' then drop 7 s else s);
          s = (case IndexByte s (CHR ''/'') of Some i \<Rightarrow> take i s | None \<Rightarrow> s)
      in if s = '''' then raw
         else if CHR '':'' \<notin> set s then (if scheme = ''https'' then s @ '':443'' else s @ '':9000'')
         else s)"

definition SSODialTarget :: "route \<Rightarrow> (string \<times> int) option" where
  "SSODialTarget r =
     (if TrimSpace (SSOProviderURL r) = '''' then None
      else case SplitHostPort (dialFromURL (SSOProviderURL r)) of
        None \<Rightarrow> None
      | Some (h, p) \<Rightarrow>
          (if TrimSpace h = '''' then None
           else case Atoi p of
             None \<Rightarrow> None
           | Some n \<Rightarrow>
               (if n \<le> 0 \<or> 65535 < n then None
                else Some (if SSOResolver r \<noteq> '''' then SSOResolver r else h, n))))"

definition ValidHeaderName :: "string \<Rightarrow> bool" where
  "ValidHeaderName s \<longleftrightarrow> s \<noteq> '''' \<and>
     list_all (\<lambda>c. is_lower c \<or> is_upper c \<or> is_digit c \<or> c \<in> set (''!#$%&*+-.^_|~'' @ [CHR 39, CHR 96])) s"

definition isHTTPSProvider :: "string \<Rightarrow> bool" where
  "isHTTPSProvider raw \<longleftrightarrow> HasPrefix (TrimSpace raw) ''https://''"

definition ssoCopyHeadersHandle :: "string list \<Rightarrow> json list" where
  "ssoCopyHeadersHandle hdrs =
     (let ks = remdups (filter ValidHeaderName (map TrimSpace hdrs)) in
      if ks = [] then []
      else [JObj [(''handler'', JStr ''headers''),
                  (''request'', JObj [(''set'', JObj (map (\<lambda>k.
                      (k, jstrs [''{http.reverse_proxy.header.'' @ k @ ''}''])) ks))])]])"

section \<open>Location rules\<close>

definition locationPathMatchers :: "string \<Rightarrow> string list" where
  "locationPathMatchers p =
     (let path = TrimSpace p in
      if path = '''' then []
      else let path = (if \<not> HasPrefix path ''/'' then ''/'' @ path else path) in
        if path = ''/'' \<or> path = ''/*'' then [''/*'']
        else if HasSuffix path ''/*'' then
          (let exact = TrimSuffix path ''/*'' in if exact = '''' then [''/*''] else [exact, path])
        else [path])"

definition static_403 :: "(string \<times> json) list" where
  "static_403 = [(''handler'', JStr ''static_response''), (''status_code'', JNum 403), (''body'', JStr (''Forbidden'' @ [CHR 10]))]"

text \<open>The default branch: a proxy of its own. \<open>Some None\<close> is the result \<open>nil, false\<close>.\<close>

definition location_proxy :: "LocationRule \<Rightarrow> json list option option" where
  "location_proxy rule =
     (if TrimSpace (loc_UpstreamHost rule) = '''' \<or> loc_UpstreamPort rule \<le> 0 then Some None
      else do {
        d \<leftarrow> dial (loc_UpstreamHost rule) (loc_UpstreamPort rule);
        Some (Some [JObj
          [(''handler'', JStr ''reverse_proxy''), (''flush_interval'', JNum (-1)),
           (''upstreams'', JArr [JObj [(''dial'', JStr d)]]),
           (''transport'', JObj ([(''protocol'', JStr ''http''), (''dial_timeout'', JStr ''10s'')]
              @ jopt (loc_UpstreamScheme rule = ''https'') ''tls''
                  (JObj (jopt (loc_PinnedSNI rule \<noteq> '''') ''server_name'' (JStr (loc_PinnedSNI rule))))))]])
      })"

definition location_handle :: "LocationRule \<Rightarrow> json option \<Rightarrow> json list option option" where
  "location_handle rule defaultPrimary =
     (if loc_Action rule = ''block'' then Some (Some [JObj static_403])
      else if loc_Action rule = ''redirect'' then
        (if TrimSpace (loc_RedirectURL rule) = '''' \<or> ScreenTenantTemplate (loc_RedirectURL rule) \<noteq> None
         then Some None
         else Some (Some [JObj
           [(''handler'', JStr ''static_response''),
            (''status_code'', JNum (if loc_RedirectCode rule = 0 then 308 else loc_RedirectCode rule)),
            (''headers'', JObj [(''Location'', jstrs [loc_RedirectURL rule])])]]))
      else if loc_Action rule = ''rewrite'' then
        (case defaultPrimary of
           None \<Rightarrow> Some None
         | Some primary \<Rightarrow>
             (if TrimSpace (loc_RewriteURI rule) = '''' then Some None
              else Some (Some [JObj [(''handler'', JStr ''rewrite''), (''uri'', JStr (loc_RewriteURI rule))], primary])))
      else location_proxy rule)"

definition buildLocationRuleRoute :: "LocationRule \<Rightarrow> json option \<Rightarrow> json option option" where
  "buildLocationRuleRoute rule defaultPrimary =
     (let paths = locationPathMatchers (loc_Path rule) in
      if paths = [] then Some None
      else do {
        h \<leftarrow> location_handle rule defaultPrimary;
        Some (map_option (\<lambda>hs. JObj
          [(''match'', JArr [JObj [(''path'', jstrs paths)]]), (''handle'', JArr hs), (''terminal'', JBool True)]) h)
      })"

text \<open>The loop over the rules of some actions: the entries that were built, in order.\<close>

fun location_entries :: "string list \<Rightarrow> json option \<Rightarrow> LocationRule list \<Rightarrow> json list option" where
  "location_entries actions primary [] = Some []"
| "location_entries actions primary (rule # rules) =
     (if loc_Action rule \<notin> set actions then location_entries actions primary rules
      else do {
        e \<leftarrow> buildLocationRuleRoute rule primary;
        es \<leftarrow> location_entries actions primary rules;
        Some (case e of Some entry \<Rightarrow> entry # es | None \<Rightarrow> es)
      })"

definition buildEarlyLocationSubroute :: "route \<Rightarrow> json list option" where
  "buildEarlyLocationSubroute r =
     (if Kind r = ''redirect'' \<or> MaintenanceMode r then Some []
      else do {
        routes \<leftarrow> location_entries [''block'', ''redirect''] None (LocationRules r);
        Some (if routes = [] then [] else [JObj [(''handler'', JStr ''subroute''), (''routes'', JArr routes)]])
      })"

definition buildLocationSubroute :: "route \<Rightarrow> json \<Rightarrow> json list \<Rightarrow> json option" where
  "buildLocationSubroute r defaultPrimary fallbackPre = do {
     routes \<leftarrow> location_entries [''proxy'', ''rewrite'', ''''] (Some defaultPrimary) (LocationRules r);
     Some (if routes = [] \<and> fallbackPre = [] then defaultPrimary
           else JObj [(''handler'', JStr ''subroute''),
             (''routes'', JArr (routes @ [JObj [(''handle'', JArr (fallbackPre @ [defaultPrimary])),
                                                (''terminal'', JBool True)]]))])
   }"

section \<open>Geo and address blocks\<close>

definition list_sep :: "char \<Rightarrow> bool" where
  "list_sep c \<longleftrightarrow> c = CHR '','' \<or> byte c \<in> {32, 9, 10, 13}"

definition splitCIDRList :: "string \<Rightarrow> bool \<Rightarrow> string list" where
  "splitCIDRList s dropInvalid =
     filter (\<lambda>v. v \<noteq> '''' \<and> \<not> (dropInvalid \<and> ParseCIDR v = None \<and> ParseIP v = None))
       (map TrimSpace (FieldsFunc list_sep s))"

definition StatusText :: "int \<Rightarrow> string" where
  \<open>StatusText code = (case map_of
     [(100, ''Continue''), (101, ''Switching Protocols''), (102, ''Processing''), (103, ''Early Hints''),
      (200, ''OK''), (201, ''Created''), (202, ''Accepted''), (203, ''Non-Authoritative Information''),
      (204, ''No Content''), (205, ''Reset Content''), (206, ''Partial Content''), (207, ''Multi-Status''),
      (208, ''Already Reported''), (226, ''IM Used''), (300, ''Multiple Choices''),
      (301, ''Moved Permanently''), (302, ''Found''), (303, ''See Other''), (304, ''Not Modified''),
      (305, ''Use Proxy''), (307, ''Temporary Redirect''), (308, ''Permanent Redirect''),
      (400, ''Bad Request''), (401, ''Unauthorized''), (402, ''Payment Required''), (403, ''Forbidden''),
      (404, ''Not Found''), (405, ''Method Not Allowed''), (406, ''Not Acceptable''),
      (407, ''Proxy Authentication Required''), (408, ''Request Timeout''), (409, ''Conflict''),
      (410, ''Gone''), (411, ''Length Required''), (412, ''Precondition Failed''),
      (413, ''Request Entity Too Large''), (414, ''Request URI Too Long''),
      (415, ''Unsupported Media Type''), (416, ''Requested Range Not Satisfiable''),
      (417, ''Expectation Failed''), (418, ''I'm a teapot''), (421, ''Misdirected Request''),
      (422, ''Unprocessable Entity''), (423, ''Locked''), (424, ''Failed Dependency''), (425, ''Too Early''),
      (426, ''Upgrade Required''), (428, ''Precondition Required''), (429, ''Too Many Requests''),
      (431, ''Request Header Fields Too Large''), (451, ''Unavailable For Legal Reasons''),
      (500, ''Internal Server Error''), (501, ''Not Implemented''), (502, ''Bad Gateway''),
      (503, ''Service Unavailable''), (504, ''Gateway Timeout''), (505, ''HTTP Version Not Supported''),
      (506, ''Variant Also Negotiates''), (507, ''Insufficient Storage''), (508, ''Loop Detected''),
      (510, ''Not Extended''), (511, ''Network Authentication Required'')] code of
     Some t \<Rightarrow> t | None \<Rightarrow> '''')\<close>

definition geoBlockResponse :: "route \<Rightarrow> json" where
  "geoBlockResponse r =
     (let code = (if GeoResponseCode r = 0 then 403 else GeoResponseCode r);
          action = ToLower (TrimSpace (GeoBlockAction r)) in
      if action = ''redirect'' \<and> TrimSpace (GeoRedirectURL r) \<noteq> '''' \<and> ScreenTenantTemplate (GeoRedirectURL r) = None then
        JObj [(''handler'', JStr ''static_response''), (''status_code'', JNum 302),
              (''headers'', JObj [(''Location'', jstrs [GeoRedirectURL r])])]
      else if code = 444 then JObj [(''handler'', JStr ''static_response''), (''abort'', JBool True)]
      else if action = ''page'' then
        (let title = TrimSpace (GeoBlockTitle r); title = (if title = '''' then ''Access denied'' else title);
             msg = TrimSpace (GeoBlockMessage r);
             msg = (if msg = '''' then ''Access from your region is not allowed.'' else msg) in
         JObj [(''handler'', JStr ''static_response''), (''status_code'', JNum code),
               (''headers'', html_headers), (''body'', JStr (renderErrorPage code title msg (GeoBlockBranding r)))])
      else
        (let body = StatusText code; body = (if body = '''' then ''Forbidden'' else body) in
         JObj [(''handler'', JStr ''static_response''), (''status_code'', JNum code), (''body'', JStr (body @ [CHR 10]))]))"

definition continentCountries :: "(string \<times> string list) list" where
  "continentCountries =
     [(''AF'', [''DZ'', ''AO'', ''BJ'', ''BW'', ''BF'', ''BI'', ''CM'', ''CV'', ''CF'', ''TD'', ''KM'', 
         ''CG'', ''CD'', ''CI'', ''DJ'', ''EG'', ''GQ'', ''ER'', ''SZ'', ''ET'', ''GA'', ''GM'', 
         ''GH'', ''GN'', ''GW'', ''KE'', ''LS'', ''LR'', ''LY'', ''MG'', ''MW'', ''ML'', ''MR'', 
         ''MU'', ''YT'', ''MA'', ''MZ'', ''NA'', ''NE'', ''NG'', ''RE'', ''RW'', ''SH'', ''ST'', 
         ''SN'', ''SC'', ''SL'', ''SO'', ''ZA'', ''SS'', ''SD'', ''TZ'', ''TG'', ''TN'', ''UG'', 
         ''EH'', ''ZM'', ''ZW'']),
      (''AN'', [''AQ'', ''BV'', ''GS'', ''HM'', ''TF'']),
      (''AS'', [''AF'', ''AM'', ''AZ'', ''BH'', ''BD'', ''BT'', ''BN'', ''KH'', ''CN'', ''CY'', ''GE'', 
         ''HK'', ''IN'', ''ID'', ''IR'', ''IQ'', ''IL'', ''JP'', ''JO'', ''KZ'', ''KP'', ''KR'', 
         ''KW'', ''KG'', ''LA'', ''LB'', ''MO'', ''MY'', ''MV'', ''MN'', ''MM'', ''NP'', ''OM'', 
         ''PK'', ''PS'', ''PH'', ''QA'', ''SA'', ''SG'', ''LK'', ''SY'', ''TW'', ''TJ'', ''TH'', 
         ''TL'', ''TR'', ''TM'', ''AE'', ''UZ'', ''VN'', ''YE'']),
      (''EU'', [''AL'', ''AD'', ''AT'', ''BY'', ''BE'', ''BA'', ''BG'', ''HR'', ''CZ'', ''DK'', ''EE'', 
         ''FO'', ''FI'', ''FR'', ''DE'', ''GI'', ''GR'', ''GG'', ''HU'', ''IS'', ''IE'', ''IM'', 
         ''IT'', ''JE'', ''XK'', ''LV'', ''LI'', ''LT'', ''LU'', ''MT'', ''MD'', ''MC'', ''ME'', 
         ''NL'', ''MK'', ''NO'', ''PL'', ''PT'', ''RO'', ''RU'', ''SM'', ''RS'', ''SK'', ''SI'', 
         ''ES'', ''SE'', ''CH'', ''UA'', ''GB'', ''VA'', ''AX'', ''SJ'']),
      (''NA'', [''AI'', ''AG'', ''AW'', ''BS'', ''BB'', ''BZ'', ''BM'', ''BQ'', ''CA'', ''KY'', ''CR'', 
         ''CU'', ''CW'', ''DM'', ''DO'', ''SV'', ''GL'', ''GD'', ''GP'', ''GT'', ''HT'', ''HN'', 
         ''JM'', ''MQ'', ''MX'', ''MS'', ''NI'', ''PA'', ''PR'', ''BL'', ''KN'', ''LC'', ''MF'', 
         ''PM'', ''VC'', ''SX'', ''TT'', ''TC'', ''US'', ''VG'', ''VI'']),
      (''OC'', [''AS'', ''AU'', ''CK'', ''FJ'', ''PF'', ''GU'', ''KI'', ''MH'', ''FM'', ''NR'', ''NC'', 
         ''NZ'', ''NU'', ''NF'', ''MP'', ''PW'', ''PG'', ''PN'', ''WS'', ''SB'', ''TK'', ''TO'', 
         ''TV'', ''UM'', ''VU'', ''WF'']),
      (''SA'', [''AR'', ''BO'', ''BR'', ''CL'', ''CO'', ''EC'', ''FK'', ''GF'', ''GY'', ''PY'', ''PE'', 
         ''SR'', ''UY'', ''VE''])]"

definition CountriesInContinent :: "string \<Rightarrow> string list" where
  "CountriesInContinent code = (case map_of continentCountries code of Some cs \<Rightarrow> cs | None \<Rightarrow> [])"

text \<open>The country list: codes and expanded continents, upper case, first occurrences in order.\<close>

definition geo_countries :: "route \<Rightarrow> string list" where
  "geo_countries r =
     (let up = (\<lambda>c. ToUpper (TrimSpace c));
          cs = map up (Split (GeoCountries r) (CHR '',''));
          ks = concat (map (\<lambda>cont. map up (CountriesInContinent (up cont))) (Split (GeoContinents r) (CHR '','')))
      in rev (remdups (rev (filter (\<lambda>c. c \<noteq> '''') (cs @ ks)))))"

definition remote_ip :: "string list \<Rightarrow> json" where
  "remote_ip ranges = JObj [(''remote_ip'', JObj [(''ranges'', jstrs ranges)])]"

definition geoDBPath :: string where
  "geoDBPath = ''/data/geoip/GeoLite2-Country.mmdb''"

definition buildGeoBlock :: "route \<Rightarrow> json list" where
  "buildGeoBlock r =
     (let mode = ToLower (TrimSpace (GeoMode r)) in
      if mode \<noteq> ''allow'' \<and> mode \<noteq> ''deny'' then []
      else let denyResp = geoBlockResponse r; countries = geo_countries r in
        if countries = [] then []
        else let allowRanges = splitCIDRList (GeoAllowCIDRs r) True in
          if \<not> GeoModuleAvailable r then
            (if \<not> GeoFailClosed r then []
             else [JObj [(''handler'', JStr ''subroute''), (''routes'', JArr [JObj
                ([(''handle'', JArr [denyResp]), (''terminal'', JBool True)]
                 @ jopt (allowRanges \<noteq> []) ''match'' (JArr [JObj [(''not'', JArr [remote_ip allowRanges])]]))])]])
          else
            (let geoConf = JObj [(''db_path'', JStr geoDBPath),
                   (if mode = ''deny'' then ''deny_countries'' else ''allow_countries'', jstrs countries)];
                 nots = JObj [(''maxmind_geolocation'', geoConf)] # (if allowRanges \<noteq> [] then [remote_ip allowRanges] else [])
             in [JObj [(''handler'', JStr ''subroute''), (''routes'', JArr [JObj
                  [(''match'', JArr [JObj [(''not'', JArr nots)]]), (''handle'', JArr [denyResp]),
                   (''terminal'', JBool True)]])]]))"

definition buildCIDRBlock :: "route \<Rightarrow> json list" where
  "buildCIDRBlock r =
     (let ranges = splitCIDRList (GeoBlockCIDRs r) False in
      if ranges = [] then []
      else [JObj [(''handler'', JStr ''subroute''), (''routes'', JArr [JObj
              [(''match'', JArr [remote_ip ranges]), (''handle'', JArr [geoBlockResponse r]),
               (''terminal'', JBool True)]])]])"

section \<open>Load balancing and health\<close>

definition buildLoadBalancing :: "route \<Rightarrow> json option option" where
  "buildLoadBalancing r =
     (let policy = (if LBPolicy r = ''weighted_round_robin'' \<and> \<not> WeightedLBAvailable r then ''round_robin'' else LBPolicy r) in
      if policy = '''' then Some None
      else do {
        tryInterval \<leftarrow> (if LBTryIntervalMs r > 0 then msDur (LBTryIntervalMs r) 250 else Some ''0s'');
        tryDuration \<leftarrow> msDur (LBTryDurationMs r) 5000;
        Some (Some (JObj
          [(''selection_policy'', JObj ((''policy'', JStr policy)
              # jopt (policy = ''header'' \<and> LBHeaderField r \<noteq> '''') ''field'' (JStr (LBHeaderField r))
              @ jopt (policy = ''query'' \<and> LBHeaderField r \<noteq> '''') ''key'' (JStr (LBHeaderField r))
              @ jopt (policy = ''random_choose'') ''choose'' (JNum 2)
              @ jopt (policy = ''cookie'' \<and> LBCookieName r \<noteq> '''') ''name'' (JStr (LBCookieName r))
              @ jopt (policy = ''cookie'' \<and> LBCookieSecret r \<noteq> '''') ''secret'' (JStr (LBCookieSecret r))
              @ jopt (policy = ''weighted_round_robin'') ''weights''
                  (JArr (if Upstreams r \<noteq> []
                         then map (\<lambda>u. JNum (if up_Weight u \<le> 0 then 1 else up_Weight u)) (Upstreams r)
                         else [JNum 1])))),
           (''try_duration'', JStr tryDuration), (''try_interval'', JStr tryInterval)]))
      })"

definition health_active :: "route \<Rightarrow> (string \<times> json) list option" where
  "health_active r =
     (if TrimSpace (HealthURI r) = '''' then Some []
      else do {
        i \<leftarrow> secs (HealthIntervalSecs r) 10;
        t \<leftarrow> secs (HealthTimeoutSecs r) 5;
        Some ([(''uri'', JStr (HealthURI r)), (''interval'', JStr i), (''timeout'', JStr t)]
          @ jopt (HealthExpectStatus r > 0) ''expect_status'' (JNum (HealthExpectStatus r))
          @ jopt (HealthFails r > 0) ''fails'' (JNum (HealthFails r)))
      })"

definition health_passive :: "route \<Rightarrow> (string \<times> json) list option" where
  "health_passive r =
     (if \<not> HealthPassive r then Some []
      else do {
        d \<leftarrow> secs (HealthFailDurationSecs r) 30;
        Some ((''fail_duration'', JStr d)
          # jopt (HealthMaxFails r > 0) ''max_fails'' (JNum (HealthMaxFails r))
          @ [(''unhealthy_status'', JArr [JNum 500, JNum 502, JNum 503, JNum 504])])
      })"

definition buildHealthChecks :: "route \<Rightarrow> json option option" where
  "buildHealthChecks r = do {
     active \<leftarrow> health_active r;
     passive \<leftarrow> health_passive r;
     let out = jopt (active \<noteq> []) ''active'' (JObj active) @ jopt (passive \<noteq> []) ''passive'' (JObj passive);
     Some (if out = [] then None else Some (JObj out))
   }"

section \<open>Caching\<close>

definition credentialledMatch :: "json list" where
  "credentialledMatch =
     [JObj [(''header'', JObj [(''Cookie'', jstrs [''*''])])],
      JObj [(''header'', JObj [(''Authorization'', jstrs [''*''])])]]"

definition cacheControlHandler :: "string \<Rightarrow> json" where
  "cacheControlHandler value =
     JObj [(''handler'', JStr ''headers''),
           (''response'', JObj [(''set'', JObj [(''Cache-Control'', jstrs [value])])])]"

definition buildCacheHandlers :: "go_env \<Rightarrow> route \<Rightarrow> json list option" where
  "buildCacheHandlers env r =
     (if RouteAuthGated env r then Some [cacheControlHandler ''private, no-store'']
      else do {
        ttl \<leftarrow> itoa (if CacheTTLSeconds r \<le> 0 then 60 else CacheTTLSeconds r);
        let sharedPublic = (CachePublic r \<and> \<not> routeAudienceRestricted r);
        let scope = (if sharedPublic then ''public, max-age='' @ ttl else ''private, max-age='' @ ttl);
        let fresh =
          (if CacheModuleAvailable r \<and> CachePublic r then
             [JObj [(''handler'', JStr ''cache''), (''ttl'', JStr (ttl @ ''s'')), (''stale'', JStr (ttl @ ''s'')),
                    (''key'', JObj [(''headers'', jstrs (CacheVary r @ [''Cookie'', ''Authorization'']))])]]
           else [])
          @ (if sharedPublic then
             [JObj [(''handler'', JStr ''headers''),
                    (''response'', JObj [(''deferred'', JBool True), (''delete'', jstrs [''Set-Cookie''])])]]
             else [])
          @ [cacheControlHandler scope];
        Some [JObj [(''handler'', JStr ''subroute''), (''routes'', JArr
          [JObj [(''match'', JArr [JObj [(''not'', JArr credentialledMatch)]]), (''handle'', JArr fresh)],
           JObj [(''match'', JArr credentialledMatch), (''handle'', JArr [cacheControlHandler ''private, no-store''])]])]]
      })"

section \<open>Refusals and wrappers\<close>

definition text_headers :: "(string \<times> json) list \<Rightarrow> json" where
  "text_headers extra =
     JObj ([(''Content-Type'', jstrs [''text/plain; charset=utf-8'']), (''Cache-Control'', jstrs [''no-store''])] @ extra)"

definition misconfigDenyHandler :: "route \<Rightarrow> json" where
  "misconfigDenyHandler r =
     (let reason = ''client certificate enforcement is unavailable'';
          reason = (if WAFUnenforceable r \<and> \<not> MTLSDenyOnMisconfig r \<and> \<not> PortalDenyOnMisconfig r \<and> \<not> PortalProtect r
                    then ''the web application firewall is unavailable'' else reason);
          reason = (if PortalDenyOnMisconfig r \<or> PortalProtect r
                    then (if PortalNoGrants r
                          then ''access portal protection is on but nobody has been granted access''
                          else ''access portal verifier is unavailable'')
                    else reason)
      in JObj [(''handler'', JStr ''static_response''), (''status_code'', JNum 503),
               (''headers'', text_headers [(''Retry-After'', jstrs [''60''])]),
               (''body'', JStr (''Service unavailable: '' @ reason @ ''.'' @ [CHR 10]))])"

definition quarantineDenyHandler :: "string \<Rightarrow> json" where
  "quarantineDenyHandler kind =
     JObj [(''handler'', JStr ''static_response''), (''status_code'', JNum 503),
           (''headers'', text_headers [(''Retry-After'', jstrs [''60'']), (''X-Hpg-Quarantine'', jstrs [kind])]),
           (''body'', JStr (''Service unavailable: this route is quarantined because its stored configuration failed validation. A platform administrator must review it.'' @ [CHR 10]))]"

definition forceHTTPSWrap :: "json list \<Rightarrow> string list \<Rightarrow> json list" where
  "forceHTTPSWrap inner hosts =
     [JObj [(''handler'', JStr ''subroute''), (''routes'', JArr
        [JObj [(''match'', JArr [JObj [(''protocol'', JStr ''http''), (''host'', jstrs hosts)]]),
               (''handle'', JArr [JObj [(''handler'', JStr ''static_response''), (''status_code'', JNum 308),
                  (''headers'', JObj [(''Location'', jstrs [''https://{http.request.host}{http.request.uri}''])])]])],
         JObj [(''handle'', JArr inner), (''terminal'', JBool True)]])]]"

section \<open>Forward authentication\<close>

definition authRequestBodyMaxBytes :: int where
  "authRequestBodyMaxBytes = 10 * 2 ^ 20"

definition forwardAuthGate :: "(string \<times> json) list \<Rightarrow> string \<Rightarrow> json list \<Rightarrow> json" where
  "forwardAuthGate fwd checkURI match =
     JObj [(''handler'', JStr ''subroute''), (''routes'', JArr [JObj
       ((''handle'', JArr [JObj (fwd @ [(''rewrite'', JObj [(''method'', JStr ''GET''), (''uri'', JStr checkURI)])])])
        # jopt (match \<noteq> []) ''match'' (JArr match))])]"

text \<open>The headers every authentication subrequest carries, and the proxy that keeps the client's host.\<close>

definition fwd_request_headers :: json where
  "fwd_request_headers =
     JObj [(''request'', JObj
       [(''set'', JObj
          [(''Host'', jstrs [''{http.request.host}'']),
           (''X-Forwarded-Method'', jstrs [''{http.request.method}'']),
           (''X-Forwarded-Uri'', jstrs [''{http.request.orig_uri}'']),
           (''X-Forwarded-Host'', jstrs [''{http.request.host}'']),
           (''X-Forwarded-Proto'', jstrs [''{http.request.scheme}'']),
           (''X-Real-IP'', jstrs [''{http.request.client_ip}''])]),
        (''delete'', jstrs [''Content-Length''])])]"

definition hostPreserve :: json where
  "hostPreserve = JObj [(''request'', JObj [(''set'', JObj [(''Host'', jstrs [''{http.request.host}''])])])]"

definition passthrough :: "string \<Rightarrow> (string \<times> json) list \<Rightarrow> json" where
  "passthrough path rp =
     JObj [(''handler'', JStr ''subroute''), (''routes'', JArr [JObj
       [(''match'', JArr [JObj [(''path'', jstrs [path])]]),
        (''handle'', JArr [JObj (rp @ [(''headers'', hostPreserve)])]),
        (''terminal'', JBool True)]])]"

definition status_match :: "int \<Rightarrow> json" where
  "status_match n = JObj [(''status_code'', JArr [JNum n])]"

definition portal_rp :: "route \<Rightarrow> (string \<times> json) list" where
  "portal_rp r =
     [(''handler'', JStr ''reverse_proxy''), (''upstreams'', JArr [JObj [(''dial'', JStr (PortalDial r))]])]
     @ jopt (PortalTLS r) ''transport'' (JObj [(''protocol'', JStr ''http''),
         (''tls'', JObj (jopt (PortalSNI r \<noteq> '''') ''server_name'' (JStr (PortalSNI r))))])"

definition buildPortalForwardAuth :: "route \<Rightarrow> json list" where
  "buildPortalForwardAuth r =
     [passthrough ''/hpg-portal/*'' (portal_rp r),
      forwardAuthGate
        (portal_rp r @ [(''request_buffers'', JNum authRequestBodyMaxBytes), (''headers'', fwd_request_headers),
           (''handle_response'', JArr [JObj [(''match'', status_match 2)]])])
        ''/hpg-portal/verify''
        (if PortalPublicPaths r \<noteq> [] then
           [JObj [(''method'', jstrs [''GET'', ''HEAD'']), (''not'', JArr [JObj [(''path'', jstrs (PortalPublicPaths r))]])],
            JObj [(''not'', JArr [JObj [(''method'', jstrs [''GET'', ''HEAD''])]])]]
         else [])]"

section \<open>Role checks on client certificates\<close>

definition authHeaders :: "route \<Rightarrow> string \<Rightarrow> json" where
  "authHeaders r certSubjectPlaceholder =
     JObj ([(''X-Mtls-Subject'', jstrs [certSubjectPlaceholder]),
            (''X-Mtls-Serial'', jstrs [''{http.request.tls.client.serial}'']),
            (''X-Mtls-Fingerprint'', jstrs [''{http.request.tls.client.fingerprint}'']),
            (''X-Forwarded-Uri'', jstrs [''{http.request.orig_uri}'']),
            (''X-Forwarded-Method'', jstrs [''{http.request.method}''])]
       @ (if RBACToken r \<noteq> '''' \<and> RBACNodeID r > 0
          then [(''X-Hpg-Rbac-Token'', jstrs [RBACToken r]), (''X-Hpg-Node'', jstrs [Itoa (RBACNodeID r)])]
          else []))"

text \<open>\<open>Hostname\<close> and \<open>Port\<close> of package \<open>net/url\<close>, which split the host of a parsed URL.\<close>

definition url_split_host :: "string \<Rightarrow> string \<times> string" where
  "url_split_host hostPort =
     (let (host, port) =
        (case LastIndexByte hostPort (CHR '':'') of
           Some colon \<Rightarrow>
             (if list_all is_digit (drop (Suc colon) hostPort) then (take colon hostPort, drop (Suc colon) hostPort)
              else (hostPort, ''''))
         | None \<Rightarrow> (hostPort, ''''))
      in (if HasPrefix host ''['' \<and> HasSuffix host '']'' then drop 1 (butlast host) else host, port))"

definition panelDial :: "go_env \<Rightarrow> string \<Rightarrow> string" where
  "panelDial env rawURL =
     (case url_Parse env rawURL of
        None \<Rightarrow> ''127.0.0.1:8080''
      | Some (scheme, uhost) \<Rightarrow>
          (if uhost = '''' then ''127.0.0.1:8080''
           else let (host, port) = url_split_host uhost;
                    port = (if port = '''' then (if scheme = ''https'' then ''443'' else ''80'') else port)
                in JoinHostPort host port))"

definition buildMTLSRBAC :: "go_env \<Rightarrow> route \<Rightarrow> json list" where
  "buildMTLSRBAC env r =
     (if MTLSPathRules r = [] \<or> PanelBaseURL r = '''' then []
      else let routeID = (case Atoi (ID r) of Some n \<Rightarrow> Itoa n | None \<Rightarrow> Itoa 0);
               subject = ''{http.request.tls.client.subject}'' in
        [JObj [(''handler'', JStr ''subroute''), (''routes'', JArr [JObj [(''handle'', JArr
          [JObj [(''handler'', JStr ''headers''),
                 (''request'', JObj [(''set'', JObj [(''X-Mtls-Subject'', jstrs [subject])])])],
           JObj [(''handler'', JStr ''reverse_proxy''),
                 (''upstreams'', JArr [JObj [(''dial'', JStr (panelDial env (PanelBaseURL r)))]]),
                 (''request_buffers'', JNum authRequestBodyMaxBytes),
                 (''headers'', JObj [(''request'', JObj [(''set'', authHeaders r subject),
                                                          (''delete'', jstrs [''Content-Length''])])]),
                 (''rewrite'', JObj [(''method'', JStr ''GET''), (''uri'', JStr (''/internal/mtls-rbac/'' @ routeID))]),
                 (''handle_response'', JArr
                   [JObj [(''match'', status_match 2)],
                    JObj [(''routes'', JArr [JObj [(''handle'', JArr [JObj static_403]),
                                                   (''terminal'', JBool True)]])]])]])]])]])"

section \<open>Path rewriting\<close>

definition QuoteMeta :: "string \<Rightarrow> string" where
  "QuoteMeta s = concat (map (\<lambda>c. if c \<in> set (CHR 92 # ''.+*?()|[]{}^$'') then [CHR 92, c] else [c]) s)"

definition pathRewriteHandlers :: "route \<Rightarrow> json list" where
  "pathRewriteHandlers r =
     (if \<not> External r \<or> Kind r = ''redirect'' then []
      else let up = TrimSuffix (UpstreamPathPrefix r) ''/''; p = TrimSuffix (PathPrefix r) ''/'' in
        if StripPathPrefix r \<and> p \<noteq> '''' then
          [JObj [(''handler'', JStr ''rewrite''), (''path_regexp'', JArr [JObj
             [(''find'', JStr (''(?i)^'' @ QuoteMeta p @ ''(?:/|$)'')),
              (''replace'', JStr (ReplaceByte up (CHR ''$'') ''$$'' @ ''/''))]])]]
        else if up \<noteq> '''' then
          [JObj [(''handler'', JStr ''rewrite''), (''uri'', JStr (up @ ''{http.request.uri.path}''))]]
        else [])"

end
