(* ===== verification/Route_Builder.thy ===== *)
theory Route_Builder
  imports Route_Handlers
begin

text \<open>
  \<open>BuildRoute\<close> (\<open>internal/caddyapi/route.go\<close>): the Caddy route object of one \<open>Route\<close>. The function is
  cut at the comments of the source into one definition per block; \<open>chain_handlers\<close> concatenates the
  blocks in the order in which the source appends them. \<^term>\<open>None\<close> is a panic of \<open>itoa\<close>.
\<close>

section \<open>Route object\<close>

definition route_match :: "route \<Rightarrow> json" where
  "route_match r =
     JObj ((''host'', jstrs (Hosts r)) #
       (if PathPrefix r = '''' then []
        else let p = TrimSuffix (PathPrefix r) ''/'' in
          if External r \<and> StripPathPrefix r \<and> p \<noteq> '''' then [(''path'', jstrs [p, p @ ''/*''])]
          else [(''path'', jstrs [PathPrefix r @ ''*''])]))"

definition emit :: "route \<Rightarrow> json list \<Rightarrow> json" where
  "emit r handlers =
     JObj [(''@id'', JStr (''route_'' @ ID r)), (''match'', JArr [route_match r]),
           (''handle'', JArr handlers), (''terminal'', JBool True)]"

section \<open>Maintenance\<close>

definition maintenance_page :: "route \<Rightarrow> json" where
  "maintenance_page r =
     (let msg = (if MaintenanceMessage r = ''''
                 then ''We are performing scheduled maintenance. Please check back shortly.''
                 else MaintenanceMessage r) in
      JObj [(''handler'', JStr ''static_response''), (''status_code'', JNum 503),
            (''headers'', JObj [(''Content-Type'', jstrs [''text/html; charset=utf-8'']),
               (''Retry-After'', jstrs [''60'']), (''Cache-Control'', jstrs [''no-store''])]),
            (''body'', JStr (routeMaintenanceBody r msg))])"

definition maintenance_handlers :: "route \<Rightarrow> json list option" where
  "maintenance_handlers r =
     (if MaintenanceAllow r = [] then Some [maintenance_page r]
      else do {
        d \<leftarrow> dial (UpstreamIP r) (UpstreamPort r);
        let rp = JObj ([(''handler'', JStr ''reverse_proxy''), (''upstreams'', JArr [JObj [(''dial'', JStr d)]])]
          @ jopt (UpstreamScheme r = ''https'') ''transport'' (JObj [(''protocol'', JStr ''http''),
              (''tls'', JObj (jopt (UpstreamSkipTLSVerify r) ''insecure_skip_verify'' (JBool True)))]));
        Some [JObj [(''handler'', JStr ''subroute''), (''routes'', JArr
          [JObj [(''match'', JArr [remote_ip (MaintenanceAllow r)]), (''handle'', JArr [rp]), (''terminal'', JBool True)],
           JObj [(''handle'', JArr [maintenance_page r]), (''terminal'', JBool True)]])]]
      })"

section \<open>The primary handler\<close>

definition redirect_primary :: "route \<Rightarrow> json" where
  "redirect_primary r =
     (if ScreenTenantTemplate (RedirectURL r) \<noteq> None then
        JObj [(''handler'', JStr ''static_response''), (''status_code'', JNum 503), (''headers'', text_headers []),
              (''body'', JStr (''Service unavailable: redirect target rejected.'' @ [CHR 10]))]
      else
        JObj [(''handler'', JStr ''static_response''),
              (''status_code'', JNum (if RedirectCode r = 0 then 308 else RedirectCode r)),
              (''headers'', JObj [(''Location'', jstrs [RedirectURL r])])])"

definition dns_resolver :: "route \<Rightarrow> string" where
  "dns_resolver r = firstNonEmpty [DNSResolverIP r, DNSResolverViaWGPeerIP r]"

definition dynamic_upstreams :: "route \<Rightarrow> string \<Rightarrow> string \<Rightarrow> (string \<times> json) list option" where
  "dynamic_upstreams r src resolver = do {
     p \<leftarrow> itoa (UpstreamPort r);
     Some [(''dynamic_upstreams'', JObj
       [(''source'', JStr src), (''name'', JStr (UpstreamIP r)), (''port'', JStr p), (''refresh'', JStr ''30s''),
        (''resolver'', JObj [(''addresses'', jstrs [JoinHostPort resolver ''53''])])])]
   }"

fun pool_upstreams :: "Upstream list \<Rightarrow> json list option" where
  "pool_upstreams [] = Some []"
| "pool_upstreams (u # us) = do {
     d \<leftarrow> dial (up_Host u) (up_Port u);
     rest \<leftarrow> pool_upstreams us;
     Some (JObj ((''dial'', JStr d) # jopt (up_MaxRequests u > 0) ''max_requests'' (JNum (up_MaxRequests u))) # rest)
   }"

definition proxy_upstreams :: "route \<Rightarrow> (string \<times> json) list option" where
  "proxy_upstreams r =
     (if BackendResolver r \<noteq> '''' then dynamic_upstreams r ''a'' (BackendResolver r)
      else if dns_resolver r \<noteq> '''' \<and> ParseIP (UpstreamIP r) = None then
        dynamic_upstreams r (if DNSAddressFamily r = ''ipv6'' then ''aaaa'' else ''a'') (dns_resolver r)
      else if \<not> External r \<and> Upstreams r \<noteq> [] then
        map_option (\<lambda>ups. [(''upstreams'', JArr ups)]) (pool_upstreams (Upstreams r))
      else map_option (\<lambda>d. [(''upstreams'', JArr [JObj [(''dial'', JStr d)]])]) (dial (UpstreamIP r) (UpstreamPort r)))"

definition upstream_tls :: "route \<Rightarrow> (string \<times> json) list" where
  "upstream_tls r =
     (if External r then
        (let sni = firstNonEmpty [UpstreamSNI r, UpstreamHostHeader r, PinnedSNI r, UpstreamIP r] in
         jopt (sni \<noteq> '''') ''server_name'' (JStr sni))
      else jopt (UpstreamSkipTLSVerify r) ''insecure_skip_verify'' (JBool True)
           @ jopt (PinnedSNI r \<noteq> '''') ''server_name'' (JStr (PinnedSNI r)))"

definition proxy_transport :: "route \<Rightarrow> json" where
  "proxy_transport r =
     JObj ([(''protocol'', JStr ''http''),
            (''dial_timeout'', JStr (if DialTimeoutMs r > 0 then Itoa (DialTimeoutMs r) @ ''ms'' else ''10s''))]
       @ jopt (ResponseHeaderTimeoutMs r > 0) ''response_header_timeout'' (JStr (Itoa (ResponseHeaderTimeoutMs r) @ ''ms''))
       @ jopt (UpstreamScheme r = ''https'') ''tls'' (JObj (upstream_tls r))
       @ jopt ((OutboundIPMode r = ''fixed'' \<or> OutboundIPMode r = ''random'') \<and> OutboundIP r \<noteq> '''')
           ''local_address'' (JStr (OutboundIP r)))"

text \<open>The map \<open>set\<close>: the headers of the route, with the host of an external origin replacing any other.\<close>

definition proxy_set_headers :: "route \<Rightarrow> (string \<times> json) list" where
  "proxy_set_headers r =
     (let set = map (\<lambda>(k, v). (k, jstrs [v])) (Headers r);
          host = firstNonEmpty [UpstreamHostHeader r, PinnedSNI r, UpstreamIP r] in
      if External r \<and> host \<noteq> '''' then filter (\<lambda>(k, v). k \<noteq> ''Host'') set @ [(''Host'', jstrs [host])] else set)"

definition proxy_headers :: "route \<Rightarrow> (string \<times> json) list" where
  "proxy_headers r =
     (let request = jopt (proxy_set_headers r \<noteq> []) ''set'' (JObj (proxy_set_headers r))
                    @ jopt (External r) ''delete'' (jstrs [''Authorization'']) in
      jopt (request \<noteq> []) ''headers'' (JObj [(''request'', JObj request)]))"

definition has_dyn_upstreams :: "route \<Rightarrow> bool" where
  "has_dyn_upstreams r \<longleftrightarrow> BackendResolver r \<noteq> '''' \<or> (dns_resolver r \<noteq> '''' \<and> ParseIP (UpstreamIP r) = None)"

definition proxy_balancing :: "route \<Rightarrow> (string \<times> json) list option" where
  "proxy_balancing r =
     (if External r \<or> has_dyn_upstreams r then Some []
      else do {
        lb \<leftarrow> buildLoadBalancing r;
        hc \<leftarrow> buildHealthChecks r;
        Some ((case lb of Some v \<Rightarrow> [(''load_balancing'', v)] | None \<Rightarrow> [])
              @ (case hc of Some v \<Rightarrow> [(''health_checks'', v)] | None \<Rightarrow> []))
      })"

definition proxy_primary :: "route \<Rightarrow> json option" where
  "proxy_primary r = do {
     ups \<leftarrow> proxy_upstreams r;
     lb \<leftarrow> proxy_balancing r;
     Some (JObj ([(''handler'', JStr ''reverse_proxy''), (''flush_interval'', JNum (-1))]
       @ jopt (External r \<and> WebSocket r) ''stream_close_delay'' (JStr ''15m'')
       @ ups @ [(''transport'', proxy_transport r)] @ proxy_headers r @ lb))
   }"

section \<open>The handlers in front of it\<close>

definition strip_identity :: json where
  "strip_identity = JObj [(''handler'', JStr ''headers''), (''request'', JObj [(''delete'', jstrs [''X-Mtls-Subject''])])]"

definition revoked_gate :: "route \<Rightarrow> json list" where
  "revoked_gate r =
     (if RequireClientCert r \<and> MTLSRevokedFingerprints r \<noteq> [] then
        [JObj [(''handler'', JStr ''subroute''), (''routes'', JArr [JObj
           [(''match'', JArr [JObj [(''vars'', JObj [(''{http.request.tls.client.fingerprint}'', jstrs (MTLSRevokedFingerprints r))])]]),
            (''handle'', JArr [JObj [(''handler'', JStr ''static_response''), (''status_code'', JNum 403),
               (''headers'', JObj [(''Cache-Control'', jstrs [''no-store''])]),
               (''body'', JStr (''Client certificate revoked.'' @ [CHR 10]))]])]])]]
      else [])"

definition panel_self_headers :: "route \<Rightarrow> json list" where
  "panel_self_headers r =
     (if IsPanelSelfRoute r then
        [JObj [(''handler'', JStr ''headers''), (''request'', JObj
           [(''delete'', jstrs [''True-Client-IP'', ''X-Real-IP'']),
            (''set'', JObj [(''X-Real-IP'', jstrs [''{http.request.client_ip}''])])])]]
      else [])"

definition WAFAuditLogFilePath :: string where
  "WAFAuditLogFilePath = ''/var/log/caddy/waf-audit.log''"

definition waf_handler :: "route \<Rightarrow> json list option" where
  "waf_handler r =
     (if WAFEnabled r \<and> WAFModuleAvailable r then do {
        (extra, dropped) \<leftarrow> SanitizeWAFDirectives (WAFDirectives r);
        let nl = [CHR 10];
        Some [JObj [(''handler'', JStr ''waf''), (''load_owasp_crs'', JBool True), (''directives'', JStr
          (''Include @coraza.conf-recommended'' @ nl @ ''Include @crs-setup.conf.example'' @ nl
           @ ''Include @owasp_crs/*.conf'' @ nl
           @ (if extra \<noteq> '''' then extra @ nl else '''')
           @ ''SecRuleEngine '' @ (if WAFBlocking r then ''On'' else ''DetectionOnly'')
           @ nl @ ''SecAuditEngine RelevantOnly'' @ nl @ ''SecAuditLogParts ABDFHZ''
           @ nl @ ''SecAuditLogType Serial'' @ nl @ ''SecAuditLogFormat JSON''
           @ nl @ ''SecAuditLog '' @ WAFAuditLogFilePath))]]
      } else Some [])"

definition bearer_gate :: "route \<Rightarrow> json list" where
  "bearer_gate r =
     (if External r \<and> ProxySecret r \<noteq> '''' then
        [JObj [(''handler'', JStr ''subroute''), (''routes'', JArr [JObj
           [(''match'', JArr [JObj [(''not'', JArr [JObj [(''header'', JObj [(''Authorization'', jstrs [''Bearer '' @ ProxySecret r])])]])]]),
            (''handle'', JArr [JObj [(''handler'', JStr ''static_response''), (''status_code'', JNum 403),
               (''body'', JStr (''forbidden'' @ [CHR 10]))]])]])]]
      else [])"

definition rate_limit_handler :: "route \<Rightarrow> json list" where
  "rate_limit_handler r =
     (if RateLimitEnabled r \<and> RateLimitModuleAvailable r then
        [JObj [(''handler'', JStr ''rate_limit''), (''rate_limits'', JObj [(''route_'' @ ID r, JObj
           [(''key'', JStr (firstNonEmpty [RateLimitKey r, ''{http.request.client_ip}''])),
            (''window'', JStr (firstNonEmpty [RateLimitWindow r, ''1m''])),
            (''max_events'', JNum (if RateLimitMaxEvents r \<le> 0 then 100 else RateLimitMaxEvents r))])])]]
      else [])"

definition cache_block :: "go_env \<Rightarrow> route \<Rightarrow> json list option" where
  "cache_block env r =
     (if CacheEnabled r \<and> Kind r \<noteq> ''redirect'' \<and> \<not> MaintenanceMode r then buildCacheHandlers env r
      else if Kind r \<noteq> ''redirect'' \<and> (RouteAuthGated env r \<or> routeAudienceRestricted r)
        then Some [cacheControlHandler ''private, no-store'']
      else Some [])"

definition encode_handler :: "route \<Rightarrow> json list" where
  "encode_handler r =
     (if \<not> CompressDisabled r \<and> Kind r \<noteq> ''redirect'' then
        [JObj [(''handler'', JStr ''encode''), (''encodings'', JObj [(''zstd'', JObj []), (''gzip'', JObj [])]),
               (''prefer'', jstrs [''zstd'', ''gzip'']), (''minimum_length'', JNum 1024)]]
      else [])"

fun unmarshal_any :: "json \<Rightarrow> json list option" where
  "unmarshal_any (JArr vs) = Some vs"
| "unmarshal_any JNull = Some []"
| "unmarshal_any _ = None"

definition custom_handlers :: "go_env \<Rightarrow> route \<Rightarrow> json list" where
  "custom_handlers env r =
     (if TrimSpace (CustomHandlers r) = '''' then []
      else case sanitize_custom env (CustomHandlers r) of
        Inl e \<Rightarrow> []
      | Inr safe \<Rightarrow>
          (if safe = '''' then []
           else case Option.bind (json_decode env safe) unmarshal_any of Some extra \<Rightarrow> extra | None \<Rightarrow> []))"

definition websocket_gate :: "route \<Rightarrow> json list" where
  "websocket_gate r =
     (if \<not> WebSocket r \<and> Kind r \<noteq> ''redirect'' \<and> \<not> MaintenanceMode r then
        [JObj [(''handler'', JStr ''subroute''), (''routes'', JArr [JObj
           [(''match'', JArr [JObj [(''header'', JObj [(''Connection'', jstrs [''*Upgrade*''])])]]),
            (''handle'', JArr [JObj [(''handler'', JStr ''static_response''), (''status_code'', JNum 426),
               (''headers'', JObj [(''Upgrade'', jstrs [''HTTP/2.0'']), (''Connection'', jstrs [''Upgrade''])]),
               (''body'', JStr (''WebSocket connections are disabled on this route.'' @ [CHR 10]))]]),
            (''terminal'', JBool True)]])]]
      else [])"

section \<open>Single sign-on\<close>

definition sso_sni :: "route \<Rightarrow> string" where
  "sso_sni r =
     (let d = dialFromURL (SSOProviderURL r) in
      case LastIndexByte d (CHR '':'') of Some i \<Rightarrow> take i d | None \<Rightarrow> d)"

definition sso_rp :: "route \<Rightarrow> (string \<times> json) list option" where
  "sso_rp r = do {
     dialHost \<leftarrow> (case SSODialTarget r of
        Some (h, p) \<Rightarrow> map_option (JoinHostPort h) (itoa p)
      | None \<Rightarrow> Some (dialFromURL (SSOProviderURL r)));
     Some ([(''handler'', JStr ''reverse_proxy''), (''upstreams'', JArr [JObj [(''dial'', JStr dialHost)]])]
       @ jopt (isHTTPSProvider (SSOProviderURL r)) ''transport'' (JObj [(''protocol'', JStr ''http''),
           (''tls'', JObj [(''server_name'', JStr (sso_sni r))])]))
   }"

definition sso_responses :: "route \<Rightarrow> json list" where
  "sso_responses r =
     (let h = ssoCopyHeadersHandle (SSOCopyHeaders r) in
      JObj ((''match'', status_match 2) # jopt (h \<noteq> []) ''routes'' (JArr [JObj [(''handle'', JArr h)]]))
      # (if SSOStrictMode r then
           [JObj [(''match'', status_match 3), (''routes'', JArr [JObj [(''handle'', JArr [JObj
              [(''handler'', JStr ''static_response''), (''status_code'', JNum 401),
               (''headers'', JObj [(''Content-Type'', jstrs [''application/json''])]),
               (''body'', JStr (''{'' @ [CHR 34] @ ''error'' @ [CHR 34] @ '':'' @ [CHR 34] @ ''unauthorized'' @ [CHR 34] @ ''}''))]])]])]]
         else []))"

definition sso_match :: "route \<Rightarrow> json list" where
  "sso_match r =
     (if SSOStrictMode r then []
      else [JObj ([(''method'', jstrs [''GET'', ''HEAD'']),
         (''not'', JArr [JObj [(''path'', jstrs
            [''*.js'', ''*.css'', ''*.map'',
             ''*.png'', ''*.jpg'', ''*.jpeg'', ''*.gif'', ''*.svg'', ''*.ico'', ''*.webp'', ''*.avif'',
             ''*.woff'', ''*.woff2'', ''*.ttf'', ''*.eot'', ''*.otf'',
             ''*.mp4'', ''*.webm'', ''*.mp3'', ''*.wav'',
             ''/pve2/*'', ''/static/*'', ''/assets/*'', ''/_next/static/*''])]])]
        @ jopt (SSOPaths r \<noteq> []) ''path'' (jstrs (SSOPaths r))
        @ jopt (SSOHosts r \<noteq> []) ''host'' (jstrs (SSOHosts r)))])"

definition sso_handlers :: "route \<Rightarrow> json list option" where
  "sso_handlers r =
     (if SSOProviderURL r = '''' then Some []
      else do {
        rp \<leftarrow> sso_rp r;
        Some [passthrough ''/outpost.goauthentik.io/*'' rp,
              forwardAuthGate
                (rp @ [(''request_buffers'', JNum authRequestBodyMaxBytes), (''headers'', fwd_request_headers),
                       (''handle_response'', JArr (sso_responses r))])
                ''/outpost.goauthentik.io/auth/caddy'' (sso_match r)]
      })"

definition portal_handlers :: "route \<Rightarrow> json list" where
  "portal_handlers r = (if PortalProtect r \<and> PortalDial r \<noteq> '''' then buildPortalForwardAuth r else [])"

section \<open>Basic authentication\<close>

definition http_basic :: "json list \<Rightarrow> json" where
  "http_basic accounts =
     JObj [(''handler'', JStr ''authentication''), (''providers'', JObj [(''http_basic'', JObj
       [(''accounts'', JArr accounts), (''hash'', JObj [(''algorithm'', JStr ''bcrypt'')])])])]"

definition account :: "string \<Rightarrow> string \<Rightarrow> json" where
  "account user hash = JObj [(''username'', JStr user), (''password'', JStr hash)]"

definition basic_auth_handler :: "route \<Rightarrow> json list" where
  "basic_auth_handler r =
     (if BasicAuthUsers r \<noteq> [] then
        [http_basic (map (\<lambda>u. account (ba_Username u) (ba_Hash u)) (BasicAuthUsers r))]
      else if BasicAuthUser r \<noteq> '''' \<and> BasicAuthBcrypt r \<noteq> '''' then
        [http_basic [account (BasicAuthUser r) (BasicAuthBcrypt r)]]
      else [])"

section \<open>The chain and its wrappers\<close>

definition primary_handlers :: "route \<Rightarrow> json list option" where
  "primary_handlers r = do {
     primary \<leftarrow> (if Kind r = ''redirect'' then Some (redirect_primary r) else proxy_primary r);
     if LocationRules r \<noteq> [] \<and> Kind r \<noteq> ''redirect'' \<and> \<not> MaintenanceMode r
     then map_option (\<lambda>p. [p]) (buildLocationSubroute r primary (pathRewriteHandlers r))
     else Some (pathRewriteHandlers r @ [primary])
   }"

definition chain_handlers :: "go_env \<Rightarrow> route \<Rightarrow> json list option" where
  "chain_handlers env r = do {
     waf \<leftarrow> waf_handler r;
     early \<leftarrow> buildEarlyLocationSubroute r;
     cache \<leftarrow> cache_block env r;
     sso \<leftarrow> sso_handlers r;
     primary \<leftarrow> primary_handlers r;
     Some (strip_identity # revoked_gate r @ panel_self_headers r @ buildCIDRBlock r @ buildGeoBlock r
       @ waf @ bearer_gate r @ early @ rate_limit_handler r @ cache @ encode_handler r
       @ custom_handlers env r @ websocket_gate r @ buildMTLSRBAC env r @ sso @ portal_handlers r
       @ basic_auth_handler r @ primary)
   }"

definition acl_routes :: "route \<Rightarrow> json list" where
  "acl_routes r =
     (if AccessDeny r \<noteq> [] then
        [JObj [(''match'', JArr [remote_ip (AccessDeny r)]), (''handle'', JArr [JObj static_403]), (''terminal'', JBool True)]]
      else [])
     @ (if \<not> AccessBlockAll r then []
        else if AccessAllow r \<noteq> [] then
          [JObj [(''match'', JArr [JObj [(''not'', JArr [remote_ip (AccessAllow r)])]]),
                 (''handle'', JArr [JObj static_403]), (''terminal'', JBool True)]]
        else [JObj [(''handle'', JArr [JObj static_403]), (''terminal'', JBool True)]])"

definition acl_wrap :: "route \<Rightarrow> json list \<Rightarrow> json list" where
  "acl_wrap r handlers =
     (if AccessBlockAll r \<or> AccessAllow r \<noteq> [] \<or> AccessDeny r \<noteq> [] then
        [JObj [(''handler'', JStr ''subroute''), (''routes'', JArr (acl_routes r @
           [JObj [(''handle'', JArr handlers), (''terminal'', JBool True)]]))]]
      else handlers)"

definition https_wrap :: "route \<Rightarrow> json list \<Rightarrow> json list" where
  "https_wrap r handlers = (if ForceHTTPS r then forceHTTPSWrap handlers (Hosts r) else handlers)"

text \<open>The first statement of \<open>BuildRoute\<close>: a client certificate is only ever asked for over TLS.\<close>

definition mtls_forces_https :: "route \<Rightarrow> route" where
  "mtls_forces_https r = (if RequireClientCert r then r\<lparr>ForceHTTPS := True\<rparr> else r)"

text \<open>The conditions under which the route is refused.\<close>

definition deny_handler :: "go_env \<Rightarrow> route \<Rightarrow> json option" where
  "deny_handler env r =
     (if CustomHandlerQuarantine env r \<noteq> None then Some (quarantineDenyHandler ''custom-handlers'')
      else if TenantTemplateQuarantine r \<noteq> None then Some (quarantineDenyHandler ''placeholder'')
      else if MTLSDenyOnMisconfig r \<or> PortalDenyOnMisconfig r \<or> (PortalProtect r \<and> PortalDial r = '''') \<or> WAFUnenforceable r
        then Some (misconfigDenyHandler r)
      else None)"

definition BuildRoute :: "go_env \<Rightarrow> route \<Rightarrow> json option" where
  "BuildRoute env r0 =
     (let r = mtls_forces_https r0 in
      case deny_handler env r of
        Some h \<Rightarrow> Some (emit r [h])
      | None \<Rightarrow>
          (if MaintenanceMode r
           then map_option (\<lambda>hs. emit r (https_wrap r hs)) (maintenance_handlers r)
           else map_option (\<lambda>hs. emit r (https_wrap r (acl_wrap r hs))) (chain_handlers env r)))"

end
