(* ===== verification/Route_Safety.thy ===== *)
theory Route_Safety
  imports Route_Builder Route_Order
begin

text \<open>
  What \<open>BuildRoute\<close> guarantees. The statements read the emitted JSON: \<open>inner_chain\<close> is the handler
  chain inside the wrappers for HTTPS and access lists, \<open>has_backend\<close> finds a proxy that is not an
  authentication subrequest, and \<open>guarded_by\<close> says that a gate stands in the chain with nothing in
  front of it that serves a backend. The names of the handlers a block can hold are collected in
  \<open>handler_names\<close>.
\<close>

named_theorems handler_names

section \<open>Reading the emitted route\<close>

definition descend :: "json list \<Rightarrow> json list" where
  "descend hs = (case hs of [h] \<Rightarrow> (if routes_of h = [] then hs else handle_of (last (routes_of h))) | _ \<Rightarrow> hs)"

definition inner_chain :: "json \<Rightarrow> json list" where
  "inner_chain j = descend (descend (handle_of j))"

definition has_backend :: "json \<Rightarrow> bool" where
  "has_backend v \<longleftrightarrow> json_any (\<lambda>p. is_handler ''reverse_proxy'' p \<and> jget p ''rewrite'' = None) v"

text \<open>The two paths a login page is served from, before the gate by necessity.\<close>

definition login_passthrough :: "json \<Rightarrow> bool" where
  "login_passthrough h \<longleftrightarrow> (\<exists>rt. routes_of h = [rt] \<and>
     (jget rt ''match'' = Some (JArr [JObj [(''path'', jstrs [''/outpost.goauthentik.io/*''])]]) \<or>
      jget rt ''match'' = Some (JArr [JObj [(''path'', jstrs [''/hpg-portal/*''])]])))"

definition harmless :: "json \<Rightarrow> bool" where
  "harmless h \<longleftrightarrow> \<not> has_backend h \<or> login_passthrough h"

definition guarded_by :: "(json \<Rightarrow> bool) \<Rightarrow> json \<Rightarrow> bool" where
  "guarded_by G j \<longleftrightarrow> (\<exists>pre g post. inner_chain j = pre @ g # post \<and> G g \<and> (\<forall>h \<in> set pre. harmless h))"

text \<open>A subroute whose one route, for every request, asks a verifier at the given path.\<close>

definition checks_every_request :: "string \<Rightarrow> json \<Rightarrow> bool" where
  "checks_every_request uri g \<longleftrightarrow> is_handler ''subroute'' g \<and>
     (\<exists>rt. routes_of g = [rt] \<and> jget rt ''match'' = None \<and>
        (\<exists>p \<in> set (handle_of rt). is_handler ''reverse_proxy'' p \<and>
           jget p ''rewrite'' = Some (JObj [(''method'', JStr ''GET''), (''uri'', JStr uri)])))"

text \<open>A subroute that answers 403 to every request without the given bearer.\<close>

definition demands_bearer :: "string \<Rightarrow> json \<Rightarrow> bool" where
  "demands_bearer secret g \<longleftrightarrow> is_handler ''subroute'' g \<and>
     (\<exists>rt h. routes_of g = [rt] \<and>
        jget rt ''match'' = Some (JArr [JObj [(''not'', JArr [JObj [(''header'', JObj [(''Authorization'', jstrs [''Bearer '' @ secret])])]])]]) \<and>
        handle_of rt = [h] \<and> is_handler ''static_response'' h \<and> jget h ''status_code'' = Some (JNum 403))"

section \<open>Handlers inside a block\<close>



lemma has_handler_strs: "(\<And>kv. kv \<in> set kvs \<Longrightarrow> \<exists>ss. snd kv = jstrs ss) \<Longrightarrow> \<not> has_handler n (JObj kvs)"
proof -
  assume strs: "\<And>kv. kv \<in> set kvs \<Longrightarrow> \<exists>ss. snd kv = jstrs ss"
  have "map_of kvs k \<noteq> Some (JStr n)" for k
    using strs by (fastforce dest!: map_of_SomeD simp: jstrs_def)
  then show ?thesis using strs by (auto simp: has_handler_JObj) (metis has_handler_jstrs snd_conv)
qed

lemma has_backend_handler: "has_backend v \<Longrightarrow> has_handler ''reverse_proxy'' v"
  unfolding has_backend_def has_handler_def by (erule json_any_mono) simp

lemma jstrs_not_handler [simp]: "jstrs ss \<noteq> JStr n"
  by (simp add: jstrs_def)

lemma html_headers_names [simp]: "\<not> has_handler n html_headers"
  by (simp add: html_headers_def has_handler_JObj)

lemma text_headers_names: "(\<And>kv. kv \<in> set extra \<Longrightarrow> \<exists>ss. snd kv = jstrs ss) \<Longrightarrow> \<not> has_handler n (text_headers extra)"
  unfolding text_headers_def by (rule has_handler_strs) auto

lemma remote_ip_names [simp]: "\<not> has_handler n (remote_ip ranges)"
  by (simp add: remote_ip_def has_handler_JObj)

lemma geoBlockResponse_names [handler_names]: "has_handler n (geoBlockResponse r) \<Longrightarrow> n = ''static_response''"
  by (auto simp: geoBlockResponse_def Let_def has_handler_JObj split: if_split_asm)

lemma static_403_names [handler_names]: "has_handler n (JObj static_403) \<longleftrightarrow> n = ''static_response''"
  by (auto simp: static_403_def has_handler_JObj)

lemma strip_identity_names [handler_names]: "has_handler n strip_identity \<Longrightarrow> n = ''headers''"
  by (auto simp: strip_identity_def has_handler_JObj)

lemma revoked_gate_names [handler_names]:
  "h \<in> set (revoked_gate r) \<Longrightarrow> has_handler n h \<Longrightarrow> n \<in> {''subroute'', ''static_response''}"
  by (auto simp: revoked_gate_def has_handler_JObj split: if_split_asm)

lemma panel_self_headers_names [handler_names]:
  "h \<in> set (panel_self_headers r) \<Longrightarrow> has_handler n h \<Longrightarrow> n = ''headers''"
  by (auto simp: panel_self_headers_def has_handler_JObj split: if_split_asm)

lemma buildCIDRBlock_names [handler_names]:
  "h \<in> set (buildCIDRBlock r) \<Longrightarrow> has_handler n h \<Longrightarrow> n \<in> {''subroute'', ''static_response''}"
  by (auto simp: buildCIDRBlock_def Let_def has_handler_JObj split: if_split_asm dest: geoBlockResponse_names)

lemma buildGeoBlock_names [handler_names]:
  "h \<in> set (buildGeoBlock r) \<Longrightarrow> has_handler n h \<Longrightarrow> n \<in> {''subroute'', ''static_response''}"
  by (auto simp: buildGeoBlock_def Let_def has_handler_JObj map_of_jopt split: if_split_asm dest: geoBlockResponse_names)

lemma waf_handler_names [handler_names]:
  "waf_handler r = Some hs \<Longrightarrow> h \<in> set hs \<Longrightarrow> has_handler n h \<Longrightarrow> n = ''waf''"
  by (auto simp: waf_handler_def Let_def has_handler_JObj split: if_split_asm Option.bind_split_asm)

lemma bearer_gate_names [handler_names]:
  "h \<in> set (bearer_gate r) \<Longrightarrow> has_handler n h \<Longrightarrow> n \<in> {''subroute'', ''static_response''}"
  by (auto simp: bearer_gate_def has_handler_JObj split: if_split_asm)

lemma rate_limit_handler_names [handler_names]:
  "h \<in> set (rate_limit_handler r) \<Longrightarrow> has_handler n h \<Longrightarrow> n = ''rate_limit''"
  by (auto simp: rate_limit_handler_def has_handler_JObj split: if_split_asm)

lemma cacheControlHandler_names [handler_names]: "has_handler n (cacheControlHandler v) \<Longrightarrow> n = ''headers''"
  by (auto simp: cacheControlHandler_def has_handler_JObj)

lemma encode_handler_names [handler_names]:
  "h \<in> set (encode_handler r) \<Longrightarrow> has_handler n h \<Longrightarrow> n = ''encode''"
  by (auto simp: encode_handler_def has_handler_JObj split: if_split_asm)

lemma websocket_gate_names [handler_names]:
  "h \<in> set (websocket_gate r) \<Longrightarrow> has_handler n h \<Longrightarrow> n \<in> {''subroute'', ''static_response''}"
  by (auto simp: websocket_gate_def has_handler_JObj split: if_split_asm)

lemma basic_auth_names [handler_names]:
  "h \<in> set (basic_auth_handler r) \<Longrightarrow> has_handler n h \<Longrightarrow> n = ''authentication''"
  by (auto simp: basic_auth_handler_def http_basic_def account_def has_handler_JObj split: if_split_asm)

lemma locations_names:
  assumes "location_entries [''block'', ''redirect''] None rules = Some es" "e \<in> set es" "has_handler n e"
  shows "n = ''static_response''"
  using assms
proof (induction rules arbitrary: es)
  case (Cons rule rules)
  show ?case
  proof (cases "loc_Action rule \<in> set [''block'', ''redirect'']")
    case False
    with Cons show ?thesis by simp
  next
    case True
    with Cons.prems obtain b bs where b: "buildLocationRuleRoute rule None = Some b"
      "location_entries [''block'', ''redirect''] None rules = Some bs"
      "es = (case b of Some entry \<Rightarrow> entry # bs | None \<Rightarrow> bs)"
      by (auto split: Option.bind_split_asm)
    show ?thesis
    proof (cases "e \<in> set bs")
      case True
      then show ?thesis using Cons.IH b(2) Cons.prems(3) by blast
    next
      case False
      with b(3) Cons.prems(2) have "b = Some e" by (auto split: option.split_asm)
      with b(1) True obtain hs where "location_handle rule None = Some (Some hs)"
        "e = JObj [(''match'', JArr [JObj [(''path'', jstrs (locationPathMatchers (loc_Path rule)))]]),
                   (''handle'', JArr hs), (''terminal'', JBool True)]"
        by (auto simp: buildLocationRuleRoute_def Let_def split: if_split_asm Option.bind_split_asm)
      with Cons.prems(3) True show ?thesis
        by (auto simp: location_handle_def has_handler_JObj static_403_def split: if_split_asm)
    qed
  qed
qed simp

lemma early_names [handler_names]:
  "buildEarlyLocationSubroute r = Some hs \<Longrightarrow> h \<in> set hs \<Longrightarrow> has_handler n h \<Longrightarrow> n \<in> {''subroute'', ''static_response''}"
  by (auto simp: buildEarlyLocationSubroute_def has_handler_JObj split: if_split_asm Option.bind_split_asm dest: locations_names)

lemma credentialledMatch_names [simp]: "m \<in> set credentialledMatch \<Longrightarrow> \<not> has_handler n m"
  by (auto simp: credentialledMatch_def has_handler_JObj)

text \<open>The routes whose responses a node may store.\<close>

definition stores :: "go_env \<Rightarrow> route \<Rightarrow> bool" where
  "stores env r \<longleftrightarrow> \<not> RouteAuthGated env r \<and> CacheEnabled r \<and> CachePublic r \<and> CacheModuleAvailable r"

lemma cache_block_names [handler_names]:
  assumes "cache_block env r = Some hs" "h \<in> set hs" "has_handler n h"
  shows "n \<in> {''subroute'', ''headers''} \<or> (n = ''cache'' \<and> stores env r)"
  using assms
  by (auto simp: cache_block_def buildCacheHandlers_def stores_def Let_def has_handler_JObj
      split: if_split_asm Option.bind_split_asm dest: cacheControlHandler_names)

section \<open>Custom handlers\<close>

text \<open>What the builder needs of \<open>encoding/json\<close>: a decoded value survives encoding and decoding, and a
  decoded object has each member once.\<close>

fun json_wf :: "json \<Rightarrow> bool" where
  "json_wf (JObj kvs) \<longleftrightarrow> distinct (map fst kvs) \<and> (\<forall>kv \<in> set kvs. json_wf (snd kv))"
| "json_wf (JArr vs) \<longleftrightarrow> (\<forall>v \<in> set vs. json_wf v)"
| "json_wf _ \<longleftrightarrow> True"

definition codec_ok :: "go_env \<Rightarrow> bool" where
  "codec_ok env \<longleftrightarrow>
     (\<forall>t v s. json_decode env t = Some v \<longrightarrow> json_encode env v = Some s \<longrightarrow> json_decode env s = Some v) \<and>
     (\<forall>v s. json_decode env s = Some v \<longrightarrow> json_wf v)"

lemma no_handler_key: "''handler'' \<notin> json_keys v \<Longrightarrow> \<not> has_handler n v"
proof (induction v)
  case (JObj kvs)
  then have "map_of kvs ''handler'' = None" by (force simp: map_of_eq_None_iff)
  moreover have "\<not> has_handler n (snd kv)" if "kv \<in> set kvs" for kv
    using JObj that by (cases kv) fastforce
  ultimately show ?case by (simp add: has_handler_JObj)
qed auto

lemma hobj_safe_names:
  assumes "hobj_safe h" "json_wf (JObj h)" "has_handler n (JObj h)"
  shows "n \<in> set [''headers'', ''encode'', ''rewrite'', ''vars'', ''request_body'']"
proof -
  have name: "hobj_name h \<in> set [''headers'', ''encode'', ''rewrite'', ''vars'', ''request_body'']"
    using assms(1) unfolding hobj_safe_def by blast
  then obtain v where v: "map_of h ''handler'' = Some (JStr v)" "hobj_name h = v"
    by (cases "map_of h ''handler''"; cases "the (map_of h ''handler'')") (auto simp: hobj_name_def)
  have "\<not> has_handler n w" if kw: "(k, w) \<in> set h" for k w
  proof (cases "k = ''handler''")
    case True
    then have "w = JStr v" using kw v(1) assms(2) by (auto simp: map_of_eq_Some_iff)
    then show ?thesis by simp
  next
    case False
    then have "json_keys w \<inter> set nestedHandlerKeys = {}"
      using assms(1) kw unfolding hobj_safe_def by blast
    then show ?thesis by (intro no_handler_key) (auto simp: nestedHandlerKeys_def)
  qed
  then have "map_of h ''handler'' = Some (JStr n)"
    using assms(3) unfolding has_handler_JObj by auto
  with v name show ?thesis by simp
qed

lemma custom_handlers_names [handler_names]:
  assumes "codec_ok env" "h \<in> set (custom_handlers env r)" "has_handler n h"
  shows "n \<in> set [''headers'', ''encode'', ''rewrite'', ''vars'', ''request_body'']"
proof -
  from assms(2) obtain safe extra where s: "TrimSpace (CustomHandlers r) \<noteq> ''''"
      "sanitize_custom env (CustomHandlers r) = Inr safe"
      "Option.bind (json_decode env safe) unmarshal_any = Some extra" "h \<in> set extra"
    unfolding custom_handlers_def
    by (cases "sanitize_custom env (CustomHandlers r)"; simp split: if_split_asm option.split_asm) metis
  obtain arr where dec: "json_decode env (TrimSpace (CustomHandlers r)) = Some (marshal_maps arr)"
    and arr: "json_encode env (marshal_maps arr) = Some safe"
    "\<forall>h \<in> set (case arr of Some hs \<Rightarrow> hs | None \<Rightarrow> []). \<exists>i. check_entry (regexp_compiles env) i h = None"
    using SanitizeCustomHandlers_value [OF s(2,1)] by blast
  then have "json_decode env safe = Some (marshal_maps arr)" "json_wf (marshal_maps arr)"
    using assms(1) unfolding codec_ok_def by metis+
  then obtain hs where hs: "arr = Some hs" "extra = map JObj hs" "\<forall>h \<in> set hs. json_wf (JObj h)"
    using s(3,4) by (cases arr) (auto simp: marshal_maps_def)
  then obtain m where m: "m \<in> set hs" "h = JObj m" using s(4) by auto
  then obtain i where "check_entry (regexp_compiles env) i m = None" using arr(2) hs(1) by auto
  from hobj_safe_names [OF check_entry_safe [OF this]] show ?thesis using m hs(3) assms(3) by simp
qed

section \<open>Gates hold no backend\<close>

lemma has_backend_JObj:
  "has_backend (JObj kvs) \<longleftrightarrow>
     (map_of kvs ''handler'' = Some (JStr ''reverse_proxy'') \<and> map_of kvs ''rewrite'' = None) \<or>
     (\<exists>kv \<in> set kvs. has_backend (snd kv))"
  by (simp add: has_backend_def is_handler_JObj)

lemma has_backend_JArr [simp]: "has_backend (JArr vs) \<longleftrightarrow> (\<exists>v \<in> set vs. has_backend v)"
  by (simp add: has_backend_def)

lemma has_backend_scalar [simp]:
  "\<not> has_backend JNull" "\<not> has_backend (JBool b)" "\<not> has_backend (JNum i)"
  "\<not> has_backend (JFrac m e)" "\<not> has_backend (JStr s)" "\<not> has_backend (jstrs ss)"
  by (auto simp: has_backend_def jstrs_def)

lemma status_match_backend [simp]: "\<not> has_backend (status_match n)"
  by (simp add: status_match_def has_backend_JObj)

lemma fwd_headers_backend [simp]: "\<not> has_backend fwd_request_headers"
  by (simp add: fwd_request_headers_def has_backend_JObj)

lemma authHeaders_backend [simp]: "\<not> has_backend (authHeaders r s)"
  by (auto simp: authHeaders_def has_backend_JObj)

lemma static_403_backend [simp]: "\<not> has_backend (JObj static_403)"
  by (simp add: static_403_def has_backend_JObj)

lemma buildMTLSRBAC_backend: "h \<in> set (buildMTLSRBAC env r) \<Longrightarrow> \<not> has_backend h"
  by (auto simp: buildMTLSRBAC_def Let_def has_backend_JObj static_403_def split: if_split_asm)

lemma forwardAuthGate_backend:
  assumes "\<not> has_backend (JArr match)" "\<And>kv. kv \<in> set fwd \<Longrightarrow> \<not> has_backend (snd kv)"
  shows "\<not> has_backend (forwardAuthGate fwd uri match)"
  using assms by (auto simp: forwardAuthGate_def has_backend_JObj map_of_jopt)

lemma has_backend_strs: "(\<And>kv. kv \<in> set kvs \<Longrightarrow> \<exists>ss. snd kv = jstrs ss) \<Longrightarrow> \<not> has_backend (JObj kvs)"
  using has_handler_strs has_backend_handler by blast

lemma ssoCopyHeaders_backend: "h \<in> set (ssoCopyHeadersHandle hdrs) \<Longrightarrow> \<not> has_backend h"
proof -
  have "\<not> has_backend (JObj (map (\<lambda>k. (k, jstrs [f k])) ks))" for f :: "string \<Rightarrow> string" and ks
    by (rule has_backend_strs) auto
  then show "h \<in> set (ssoCopyHeadersHandle hdrs) \<Longrightarrow> \<not> has_backend h"
    by (auto simp: ssoCopyHeadersHandle_def Let_def has_backend_JObj split: if_split_asm)
qed

lemma sso_responses_backend: "h \<in> set (sso_responses r) \<Longrightarrow> \<not> has_backend h"
  using ssoCopyHeaders_backend by (auto simp: sso_responses_def Let_def has_backend_JObj map_of_jopt split: if_split_asm)

lemma sso_match_backend: "\<not> has_backend (JArr (sso_match r))"
  by (auto simp: sso_match_def has_backend_JObj map_of_jopt)

lemma sso_rp_backend: "sso_rp r = Some rp \<Longrightarrow> kv \<in> set rp \<Longrightarrow> \<not> has_backend (snd kv)"
  by (auto simp: sso_rp_def has_backend_JObj split: Option.bind_split_asm)

lemma portal_rp_backend: "kv \<in> set (portal_rp r) \<Longrightarrow> \<not> has_backend (snd kv)"
  by (auto simp: portal_rp_def has_backend_JObj map_of_jopt)

lemma passthrough_login:
  "p = ''/outpost.goauthentik.io/*'' \<or> p = ''/hpg-portal/*'' \<Longrightarrow> harmless (passthrough p rp)"
  by (auto simp: harmless_def login_passthrough_def passthrough_def routes_of_def)

lemma forwardAuthGate_checks:
  assumes "map_of fwd ''handler'' = Some (JStr ''reverse_proxy'')" "map_of fwd ''rewrite'' = None"
  shows "checks_every_request uri (forwardAuthGate fwd uri [])"
  using assms by (simp add: checks_every_request_def forwardAuthGate_def is_handler_JObj routes_of_def
      handle_of_def map_add_def)

lemma sso_handlers_gate:
  assumes "sso_handlers r = Some hs" "SSOProviderURL r \<noteq> ''''"
  obtains p g where "hs = [p, g]" "harmless p" "\<not> has_backend g"
    "SSOStrictMode r \<Longrightarrow> checks_every_request ''/outpost.goauthentik.io/auth/caddy'' g"
proof -
  from assms obtain rp where rp: "sso_rp r = Some rp"
    by (auto simp: sso_handlers_def split: Option.bind_split_asm)
  let ?fwd = "rp @ [(''request_buffers'', JNum authRequestBodyMaxBytes), (''headers'', fwd_request_headers),
                       (''handle_response'', JArr (sso_responses r))]"
  let ?g = "forwardAuthGate ?fwd ''/outpost.goauthentik.io/auth/caddy'' (sso_match r)"
  have hs: "hs = [passthrough ''/outpost.goauthentik.io/*'' rp, ?g]" using assms rp by (simp add: sso_handlers_def)
  have 1: "harmless (passthrough ''/outpost.goauthentik.io/*'' rp)" by (rule passthrough_login) simp
  have 2: "\<not> has_backend ?g"
  proof (rule forwardAuthGate_backend [OF sso_match_backend])
    show "\<not> has_backend (snd kv)" if "kv \<in> set ?fwd" for kv
      using that sso_rp_backend [OF rp, of kv] sso_responses_backend by auto
  qed
  have "map_of ?fwd ''handler'' = Some (JStr ''reverse_proxy'')" "map_of ?fwd ''rewrite'' = None"
    using rp by (auto simp: sso_rp_def map_of_jopt map_of_jopt_append split: Option.bind_split_asm)
  then have "checks_every_request ''/outpost.goauthentik.io/auth/caddy'' ?g" if "SSOStrictMode r"
    using that forwardAuthGate_checks by (simp add: sso_match_def)
  then show thesis using that hs 1 2 by blast
qed

lemma portal_gate:
  assumes "PortalProtect r" "PortalDial r \<noteq> ''''"
  obtains p g where "portal_handlers r = [p, g]" "harmless p" "\<not> has_backend g"
    "PortalPublicPaths r = [] \<Longrightarrow> checks_every_request ''/hpg-portal/verify'' g"
proof -
  let ?fwd = "portal_rp r @ [(''request_buffers'', JNum authRequestBodyMaxBytes), (''headers'', fwd_request_headers),
           (''handle_response'', JArr [JObj [(''match'', status_match 2)]])]"
  define m where "m = (if PortalPublicPaths r \<noteq> [] then
           [JObj [(''method'', jstrs [''GET'', ''HEAD'']), (''not'', JArr [JObj [(''path'', jstrs (PortalPublicPaths r))]])],
            JObj [(''not'', JArr [JObj [(''method'', jstrs [''GET'', ''HEAD''])]])]]
         else [])"
  have m: "portal_handlers r = [passthrough ''/hpg-portal/*'' (portal_rp r), forwardAuthGate ?fwd ''/hpg-portal/verify'' m]"
      "\<not> has_backend (JArr m)" "PortalPublicPaths r = [] \<Longrightarrow> m = []"
    using assms by (auto simp: portal_handlers_def buildPortalForwardAuth_def has_backend_JObj m_def)
  have 1: "harmless (passthrough ''/hpg-portal/*'' (portal_rp r))" by (rule passthrough_login) simp
  have 2: "\<not> has_backend (forwardAuthGate ?fwd ''/hpg-portal/verify'' m)"
    by (rule forwardAuthGate_backend [OF m(2)]) (auto dest: portal_rp_backend simp: has_backend_JObj)
  have "map_of ?fwd ''handler'' = Some (JStr ''reverse_proxy'')" "map_of ?fwd ''rewrite'' = None"
    by (auto simp: portal_rp_def map_of_jopt map_of_jopt_append)
  then have "checks_every_request ''/hpg-portal/verify'' (forwardAuthGate ?fwd ''/hpg-portal/verify'' m)" if "PortalPublicPaths r = []"
    using that m(3) forwardAuthGate_checks by simp
  then show thesis using that m(1) 1 2 by blast
qed

definition rbac_uri :: "route \<Rightarrow> string" where
  "rbac_uri r = ''/internal/mtls-rbac/'' @ (case Atoi (ID r) of Some n \<Rightarrow> Itoa n | None \<Rightarrow> Itoa 0)"

lemma rbac_gate:
  assumes "MTLSPathRules r \<noteq> []" "PanelBaseURL r \<noteq> ''''"
  obtains g where "buildMTLSRBAC env r = [g]" "checks_every_request (rbac_uri r) g"
proof -
  have 1: "buildMTLSRBAC env r = [hd (buildMTLSRBAC env r)]"
    using assms by (simp add: buildMTLSRBAC_def Let_def)
  have "checks_every_request (rbac_uri r) (hd (buildMTLSRBAC env r))"
    using assms by (simp add: buildMTLSRBAC_def Let_def checks_every_request_def is_handler_JObj routes_of_def
        handle_of_def rbac_uri_def conj_disj_distribR ex_disj_distrib)
  with 1 show thesis by (rule that)
qed

lemma bearer_demanded:
  assumes "External r" "ProxySecret r \<noteq> ''''"
  obtains g where "bearer_gate r = [g]" "demands_bearer (ProxySecret r) g"
proof -
  have 1: "bearer_gate r = [hd (bearer_gate r)]" using assms by (simp add: bearer_gate_def)
  have "demands_bearer (ProxySecret r) (hd (bearer_gate r))"
    using assms by (simp add: bearer_gate_def demands_bearer_def is_handler_JObj routes_of_def handle_of_def)
  with 1 show thesis by (rule that)
qed

lemma basic_gate:
  assumes "BasicAuthUsers r \<noteq> [] \<or> (BasicAuthUser r \<noteq> '''' \<and> BasicAuthBcrypt r \<noteq> '''')"
  obtains g where "basic_auth_handler r = [g]" "is_handler ''authentication'' g"
proof -
  have "basic_auth_handler r = [hd (basic_auth_handler r)]" using assms by (auto simp: basic_auth_handler_def)
  moreover have "is_handler ''authentication'' (hd (basic_auth_handler r))"
    using assms by (auto simp: basic_auth_handler_def http_basic_def is_handler_JObj)
  ultimately show thesis by (rule that)
qed

section \<open>The chain\<close>

lemma harmless_no_proxy: "\<not> has_handler ''reverse_proxy'' h \<Longrightarrow> harmless h"
  using has_backend_handler by (auto simp: harmless_def)

text \<open>Everything in front of the primary handler, block by block.\<close>

definition front_handlers :: "go_env \<Rightarrow> route \<Rightarrow> json list \<Rightarrow> json list \<Rightarrow> json list \<Rightarrow> json list" where
  "front_handlers env r waf early cache =
     strip_identity # revoked_gate r @ panel_self_headers r @ buildCIDRBlock r @ buildGeoBlock r
       @ waf @ bearer_gate r @ early @ rate_limit_handler r @ cache @ encode_handler r
       @ custom_handlers env r @ websocket_gate r"

lemma front_names:
  assumes "codec_ok env" "waf_handler r = Some waf" "buildEarlyLocationSubroute r = Some early"
    "cache_block env r = Some cache" "h \<in> set (front_handlers env r waf early cache)"
    and p: "has_handler n h"
  shows "n \<noteq> ''reverse_proxy'' \<and> (n = ''cache'' \<longrightarrow> stores env r)"
proof -
  from assms(5) consider "h = strip_identity" | "h \<in> set (revoked_gate r)" | "h \<in> set (panel_self_headers r)"
    | "h \<in> set (buildCIDRBlock r)" | "h \<in> set (buildGeoBlock r)" | "h \<in> set waf" | "h \<in> set (bearer_gate r)"
    | "h \<in> set early" | "h \<in> set (rate_limit_handler r)" | "h \<in> set cache" | "h \<in> set (encode_handler r)"
    | "h \<in> set (custom_handlers env r)" | "h \<in> set (websocket_gate r)"
    by (auto simp: front_handlers_def)
  then show ?thesis
  proof cases
    case 1 then show ?thesis using strip_identity_names p by fastforce
  next
    case 2 then show ?thesis using revoked_gate_names p by fastforce
  next
    case 3 then show ?thesis using panel_self_headers_names p by fastforce
  next
    case 4 then show ?thesis using buildCIDRBlock_names p by fastforce
  next
    case 5 then show ?thesis using buildGeoBlock_names p by fastforce
  next
    case 6 then show ?thesis using waf_handler_names [OF assms(2)] p by fastforce
  next
    case 7 then show ?thesis using bearer_gate_names p by fastforce
  next
    case 8 then show ?thesis using early_names [OF assms(3)] p by fastforce
  next
    case 9 then show ?thesis using rate_limit_handler_names p by fastforce
  next
    case 10 then show ?thesis using cache_block_names [OF assms(4)] p by fastforce
  next
    case 11 then show ?thesis using encode_handler_names p by fastforce
  next
    case 12 then show ?thesis using custom_handlers_names [OF assms(1)] p by fastforce
  next
    case 13 then show ?thesis using websocket_gate_names p by fastforce
  qed
qed

lemma front_harmless:
  assumes "codec_ok env" "waf_handler r = Some waf" "buildEarlyLocationSubroute r = Some early"
    "cache_block env r = Some cache" "h \<in> set (front_handlers env r waf early cache)"
  shows "\<not> has_handler ''reverse_proxy'' h"
  using front_names [OF assms] by blast

end
