(* ===== verification/Route_Guarantees.thy ===== *)
theory Route_Guarantees
  imports Route_Safety
begin

text \<open>
  The lemmas behind the guarantees of \<open>BuildRoute\<close>: the shape of the chain and of the wrappers around
  it, the independence of every block from \<open>ForceHTTPS\<close>, the gates with what stands in front of them,
  and the handlers the blocks behind the gates can hold.
\<close>

section \<open>The shape of the chain\<close>

lemma chain_shape:
  assumes "chain_handlers env r = Some hs"
  obtains waf early cache sso primary where
    "waf_handler r = Some waf" "buildEarlyLocationSubroute r = Some early" "cache_block env r = Some cache"
    "sso_handlers r = Some sso" "primary_handlers r = Some primary"
    "hs = front_handlers env r waf early cache @ buildMTLSRBAC env r @ sso @ portal_handlers r
       @ basic_auth_handler r @ primary"
  using assms unfolding chain_handlers_def front_handlers_def
  by (simp split: Option.bind_split_asm)

lemma primary_nonempty: "primary_handlers r = Some ps \<Longrightarrow> ps \<noteq> []"
  by (auto simp: primary_handlers_def split: Option.bind_split_asm if_split_asm)

lemma chain_length:
  assumes "chain_handlers env r = Some hs"
  shows "2 \<le> length hs"
proof -
  obtain waf early cache sso primary where
    "primary_handlers r = Some primary"
    "hs = front_handlers env r waf early cache @ buildMTLSRBAC env r @ sso @ portal_handlers r
       @ basic_auth_handler r @ primary"
    by (rule chain_shape [OF assms])
  with primary_nonempty show ?thesis by (cases primary) (auto simp: front_handlers_def)
qed

lemma handle_of_emit [simp]: "handle_of (emit r hs) = hs"
  by (simp add: handle_of_def emit_def)

lemma descend_long: "2 \<le> length hs \<Longrightarrow> descend hs = hs"
  by (auto simp: descend_def split: list.split)

lemma descend_https: "descend (forceHTTPSWrap hs hosts) = hs"
  by (simp add: descend_def forceHTTPSWrap_def routes_of_def handle_of_def)

lemma descend_acl: "2 \<le> length hs \<Longrightarrow> descend (acl_wrap r hs) = hs"
  by (auto simp: acl_wrap_def descend_long) (simp_all add: descend_def routes_of_def handle_of_def)

lemma acl_wrap_cases: "acl_wrap r hs = hs \<or> length (acl_wrap r hs) = 1"
  by (simp add: acl_wrap_def)

lemma inner_chain_wrapped:
  assumes "2 \<le> length hs"
  shows "inner_chain (emit r' (https_wrap r (acl_wrap r hs))) = hs"
  using assms by (simp add: inner_chain_def https_wrap_def descend_https descend_acl descend_long)

lemma has_backend_wrapped:
  "has_backend (emit r' (https_wrap r (acl_wrap r hs))) \<longleftrightarrow> (\<exists>h \<in> set hs. has_backend h)"
proof -
  have match: "\<not> has_backend (route_match r')"
    by (auto simp: route_match_def has_backend_JObj Let_def split: if_split_asm)
  have acl: "\<not> has_backend a" if "a \<in> set (acl_routes r)" for a
    using that by (auto simp: acl_routes_def has_backend_JObj remote_ip_def static_403_def split: if_split_asm)
  have "(\<exists>h \<in> set (acl_wrap r hs). has_backend h) \<longleftrightarrow> (\<exists>h \<in> set hs. has_backend h)"
    using acl by (auto simp: acl_wrap_def has_backend_JObj)
  moreover have "(\<exists>h \<in> set (https_wrap r gs). has_backend h) \<longleftrightarrow> (\<exists>h \<in> set gs. has_backend h)" for gs
    by (simp add: https_wrap_def forceHTTPSWrap_def has_backend_JObj)
  ultimately show ?thesis using match by (simp add: emit_def has_backend_JObj)
qed

section \<open>Reading \<open>BuildRoute\<close>\<close>

text \<open>No block of the chain reads \<open>ForceHTTPS\<close>.\<close>

lemma front_ForceHTTPS:
  "revoked_gate (r\<lparr>ForceHTTPS := b\<rparr>) = revoked_gate r"
  "panel_self_headers (r\<lparr>ForceHTTPS := b\<rparr>) = panel_self_headers r"
  "geoBlockResponse (r\<lparr>ForceHTTPS := b\<rparr>) = geoBlockResponse r"
  "geo_countries (r\<lparr>ForceHTTPS := b\<rparr>) = geo_countries r"
  "waf_handler (r\<lparr>ForceHTTPS := b\<rparr>) = waf_handler r"
  "bearer_gate (r\<lparr>ForceHTTPS := b\<rparr>) = bearer_gate r"
  "buildEarlyLocationSubroute (r\<lparr>ForceHTTPS := b\<rparr>) = buildEarlyLocationSubroute r"
  "rate_limit_handler (r\<lparr>ForceHTTPS := b\<rparr>) = rate_limit_handler r"
  "RouteAuthGated env (r\<lparr>ForceHTTPS := b\<rparr>) = RouteAuthGated env r"
  "routeAudienceRestricted (r\<lparr>ForceHTTPS := b\<rparr>) = routeAudienceRestricted r"
  "encode_handler (r\<lparr>ForceHTTPS := b\<rparr>) = encode_handler r"
  "custom_handlers env (r\<lparr>ForceHTTPS := b\<rparr>) = custom_handlers env r"
  "websocket_gate (r\<lparr>ForceHTTPS := b\<rparr>) = websocket_gate r"
  by (simp_all add: Let_def revoked_gate_def panel_self_headers_def geoBlockResponse_def geo_countries_def waf_handler_def
      bearer_gate_def buildEarlyLocationSubroute_def rate_limit_handler_def RouteAuthGated_def
      routeAudienceRestricted_def encode_handler_def custom_handlers_def websocket_gate_def)

lemma SSODialTarget_ForceHTTPS: "SSODialTarget (r\<lparr>ForceHTTPS := b\<rparr>) = SSODialTarget r"
  by (auto simp: SSODialTarget_def split: option.split)

lemma sso_ForceHTTPS:
  "sso_rp (r\<lparr>ForceHTTPS := b\<rparr>) = sso_rp r"
  "sso_responses (r\<lparr>ForceHTTPS := b\<rparr>) = sso_responses r"
  "sso_match (r\<lparr>ForceHTTPS := b\<rparr>) = sso_match r"
  by (simp_all add: Let_def sso_rp_def SSODialTarget_ForceHTTPS sso_sni_def sso_responses_def sso_match_def
      cong: option.case_cong)

lemma gates_ForceHTTPS:
  "buildGeoBlock (r\<lparr>ForceHTTPS := b\<rparr>) = buildGeoBlock r"
  "buildCIDRBlock (r\<lparr>ForceHTTPS := b\<rparr>) = buildCIDRBlock r"
  "cache_block env (r\<lparr>ForceHTTPS := b\<rparr>) = cache_block env r"
  "buildMTLSRBAC env (r\<lparr>ForceHTTPS := b\<rparr>) = buildMTLSRBAC env r"
  "sso_handlers (r\<lparr>ForceHTTPS := b\<rparr>) = sso_handlers r"
  "portal_handlers (r\<lparr>ForceHTTPS := b\<rparr>) = portal_handlers r"
  "basic_auth_handler (r\<lparr>ForceHTTPS := b\<rparr>) = basic_auth_handler r"
  by (simp_all add: Let_def front_ForceHTTPS buildGeoBlock_def buildCIDRBlock_def cache_block_def buildCacheHandlers_def
      buildMTLSRBAC_def authHeaders_def sso_handlers_def sso_ForceHTTPS
      portal_handlers_def buildPortalForwardAuth_def portal_rp_def basic_auth_handler_def cong: if_cong)

lemma primary_ForceHTTPS: "primary_handlers (r\<lparr>ForceHTTPS := b\<rparr>) = primary_handlers r"
  by (simp add: Let_def primary_handlers_def redirect_primary_def proxy_primary_def proxy_upstreams_def dns_resolver_def
      dynamic_upstreams_def proxy_balancing_def has_dyn_upstreams_def buildLoadBalancing_def buildHealthChecks_def
      health_active_def health_passive_def proxy_transport_def upstream_tls_def proxy_headers_def
      proxy_set_headers_def buildLocationSubroute_def pathRewriteHandlers_def cong: if_cong)

lemma deny_ForceHTTPS: "deny_handler env (r\<lparr>ForceHTTPS := b\<rparr>) = deny_handler env r"
  by (simp add: Let_def deny_handler_def CustomHandlerQuarantine_def TenantTemplateQuarantine_def WAFUnenforceable_def
      misconfigDenyHandler_def del: first_err.simps cong: if_cong)

lemma mtls_forces_https_sel [simp]:
  "deny_handler env (mtls_forces_https r) = deny_handler env r"
  "MaintenanceMode (mtls_forces_https r) = MaintenanceMode r"
  "chain_handlers env (mtls_forces_https r) = chain_handlers env r"
  "maintenance_handlers (mtls_forces_https r) = maintenance_handlers r"
  "Hosts (mtls_forces_https r) = Hosts r"
  "acl_wrap (mtls_forces_https r) = acl_wrap r"
  "emit (mtls_forces_https r) = emit r"
  "ForceHTTPS (mtls_forces_https r) \<longleftrightarrow> ForceHTTPS r \<or> RequireClientCert r"
  by (simp_all add: Let_def mtls_forces_https_def deny_ForceHTTPS chain_handlers_def front_ForceHTTPS gates_ForceHTTPS
      primary_ForceHTTPS maintenance_handlers_def maintenance_page_def routeMaintenanceBody_def routeErrorBranding_def acl_wrap_def
      acl_routes_def emit_def route_match_def fun_eq_iff cong: if_cong)

lemma BuildRoute_served:
  assumes "BuildRoute env r = Some j" "deny_handler env r = None" "\<not> MaintenanceMode r"
  obtains hs where "chain_handlers env r = Some hs"
    "j = emit r (https_wrap (mtls_forces_https r) (acl_wrap r hs))"
  using assms by (auto simp: BuildRoute_def Let_def)

section \<open>Gates in front of the backend\<close>

lemma guarded_by_split:
  "inner_chain j = pre @ g # post \<Longrightarrow> G g \<Longrightarrow> (\<And>h. h \<in> set pre \<Longrightarrow> harmless h) \<Longrightarrow> guarded_by G j"
  unfolding guarded_by_def by blast

text \<open>\<open>auth_parts\<close>: everything in front of the four authentication blocks is harmless, and so are
  the blocks themselves.\<close>

lemma gate_prefix_harmless:
  assumes "codec_ok env" "waf_handler r = Some waf" "buildEarlyLocationSubroute r = Some early"
    "cache_block env r = Some cache" "sso_handlers r = Some sso"
  shows "h \<in> set (front_handlers env r waf early cache) \<Longrightarrow> harmless h"
    and "h \<in> set (buildMTLSRBAC env r) \<Longrightarrow> harmless h"
    and "h \<in> set sso \<Longrightarrow> harmless h"
    and "h \<in> set (portal_handlers r) \<Longrightarrow> harmless h"
proof -
  show "h \<in> set (front_handlers env r waf early cache) \<Longrightarrow> harmless h"
    by (rule harmless_no_proxy, rule front_harmless [OF assms(1-4)])
  show "h \<in> set (buildMTLSRBAC env r) \<Longrightarrow> harmless h"
    by (simp add: harmless_def buildMTLSRBAC_backend)
  show "harmless h" if "h \<in> set sso"
  proof (cases "SSOProviderURL r = ''''")
    case True
    then show ?thesis using that assms(5) by (simp add: sso_handlers_def)
  next
    case False
    from sso_handlers_gate [OF assms(5) this] obtain p g where "sso = [p, g]" "harmless p" "\<not> has_backend g"
      by blast
    then show ?thesis using that by (auto simp: harmless_def)
  qed
  show "harmless h" if "h \<in> set (portal_handlers r)"
  proof (cases "PortalProtect r \<and> PortalDial r \<noteq> ''''")
    case True
    from portal_gate [OF conjunct1 [OF this] conjunct2 [OF this]] obtain p g
      where "portal_handlers r = [p, g]" "harmless p" "\<not> has_backend g" by blast
    then show ?thesis using that by (auto simp: harmless_def)
  qed (use that in \<open>auto simp: portal_handlers_def\<close>)
qed

lemma front_bearer:
  assumes "External r" "ProxySecret r \<noteq> ''''"
  obtains pre g post where "front_handlers env r waf early cache = pre @ g # post" "demands_bearer (ProxySecret r) g"
proof -
  from bearer_demanded [OF assms] obtain g where g: "bearer_gate r = [g]" "demands_bearer (ProxySecret r) g" .
  let ?pre = "strip_identity # revoked_gate r @ panel_self_headers r @ buildCIDRBlock r @ buildGeoBlock r @ waf"
  have "front_handlers env r waf early cache = ?pre @ g # (early @ rate_limit_handler r @ cache @ encode_handler r
     @ custom_handlers env r @ websocket_gate r)" using g(1) by (simp add: front_handlers_def)
  from that [OF this g(2)] show thesis .
qed

text \<open>The gate of each block, with what stands in front of it.\<close>

lemma chain_gates:
  assumes ok: "codec_ok env" and hs: "chain_handlers env r = Some hs" and j: "inner_chain j = hs"
  shows "External r \<Longrightarrow> ProxySecret r \<noteq> '''' \<Longrightarrow> guarded_by (demands_bearer (ProxySecret r)) j"
    and "MTLSPathRules r \<noteq> [] \<Longrightarrow> PanelBaseURL r \<noteq> '''' \<Longrightarrow> guarded_by (checks_every_request (rbac_uri r)) j"
    and "SSOProviderURL r \<noteq> '''' \<Longrightarrow> SSOStrictMode r \<Longrightarrow>
      guarded_by (checks_every_request ''/outpost.goauthentik.io/auth/caddy'') j"
    and "PortalProtect r \<Longrightarrow> PortalDial r \<noteq> '''' \<Longrightarrow> PortalPublicPaths r = [] \<Longrightarrow>
      guarded_by (checks_every_request ''/hpg-portal/verify'') j"
    and "BasicAuthUsers r \<noteq> [] \<or> (BasicAuthUser r \<noteq> '''' \<and> BasicAuthBcrypt r \<noteq> '''') \<Longrightarrow>
      guarded_by (is_handler ''authentication'') j"
proof -
  obtain waf early cache sso primary where parts: "waf_handler r = Some waf"
    "buildEarlyLocationSubroute r = Some early" "cache_block env r = Some cache" "sso_handlers r = Some sso"
    and shape: "hs = front_handlers env r waf early cache @ buildMTLSRBAC env r @ sso @ portal_handlers r
       @ basic_auth_handler r @ primary"
    by (rule chain_shape [OF hs])
  note safe = gate_prefix_harmless [OF ok parts]
  let ?F = "front_handlers env r waf early cache"
  show "guarded_by (demands_bearer (ProxySecret r)) j" if "External r" "ProxySecret r \<noteq> ''''"
  proof -
    from front_bearer [OF that] obtain pre g post
      where g: "?F = pre @ g # post" "demands_bearer (ProxySecret r) g" .
    then show ?thesis using j shape safe(1) by (intro guarded_by_split [of j pre g]) auto
  qed
  show "guarded_by (checks_every_request (rbac_uri r)) j" if "MTLSPathRules r \<noteq> []" "PanelBaseURL r \<noteq> ''''"
  proof -
    from rbac_gate [OF that] obtain g where "buildMTLSRBAC env r = [g]" "checks_every_request (rbac_uri r) g" .
    then show ?thesis using j shape safe(1) by (intro guarded_by_split [of j ?F g]) auto
  qed
  show "guarded_by (checks_every_request ''/outpost.goauthentik.io/auth/caddy'') j"
    if "SSOProviderURL r \<noteq> ''''" "SSOStrictMode r"
  proof -
    note asm = that
    from sso_handlers_gate [OF parts(4) asm(1)] obtain p g where "sso = [p, g]" "harmless p"
      "checks_every_request ''/outpost.goauthentik.io/auth/caddy'' g" using asm(2) by blast
    then show ?thesis using j shape safe(1,2)
      by (intro guarded_by_split [of j "?F @ buildMTLSRBAC env r @ [p]" g]) auto
  qed
  show "guarded_by (checks_every_request ''/hpg-portal/verify'') j"
    if "PortalProtect r" "PortalDial r \<noteq> ''''" "PortalPublicPaths r = []"
  proof -
    note asm = that
    from portal_gate [OF asm(1,2)] obtain p g where "portal_handlers r = [p, g]" "harmless p"
      "checks_every_request ''/hpg-portal/verify'' g" using asm(3) by blast
    then show ?thesis using j shape safe(1,2,3)
      by (intro guarded_by_split [of j "?F @ buildMTLSRBAC env r @ sso @ [p]" g]) auto
  qed
  show "guarded_by (is_handler ''authentication'') j"
    if "BasicAuthUsers r \<noteq> [] \<or> (BasicAuthUser r \<noteq> '''' \<and> BasicAuthBcrypt r \<noteq> '''')"
  proof -
    from basic_gate [OF that] obtain g where "basic_auth_handler r = [g]" "is_handler ''authentication'' g" .
    then show ?thesis using j shape safe
      by (intro guarded_by_split [of j "?F @ buildMTLSRBAC env r @ sso @ portal_handlers r" g]) auto
  qed
qed

section \<open>Handlers behind the gates\<close>

text \<open>An object without a \<open>handler\<close> member, member by member.\<close>

definition plain_member :: "string \<Rightarrow> string \<times> json \<Rightarrow> bool" where
  "plain_member n kv \<longleftrightarrow> fst kv \<noteq> ''handler'' \<and> \<not> has_handler n (snd kv)"

lemma plain_object: "list_all (plain_member n) kvs \<Longrightarrow> \<not> has_handler n (JObj kvs)"
  by (auto simp: list_all_iff plain_member_def has_handler_JObj dest!: map_of_SomeD)

lemma list_all_jopt: "list_all P (jopt b k v) \<longleftrightarrow> (b \<longrightarrow> P (k, v))"
  by (simp add: jopt_def)

lemmas plain_simps = plain_object plain_member_def list_all_jopt

lemma plain_objects_names [simp]:
  "\<not> has_handler n (status_match k)" "\<not> has_handler n fwd_request_headers" "\<not> has_handler n hostPreserve"
  "\<not> has_handler n (authHeaders r s)"
  by (auto simp: status_match_def fwd_request_headers_def hostPreserve_def authHeaders_def has_handler_JObj)

lemma ssoCopyHeaders_names [handler_names]: "h \<in> set (ssoCopyHeadersHandle hdrs) \<Longrightarrow> has_handler n h \<Longrightarrow> n = ''headers''"
proof -
  have "\<not> has_handler n (JObj (map (\<lambda>k. (k, jstrs [f k])) ks))" for f :: "string \<Rightarrow> string" and ks
    by (rule has_handler_strs) auto
  then show "h \<in> set (ssoCopyHeadersHandle hdrs) \<Longrightarrow> has_handler n h \<Longrightarrow> n = ''headers''"
    by (auto simp: ssoCopyHeadersHandle_def Let_def has_handler_JObj split: if_split_asm)
qed

lemma buildMTLSRBAC_names [handler_names]:
  "h \<in> set (buildMTLSRBAC env r) \<Longrightarrow> has_handler n h \<Longrightarrow>
     n \<in> {''subroute'', ''headers'', ''reverse_proxy'', ''static_response''}"
  by (auto simp: buildMTLSRBAC_def Let_def has_handler_JObj static_403_def split: if_split_asm)

lemma proxy_object_names:
  assumes "\<And>kv. kv \<in> set rp \<Longrightarrow> \<not> has_handler n (snd kv)" "map_of rp ''handler'' = Some (JStr ''reverse_proxy'')"
  shows "has_handler n (passthrough p rp) \<Longrightarrow> n \<in> {''subroute'', ''reverse_proxy''}"
    and "(\<And>kv. kv \<in> set ext \<Longrightarrow> has_handler n (snd kv) \<Longrightarrow> n \<in> N) \<Longrightarrow> \<not> has_handler n (JArr match) \<Longrightarrow>
      has_handler n (forwardAuthGate (rp @ ext) uri match) \<Longrightarrow> n \<in> {''subroute'', ''reverse_proxy''} \<union> N"
  using assms by (auto simp: passthrough_def forwardAuthGate_def has_handler_JObj map_of_jopt map_add_def)

lemma sso_handlers_names [handler_names]:
  assumes "sso_handlers r = Some hs" "h \<in> set hs" "has_handler n h"
  shows "n \<in> {''subroute'', ''reverse_proxy'', ''headers'', ''static_response''}"
proof (cases "SSOProviderURL r = ''''")
  case False
  with assms obtain rp where rp: "sso_rp r = Some rp"
    by (auto simp: sso_handlers_def split: Option.bind_split_asm)
  then have 1: "\<not> has_handler n (snd kv)" if "kv \<in> set rp" for kv
    using that by (auto simp: sso_rp_def has_handler_JObj split: Option.bind_split_asm)
  have 2: "map_of rp ''handler'' = Some (JStr ''reverse_proxy'')"
    using rp by (auto simp: sso_rp_def split: Option.bind_split_asm)
  have 3: "n \<in> {''headers'', ''static_response''}" if "x \<in> set (sso_responses r)" "has_handler n x" for x
    using that by (auto simp: sso_responses_def Let_def has_handler_JObj map_of_jopt split: if_split_asm
        dest: ssoCopyHeaders_names)
  have 4: "\<not> has_handler n (JArr (sso_match r))"
    by (auto simp: sso_match_def has_handler_JObj map_of_jopt)
  let ?ext = "[(''request_buffers'', JNum authRequestBodyMaxBytes), (''headers'', fwd_request_headers),
                       (''handle_response'', JArr (sso_responses r))]"
  have 5: "n \<in> {''headers'', ''static_response''}" if "kv \<in> set ?ext" "has_handler n (snd kv)" for kv
    using that 3 by auto
  have 6: "n \<in> {''subroute'', ''reverse_proxy''} \<union> {''headers'', ''static_response''}"
    if "has_handler n (forwardAuthGate (rp @ ?ext) uri (sso_match r))" for uri
    by (rule proxy_object_names(2) [OF 1 2 _ 4 that]) (assumption, rule 5, assumption+)
  from False rp assms(1,2) have "h = passthrough ''/outpost.goauthentik.io/*'' rp \<or>
      h = forwardAuthGate (rp @ ?ext) ''/outpost.goauthentik.io/auth/caddy'' (sso_match r)"
    by (auto simp: sso_handlers_def)
  then show ?thesis
    using assms(3) proxy_object_names(1) [OF 1 2] 6 by auto
qed (use assms in \<open>simp add: sso_handlers_def\<close>)

lemma portal_names [handler_names]:
  assumes "h \<in> set (portal_handlers r)" "has_handler n h"
  shows "n \<in> {''subroute'', ''reverse_proxy''}"
  using assms by (auto simp: portal_handlers_def buildPortalForwardAuth_def passthrough_def forwardAuthGate_def
      portal_rp_def has_handler_JObj map_of_jopt map_of_jopt_append split: if_split_asm)

lemma redirect_primary_names: "has_handler n (redirect_primary r) \<Longrightarrow> n = ''static_response''"
  by (auto simp: redirect_primary_def has_handler_JObj text_headers_def split: if_split_asm)

lemma proxy_upstreams_names: "proxy_upstreams r = Some kvs \<Longrightarrow> kv \<in> set kvs \<Longrightarrow> fst kv \<noteq> ''handler'' \<and> \<not> has_handler n (snd kv)"
proof -
  have pool: "\<not> has_handler n u" if "pool_upstreams us = Some js" "u \<in> set js" for us js u
    using that by (induction us arbitrary: js) (auto simp: has_handler_JObj map_of_jopt split: Option.bind_split_asm)
  show "proxy_upstreams r = Some kvs \<Longrightarrow> kv \<in> set kvs \<Longrightarrow> fst kv \<noteq> ''handler'' \<and> \<not> has_handler n (snd kv)"
    by (auto simp: proxy_upstreams_def dynamic_upstreams_def has_handler_JObj dest: pool
        split: if_split_asm Option.bind_split_asm)
qed

lemma proxy_headers_names: "kv \<in> set (proxy_headers r) \<Longrightarrow> fst kv \<noteq> ''handler'' \<and> \<not> has_handler n (snd kv)"
proof -
  have "\<not> has_handler n (JObj (proxy_set_headers r))"
    by (rule has_handler_strs) (auto simp: proxy_set_headers_def Let_def split: if_split_asm)
  then show "kv \<in> set (proxy_headers r) \<Longrightarrow> fst kv \<noteq> ''handler'' \<and> \<not> has_handler n (snd kv)"
    by (auto simp: proxy_headers_def Let_def has_handler_JObj map_of_jopt map_of_jopt_append)
qed

lemma buildLoadBalancing_names: "buildLoadBalancing r = Some (Some v) \<Longrightarrow> \<not> has_handler n v"
  by (auto simp: buildLoadBalancing_def Let_def plain_simps split: if_split_asm Option.bind_split_asm split del: if_split)

lemma buildHealthChecks_names: "buildHealthChecks r = Some (Some v) \<Longrightarrow> \<not> has_handler n v"
  by (auto simp: buildHealthChecks_def health_active_def health_passive_def Let_def plain_simps
      split: if_split_asm Option.bind_split_asm)

lemma proxy_balancing_names: "proxy_balancing r = Some kvs \<Longrightarrow> kv \<in> set kvs \<Longrightarrow> \<not> has_handler n (snd kv)"
  using buildLoadBalancing_names [of r _ n] buildHealthChecks_names [of r _ n]
  by (auto simp: proxy_balancing_def split: if_split_asm Option.bind_split_asm option.split_asm)

lemma proxy_primary_names: "proxy_primary r = Some p \<Longrightarrow> has_handler n p \<Longrightarrow> n = ''reverse_proxy''"
proof -
  have "\<not> has_handler n (proxy_transport r)"
    by (simp add: proxy_transport_def upstream_tls_def Let_def plain_simps)
  then show "proxy_primary r = Some p \<Longrightarrow> has_handler n p \<Longrightarrow> n = ''reverse_proxy''"
    by (auto simp: proxy_primary_def has_handler_JObj split: Option.bind_split_asm
        dest: proxy_upstreams_names proxy_headers_names proxy_balancing_names)
qed

lemma location_names:
  assumes "location_entries actions (Some primary) rules = Some es" "e \<in> set es" "has_handler n e"
  shows "n \<in> {''static_response'', ''rewrite'', ''reverse_proxy''} \<or> has_handler n primary"
  using assms
proof (induction rules arbitrary: es)
  case (Cons rule rules)
  show ?case
  proof (cases "loc_Action rule \<in> set actions")
    case False
    with Cons show ?thesis by simp
  next
    case True
    with Cons.prems obtain b bs where b: "buildLocationRuleRoute rule (Some primary) = Some b"
      "location_entries actions (Some primary) rules = Some bs"
      "es = (case b of Some entry \<Rightarrow> entry # bs | None \<Rightarrow> bs)"
      by (auto split: Option.bind_split_asm)
    show ?thesis
    proof (cases "e \<in> set bs")
      case True
      then show ?thesis using Cons.IH b(2) Cons.prems(3) by blast
    next
      case False
      with b(3) Cons.prems(2) have "b = Some e" by (auto split: option.split_asm)
      with b(1) True obtain hs where "location_handle rule (Some primary) = Some (Some hs)"
        "e = JObj [(''match'', JArr [JObj [(''path'', jstrs (locationPathMatchers (loc_Path rule)))]]),
                   (''handle'', JArr hs), (''terminal'', JBool True)]"
        by (auto simp: buildLocationRuleRoute_def Let_def split: if_split_asm Option.bind_split_asm)
      with Cons.prems(3) True show ?thesis
        by (auto simp: location_handle_def location_proxy_def has_handler_JObj static_403_def map_of_jopt
            split: if_split_asm Option.bind_split_asm)
    qed
  qed
qed simp

lemma primary_names [handler_names]:
  assumes "primary_handlers r = Some ps" "h \<in> set ps" "has_handler n h"
  shows "n \<in> {''static_response'', ''rewrite'', ''reverse_proxy'', ''subroute''}"
proof -
  obtain p where p: "has_handler n p \<Longrightarrow> n \<in> {''static_response'', ''reverse_proxy''}"
    and ps: "(if LocationRules r \<noteq> [] \<and> Kind r \<noteq> ''redirect'' \<and> \<not> MaintenanceMode r
       then map_option (\<lambda>p. [p]) (buildLocationSubroute r p (pathRewriteHandlers r))
       else Some (pathRewriteHandlers r @ [p])) = Some ps"
    using assms(1) redirect_primary_names [of n r] proxy_primary_names [of r _ n]
    by (auto simp: primary_handlers_def split: Option.bind_split_asm if_split_asm)
  have rw: "n = ''rewrite''" if "x \<in> set (pathRewriteHandlers r)" "has_handler n x" for x
    using that by (auto simp: pathRewriteHandlers_def Let_def has_handler_JObj split: if_split_asm)
  consider "has_handler n p" | "n = ''subroute''" | x where "x \<in> set (pathRewriteHandlers r)" "has_handler n x"
    | as es e where "location_entries as (Some p) (LocationRules r) = Some es" "e \<in> set es" "has_handler n e"
    using ps assms(2,3)
    by (auto simp: buildLocationSubroute_def has_handler_JObj split: if_split_asm Option.bind_split_asm)
  then show ?thesis
  proof cases
    case 3
    then show ?thesis using rw by simp
  next
    case 4
    from location_names [OF this] p show ?thesis by auto
  qed (use p in auto)
qed

end
