(* ===== verification/Route_Properties.thy ===== *)
theory Route_Properties
  imports Route_Guarantees
begin

text \<open>
  The guarantees of \<open>BuildRoute\<close> (\<open>internal/caddyapi/route.go\<close>): a refused route serves no backend,
  every authentication gate stands in front of the backend, a gated route is never cached, the access
  list and the redirect to HTTPS enclose everything, maintenance serves only the listed addresses, and
  the builder panics only on numbers of seven digits or more.
\<close>

section \<open>Shared\<close>

lemma deny_handler_response:
  "deny_handler env r = Some h \<Longrightarrow>
     is_handler ''static_response'' h \<and> jget h ''status_code'' = Some (JNum 503) \<and> \<not> has_handler ''reverse_proxy'' h"
  by (auto simp: deny_handler_def quarantineDenyHandler_def misconfigDenyHandler_def text_headers_def Let_def
      is_handler_JObj has_handler_JObj split: if_split_asm)

lemma chain_no_cache:
  assumes "codec_ok env" "\<not> stores env r" "chain_handlers env r = Some hs" "h \<in> set hs"
  shows "\<not> has_handler ''cache'' h"
proof
  assume c: "has_handler ''cache'' h"
  obtain waf early cache sso primary where parts: "waf_handler r = Some waf"
    "buildEarlyLocationSubroute r = Some early" "cache_block env r = Some cache" "sso_handlers r = Some sso"
    "primary_handlers r = Some primary"
    and shape: "hs = front_handlers env r waf early cache @ buildMTLSRBAC env r @ sso @ portal_handlers r
       @ basic_auth_handler r @ primary"
    by (rule chain_shape [OF assms(3)])
  from assms(4) shape consider "h \<in> set (front_handlers env r waf early cache)" | "h \<in> set (buildMTLSRBAC env r)"
    | "h \<in> set sso" | "h \<in> set (portal_handlers r)" | "h \<in> set (basic_auth_handler r)" | "h \<in> set primary"
    by auto
  then show False
  proof cases
    case 1
    then show ?thesis using front_names [OF assms(1) parts(1-3) _ c] assms(2) by blast
  next
    case 2 then show ?thesis using buildMTLSRBAC_names c by fastforce
  next
    case 3 then show ?thesis using sso_handlers_names [OF parts(4)] c by fastforce
  next
    case 4 then show ?thesis using portal_names c by fastforce
  next
    case 5 then show ?thesis using basic_auth_names c by fastforce
  next
    case 6 then show ?thesis using primary_names [OF parts(5)] c by fastforce
  qed
qed

lemma stores_https [simp]: "stores env (mtls_forces_https r) = stores env r"
  by (simp add: stores_def mtls_forces_https_def RouteAuthGated_def)

lemma maintenance_no_cache: "maintenance_handlers r = Some hs \<Longrightarrow> h \<in> set hs \<Longrightarrow> \<not> has_handler ''cache'' h"
  by (auto simp: maintenance_handlers_def maintenance_page_def Let_def has_handler_JObj jopt_def
      split: Option.bind_split_asm if_split_asm)

lemma https_wrap_no_cache: "\<forall>h \<in> set hs. \<not> has_handler ''cache'' h \<Longrightarrow> \<forall>h \<in> set (https_wrap r hs). \<not> has_handler ''cache'' h"
  by (simp add: https_wrap_def forceHTTPSWrap_def has_handler_JObj)

lemma emit_no_cache: "\<forall>h \<in> set hs. \<not> has_handler ''cache'' h \<Longrightarrow> \<not> has_handler ''cache'' (emit r hs)"
  by (auto simp: emit_def route_match_def has_handler_JObj Let_def)

lemma BuildRoute_stores:
  assumes "codec_ok env" "BuildRoute env r = Some j" "has_handler ''cache'' j"
  shows "stores env r"
proof (rule ccontr)
  let ?r = "mtls_forces_https r"
  assume "\<not> stores env r"
  then have no: "\<not> stores env ?r" by simp
  from assms(2) consider h where "deny_handler env ?r = Some h" "j = emit ?r [h]"
    | hs where "maintenance_handlers ?r = Some hs" "j = emit ?r (https_wrap ?r hs)"
    | hs where "chain_handlers env ?r = Some hs" "j = emit ?r (https_wrap ?r (acl_wrap ?r hs))"
    by (auto simp: BuildRoute_def Let_def split: option.split_asm if_split_asm)
  then have "\<not> has_handler ''cache'' j"
  proof cases
    case 1
    then have "\<not> has_handler ''cache'' h"
      by (auto simp: deny_handler_def quarantineDenyHandler_def misconfigDenyHandler_def text_headers_def Let_def
          has_handler_JObj split: if_split_asm)
    then show ?thesis using 1 by (auto intro!: emit_no_cache)
  next
    case 2
    then show ?thesis using maintenance_no_cache [OF 2(1)] by (auto intro!: emit_no_cache https_wrap_no_cache)
  next
    case 3
    have "\<forall>h \<in> set (acl_wrap ?r hs). \<not> has_handler ''cache'' h"
      using chain_no_cache [OF assms(1) no 3(1)]
      by (auto simp: acl_wrap_def acl_routes_def has_handler_JObj static_403_def split: if_split_asm)
    then show ?thesis using 3 by (auto intro!: emit_no_cache https_wrap_no_cache)
  qed
  then show False using assms(3) by contradiction
qed

section \<open>No panic\<close>

lemma itoa_loop_Some: "0 < n \<Longrightarrow> n < 10 ^ i \<Longrightarrow> itoa_loop i n buf = Some (nat_dec (nat n) @ buf)"
proof (induction i arbitrary: n buf)
  case (Suc i)
  show ?case
  proof (cases "n < 10")
    case True
    then have "n div 10 = 0" "n mod 10 = n" using Suc.prems by auto
    then show ?thesis using Suc.prems True
      by (simp add: itoa_loop.simps [of "Suc i"] itoa_loop.simps [of i 0] nat_dec.simps [of "nat n"])
  next
    case False
    have "n div 10 < 10 ^ i" using Suc.prems by simp
    then have "itoa_loop i (n div 10) (digit_char (nat (n mod 10)) # buf)
        = Some (nat_dec (nat (n div 10)) @ digit_char (nat (n mod 10)) # buf)"
      using Suc.IH False by simp
    moreover have "nat_dec (nat n) = nat_dec (nat (n div 10)) @ [digit_char (nat (n mod 10))]"
      using False by (subst nat_dec.simps) (simp add: nat_div_distrib nat_mod_distrib)
    ultimately show ?thesis using Suc.prems by (simp add: itoa_loop.simps [of "Suc i"])
  qed
qed simp

lemma itoa_loop_None: "10 ^ i \<le> n \<Longrightarrow> itoa_loop i n buf = None"
proof (induction i arbitrary: n buf)
  case 0
  then show ?case by (simp add: itoa_loop.simps)
next
  case (Suc i)
  then have "10 ^ i \<le> n div 10" "0 < n" by (auto intro: order.strict_trans2 [of 0 "10 ^ Suc i"])
  then show ?case using Suc.IH by (simp add: itoa_loop.simps [of "Suc i"])
qed

lemma itoa_neg: "n < 0 \<Longrightarrow> itoa n = Some ''''"
  by (simp add: itoa_def itoa_loop.simps)

lemma itoa_None: "itoa n = None \<longleftrightarrow> 1000000 \<le> n"
proof -
  have "itoa n \<noteq> None" if "n < 1000000"
    using that itoa_neg [of n] itoa_loop_Some [of n 6 "[]"] by (cases "n \<le> 0") (auto simp: itoa_def)
  moreover have "itoa n = None" if "1000000 \<le> n"
    using that itoa_loop_None [of 6 n "[]"] by (simp add: itoa_def)
  ultimately show ?thesis by force
qed

lemma itoa_ex: "(\<exists>s. itoa n = Some s) \<longleftrightarrow> n < 1000000"
  using itoa_None [of n] by (cases "itoa n") auto

lemmas itoa_iffs = itoa_None itoa_ex

text \<open>Every number the builder formats through \<open>itoa\<close> has at most six digits.\<close>

definition numbers_fit :: "route \<Rightarrow> bool" where
  "numbers_fit r \<longleftrightarrow> list_all (\<lambda>n. n < 1000000)
     ([UpstreamPort r, CacheTTLSeconds r, LBTryIntervalMs r, LBTryDurationMs r, HealthIntervalSecs r,
       HealthTimeoutSecs r, HealthFailDurationSecs r]
      @ map up_Port (Upstreams r) @ map loc_UpstreamPort (LocationRules r))"

lemma msDur_ok: "n < 1000000 \<Longrightarrow> d < 1000000 \<Longrightarrow> msDur n d \<noteq> None"
  by (auto simp: msDur_def Let_def itoa_iffs)

lemma secs_ok: "n < 1000000 \<Longrightarrow> d < 1000000 \<Longrightarrow> secs n d \<noteq> None"
  by (simp add: secs_def itoa_iffs)

lemma dial_ok: "p < 1000000 \<Longrightarrow> \<exists>d. dial h p = Some d"
  by (simp add: dial_def itoa_iffs)

lemma location_entries_ok:
  "list_all (\<lambda>rule. loc_UpstreamPort rule < 1000000) rules \<Longrightarrow> location_entries actions p rules \<noteq> None"
proof (induction rules)
  case (Cons rule rules)
  then have "location_proxy rule \<noteq> None"
    using dial_ok [of "loc_UpstreamPort rule" "loc_UpstreamHost rule"] by (auto simp: location_proxy_def)
  then have "buildLocationRuleRoute rule p \<noteq> None"
    by (auto simp: buildLocationRuleRoute_def location_handle_def Let_def split: option.split)
  then show ?case using Cons by auto
qed simp

lemma pool_upstreams_ok: "list_all (\<lambda>u. up_Port u < 1000000) us \<Longrightarrow> pool_upstreams us \<noteq> None"
proof (induction us)
  case (Cons u us)
  then show ?case using dial_ok [of "up_Port u" "up_Host u"] by auto
qed simp

lemma proxy_primary_ok:
  assumes "numbers_fit r"
  shows "proxy_primary r \<noteq> None"
proof -
  have "buildLoadBalancing r \<noteq> None"
    using assms msDur_ok [of "LBTryIntervalMs r" 250] msDur_ok [of "LBTryDurationMs r" 5000]
    by (auto simp: buildLoadBalancing_def Let_def numbers_fit_def)
  moreover have "health_active r \<noteq> None" "health_passive r \<noteq> None"
    using assms secs_ok [of "HealthIntervalSecs r" 10] secs_ok [of "HealthTimeoutSecs r" 5]
      secs_ok [of "HealthFailDurationSecs r" 30]
    by (auto simp: health_active_def health_passive_def numbers_fit_def)
  ultimately have "proxy_balancing r \<noteq> None"
    by (auto simp: proxy_balancing_def buildHealthChecks_def Let_def)
  moreover have "proxy_upstreams r \<noteq> None"
    using assms pool_upstreams_ok [of "Upstreams r"] dial_ok [of "UpstreamPort r" "UpstreamIP r"]
      itoa_ex [of "UpstreamPort r"]
    by (auto simp: proxy_upstreams_def dynamic_upstreams_def numbers_fit_def list_all_iff)
  ultimately show ?thesis by (auto simp: proxy_primary_def)
qed

lemma SSODialTarget_port: "SSODialTarget r = Some (h, p) \<Longrightarrow> p \<le> 65535"
  by (auto simp: SSODialTarget_def split: if_split_asm option.split_asm)

lemma sso_rp_ok: "\<exists>rp. sso_rp r = Some rp"
proof (cases "SSODialTarget r")
  case (Some hp)
  then have "\<exists>s. itoa (snd hp) = Some s"
    using SSODialTarget_port [of r "fst hp" "snd hp"] by (simp add: itoa_ex)
  with Some show ?thesis by (cases hp) (auto simp: sso_rp_def)
qed (simp add: sso_rp_def)

lemma chain_ok:
  assumes "numbers_fit r"
  shows "chain_handlers env r \<noteq> None"
proof -
  have locs: "\<exists>es. location_entries actions p (LocationRules r) = Some es" for actions p
    using assms location_entries_ok [of "LocationRules r" actions p] by (auto simp: numbers_fit_def list_all_iff)
  have "waf_handler r \<noteq> None"
    using Sanitize_result [of "WAFDirectives r"] by (auto simp: waf_handler_def)
  moreover have "buildEarlyLocationSubroute r \<noteq> None"
    using locs [of "[''block'', ''redirect'']" None] by (auto simp: buildEarlyLocationSubroute_def)
  moreover have "cache_block env r \<noteq> None"
    using assms itoa_ex [of 60] itoa_ex [of "CacheTTLSeconds r"]
    by (auto simp: cache_block_def buildCacheHandlers_def numbers_fit_def Let_def)
  moreover have "sso_handlers r \<noteq> None"
    using sso_rp_ok [of r] by (auto simp: sso_handlers_def)
  moreover have "primary_handlers r \<noteq> None"
    using proxy_primary_ok [OF assms] locs [of "[''proxy'', ''rewrite'', '''']" "Some (the (proxy_primary r))"]
    by (auto simp: primary_handlers_def buildLocationSubroute_def)
  ultimately show ?thesis by (auto simp: chain_handlers_def)
qed

section \<open>Routes for the witnesses\<close>

text \<open>An external origin behind every gate, with an access list.\<close>

definition w_gated :: route where
  "w_gated = zero_route\<lparr>ID := ''7'', Hosts := [''a.com''], Kind := ''proxy'', UpstreamIP := ''10.0.0.9'', UpstreamPort := 80,
     External := True, ProxySecret := ''s3'', SSOProviderURL := ''https://sso.example'', SSOStrictMode := True,
     PortalProtect := True, PortalDial := ''p:1'', PortalPublicPaths := [], BasicAuthUser := ''u'', BasicAuthBcrypt := ''h'',
     MTLSPathRules := [\<lparr>PathPattern = ''/*'', RequiredRole = ''ops''\<rparr>], PanelBaseURL := ''https://panel'',
     RequireClientCert := True, CacheEnabled := True, CachePublic := True, CacheModuleAvailable := True,
     AccessBlockAll := True, AccessAllow := [''10.0.0.0/8'']\<rparr>"

lemma w_gated_served: "deny_handler w_env w_gated = None" "\<not> MaintenanceMode w_gated" "RouteAuthGated w_env w_gated"
  by code_simp+

lemma w_gated_built: "\<exists>j. BuildRoute w_env w_gated = Some j"
proof -
  have "BuildRoute w_env w_gated \<noteq> None" by code_simp
  then show ?thesis by blast
qed

lemma w_env_codec: "codec_ok w_env"
  by (simp add: codec_ok_def w_env_def)

section \<open>Properties\<close>

text \<open>C10: a route with a rejected handler chain, a rejected placeholder, an authentication gate that
  cannot be emitted, or a blocking firewall without its module is published as a single 503
  response: its hosts answer, and no backend is reachable through it.\<close>

theorem BuildRoute_fail_closed:
  assumes "CustomHandlerQuarantine env r \<noteq> None \<or> TenantTemplateQuarantine r \<noteq> None \<or> MTLSDenyOnMisconfig r \<or>
    PortalDenyOnMisconfig r \<or> (PortalProtect r \<and> PortalDial r = '''') \<or> WAFUnenforceable r"
  shows "\<exists>h. BuildRoute env r = Some (emit r [h]) \<and> is_handler ''static_response'' h \<and>
    jget h ''status_code'' = Some (JNum 503) \<and> \<not> has_handler ''reverse_proxy'' (emit r [h])"
proof -
  obtain h where h: "deny_handler env r = Some h"
    using assms by (cases "deny_handler env r") (auto simp: deny_handler_def split: if_split_asm)
  have "\<not> has_handler ''reverse_proxy'' (route_match r)"
    by (auto simp: route_match_def has_handler_JObj Let_def)
  then show ?thesis using h deny_handler_response [OF h]
    by (simp add: BuildRoute_def Let_def emit_def has_handler_JObj)
qed

theorem BuildRoute_fail_closed_witness:
  "\<exists>h. BuildRoute w_env (zero_route\<lparr>WAFEnabled := True, WAFBlocking := True\<rparr>) =
     Some (emit (zero_route\<lparr>WAFEnabled := True, WAFBlocking := True\<rparr>) [h])"
proof -
  have "WAFUnenforceable (zero_route\<lparr>WAFEnabled := True, WAFBlocking := True\<rparr>)" by code_simp
  then show ?thesis
    using BuildRoute_fail_closed [of w_env "zero_route\<lparr>WAFEnabled := True, WAFBlocking := True\<rparr>"] by blast
qed



text \<open>C12: a route behind an authentication gate is never cached: no cache handler occurs anywhere in
  it, whatever the cache settings say, in service, under maintenance or refused.\<close>

theorem BuildRoute_gated_uncached:
  assumes "codec_ok env" "RouteAuthGated env r" "BuildRoute env r = Some j"
  shows "\<not> json_any (is_handler ''cache'') j"
  using BuildRoute_stores [OF assms(1,3)] assms(2) by (auto simp: stores_def has_handler_def)

theorem BuildRoute_gated_uncached_witness:
  "CacheEnabled w_gated \<and> (\<exists>j. BuildRoute w_env w_gated = Some j \<and> \<not> json_any (is_handler ''cache'') j)"
proof -
  obtain j where j: "BuildRoute w_env w_gated = Some j" using w_gated_built ..
  from BuildRoute_gated_uncached [OF w_env_codec w_gated_served(3) j] j
  show ?thesis by (auto simp: w_gated_def)
qed

lemma BuildRoute_built:
  assumes "numbers_fit r"
  shows "\<exists>j. BuildRoute env r = Some j"
proof -
  have "maintenance_handlers r \<noteq> None"
    using assms dial_ok [of "UpstreamPort r" "UpstreamIP r"]
    by (auto simp: maintenance_handlers_def numbers_fit_def Let_def)
  then show ?thesis
    using chain_ok [OF assms, of env] by (auto simp: BuildRoute_def Let_def split: option.split)
qed

text \<open>C15: on a cached route without a gate the builder panics as soon as the cache lifetime has seven
  digits, because \<open>itoa\<close> writes into six bytes.\<close>

theorem BuildRoute_long_ttl_panics:
  assumes "CacheEnabled r" "Kind r \<noteq> ''redirect''" "\<not> MaintenanceMode r" "\<not> RouteAuthGated env r"
    "deny_handler env r = None" "1000000 \<le> CacheTTLSeconds r"
  shows "BuildRoute env r = None"
proof -
  have "cache_block env r = None"
    using assms itoa_None [of "CacheTTLSeconds r"] by (simp add: cache_block_def buildCacheHandlers_def)
  then have "chain_handlers env r = None"
    by (auto simp: chain_handlers_def split: Option.bind_split)
  then show ?thesis using assms by (simp add: BuildRoute_def Let_def)
qed

theorem BuildRoute_long_ttl_panics_witness:
  "BuildRoute w_env (zero_route\<lparr>Kind := ''proxy'', CacheEnabled := True, CacheTTLSeconds := 31536000\<rparr>) = None"
  by (rule BuildRoute_long_ttl_panics; code_simp)

section \<open>Access lists, HTTPS and maintenance\<close>

text \<open>The reading of address matchers: \<open>P ranges\<close> says that the client is in one of the ranges. A
  subroute runs the first of its terminal routes that matches.\<close>

definition ranges_of :: "json \<Rightarrow> string list" where
  "ranges_of v = (case jget v ''ranges'' of
     Some a \<Rightarrow> map (\<lambda>x. case x of JStr s \<Rightarrow> s | _ \<Rightarrow> '''') (jarr_of a) | None \<Rightarrow> [])"

definition ip_matcher :: "(string list \<Rightarrow> bool) \<Rightarrow> json \<Rightarrow> bool" where
  "ip_matcher P m =
     (case jget m ''remote_ip'' of
        Some v \<Rightarrow> P (ranges_of v)
      | None \<Rightarrow>
          (case jget m ''not'' of
             Some ms \<Rightarrow> \<not> list_ex (\<lambda>x. case jget x ''remote_ip'' of Some v \<Rightarrow> P (ranges_of v) | None \<Rightarrow> False) (jarr_of ms)
           | None \<Rightarrow> False))"

definition route_selected :: "(string list \<Rightarrow> bool) \<Rightarrow> json \<Rightarrow> bool" where
  "route_selected P rt = (case jget rt ''match'' of Some ms \<Rightarrow> list_ex (ip_matcher P) (jarr_of ms) | None \<Rightarrow> True)"

definition run_subroute :: "(string list \<Rightarrow> bool) \<Rightarrow> json \<Rightarrow> json list" where
  "run_subroute P h = (case find (route_selected P) (routes_of h) of Some rt \<Rightarrow> handle_of rt | None \<Rightarrow> [])"

text \<open>The chain below the redirect to HTTPS.\<close>

definition https_chain :: "route \<Rightarrow> json \<Rightarrow> json list" where
  "https_chain r j = (if ForceHTTPS r \<or> RequireClientCert r then descend (handle_of j) else handle_of j)"

lemma https_chain_wrapped: "https_chain r (emit r' (https_wrap (mtls_forces_https r) hs)) = hs"
  by (simp add: https_chain_def https_wrap_def descend_https)

lemma ranges_of_jstrs [simp]: "ranges_of (JObj [(''ranges'', jstrs rs)]) = rs"
  by (simp add: ranges_of_def jstrs_def o_def)

text \<open>C11: the access list encloses a served route: an address on the deny list is refused, under
  "block all" so is every address that is not on the allow list, and only the others reach the chain
  with its gates and its backend.\<close>

theorem BuildRoute_access_list:
  assumes "BuildRoute env r = Some j" "deny_handler env r = None" "\<not> MaintenanceMode r"
    "AccessBlockAll r \<or> AccessAllow r \<noteq> [] \<or> AccessDeny r \<noteq> []"
  shows "\<exists>a. https_chain r j = [a] \<and> run_subroute P a =
    (if AccessDeny r \<noteq> [] \<and> P (AccessDeny r) \<or> AccessBlockAll r \<and> (AccessAllow r = [] \<or> \<not> P (AccessAllow r))
     then [JObj static_403] else inner_chain j)"
proof -
  obtain hs where hs: "chain_handlers env r = Some hs"
    and j: "j = emit r (https_wrap (mtls_forces_https r) (acl_wrap (mtls_forces_https r) hs))"
    using BuildRoute_served [OF assms(1-3)] by auto
  have inner: "inner_chain j = hs" unfolding j by (rule inner_chain_wrapped [OF chain_length [OF hs]])
  have "https_chain r j = acl_wrap r hs" unfolding j by (simp add: https_chain_wrapped)
  moreover obtain a where a: "acl_wrap r hs = [a]"
      "routes_of a = acl_routes r @ [JObj [(''handle'', JArr hs), (''terminal'', JBool True)]]"
    using assms(4) by (auto simp: acl_wrap_def routes_of_def)
  moreover have "run_subroute P a =
    (if AccessDeny r \<noteq> [] \<and> P (AccessDeny r) \<or> AccessBlockAll r \<and> (AccessAllow r = [] \<or> \<not> P (AccessAllow r))
     then [JObj static_403] else hs)"
    unfolding run_subroute_def a(2)
    by (simp add: acl_routes_def route_selected_def ip_matcher_def remote_ip_def handle_of_def)
  ultimately show ?thesis using inner by auto
qed

theorem BuildRoute_access_list_witness:
  "\<exists>j a. BuildRoute w_env w_gated = Some j \<and> https_chain w_gated j = [a] \<and>
     run_subroute (\<lambda>_. False) a = [JObj static_403] \<and> run_subroute (\<lambda>_. True) a = inner_chain j"
proof -
  obtain j where j: "BuildRoute w_env w_gated = Some j" using w_gated_built ..
  have acl: "AccessBlockAll w_gated" "AccessAllow w_gated \<noteq> []" "AccessDeny w_gated = []" by code_simp+
  have *: "AccessBlockAll w_gated \<or> AccessAllow w_gated \<noteq> [] \<or> AccessDeny w_gated \<noteq> []" using acl by simp
  from BuildRoute_access_list [OF j w_gated_served(1,2) *, of "\<lambda>_. False"]
    BuildRoute_access_list [OF j w_gated_served(1,2) *, of "\<lambda>_. True"] j acl
  show ?thesis by auto
qed



text \<open>C14: under maintenance everyone gets the 503 page, except the addresses of the maintenance
  list, which reach the backend directly: their chain is the proxy alone, so neither the
  authentication gates nor the access list of the route apply to them.\<close>

theorem BuildRoute_maintenance:
  assumes "BuildRoute env r = Some j" "deny_handler env r = None" "MaintenanceMode r"
  shows "if MaintenanceAllow r = [] then https_chain r j = [maintenance_page r]
    else \<exists>s p. https_chain r j = [s] \<and> is_handler ''reverse_proxy'' p \<and>
      run_subroute P s = (if P (MaintenanceAllow r) then [p] else [maintenance_page r])"
proof -
  obtain hs where hs: "maintenance_handlers r = Some hs" "j = emit r (https_wrap (mtls_forces_https r) hs)"
    using assms by (auto simp: BuildRoute_def Let_def)
  then have chain: "https_chain r j = hs" by (simp add: https_chain_wrapped)
  show ?thesis
  proof (cases "MaintenanceAllow r = []")
    case True
    then show ?thesis using hs(1) chain by (simp add: maintenance_handlers_def)
  next
    case False
    define s p where "s = hd hs" and "p = hd (handle_of (hd (routes_of s)))"
    from False hs(1) have "hs = [s]" "is_handler ''reverse_proxy'' p"
      "routes_of s = [JObj [(''match'', JArr [remote_ip (MaintenanceAllow r)]), (''handle'', JArr [p]), (''terminal'', JBool True)],
         JObj [(''handle'', JArr [maintenance_page r]), (''terminal'', JBool True)]]"
      by (auto simp: s_def p_def maintenance_handlers_def Let_def routes_of_def handle_of_def is_handler_JObj
          split: Option.bind_split_asm)
    then show ?thesis using False chain
      by (auto simp: run_subroute_def route_selected_def ip_matcher_def remote_ip_def handle_of_def)
  qed
qed

definition w_maintenance :: route where
  "w_maintenance = w_gated\<lparr>MaintenanceMode := True, MaintenanceAllow := [''10.0.0.1/32'']\<rparr>"

theorem BuildRoute_maintenance_witness:
  "\<exists>j s p. BuildRoute w_env w_maintenance = Some j \<and> https_chain w_maintenance j = [s] \<and>
     RouteAuthGated w_env w_maintenance \<and> is_handler ''reverse_proxy'' p \<and> run_subroute (\<lambda>_. True) s = [p]"
proof -
  have "BuildRoute w_env w_maintenance \<noteq> None" "RouteAuthGated w_env w_maintenance"
    "MaintenanceAllow w_maintenance \<noteq> []" by code_simp+
  moreover have d: "deny_handler w_env w_maintenance = None" "MaintenanceMode w_maintenance" by code_simp+
  ultimately obtain j where j: "BuildRoute w_env w_maintenance = Some j" by blast
  from BuildRoute_maintenance [OF j d, of "\<lambda>_. True"] j \<open>RouteAuthGated w_env w_maintenance\<close>
    \<open>MaintenanceAllow w_maintenance \<noteq> []\<close> show ?thesis by auto
qed

end
