(* ===== verification/Backup_Stream.thy ===== *)
theory Backup_Stream
  imports Go_Strings
begin

text \<open>
  The encrypted backup stream (\<open>internal/backup/crypto.go\<close>): the chunking writer with its
  \<open>Write\<close>, \<open>flushChunk\<close> and \<open>Close\<close>, and the decoder for both versions of the format. AES-GCM is the
  parameter \<open>aead\<close>, one record for one key; \<open>rands\<close> are the nonces that \<open>crypto/rand\<close> will
  deliver, and an exhausted list is its error. A \<open>sink\<close> is an \<open>io.Writer\<close> with the bytes it took and
  the number of writes it still accepts (\<^term>\<open>None\<close> for no limit); a reader is the bytes that
  are left. The index of a chunk is kept as a number and wrapped to 64 bits where it is encoded.
\<close>

section \<open>Interfaces\<close>

record aead =
  Seal :: "string \<Rightarrow> string \<Rightarrow> string \<Rightarrow> string"
  Open :: "string \<Rightarrow> string \<Rightarrow> string \<Rightarrow> string option"

record sink =
  sink_data :: string
  sink_room :: "nat option"

definition sink_write :: "sink \<Rightarrow> string \<Rightarrow> sink option" where
  "sink_write w p =
     (case sink_room w of
        None \<Rightarrow> Some (w\<lparr>sink_data := sink_data w @ p\<rparr>)
      | Some 0 \<Rightarrow> None
      | Some (Suc n) \<Rightarrow> Some (w\<lparr>sink_data := sink_data w @ p, sink_room := Some n\<rparr>))"

datatype stream_error =
    Bad_key_length nat
  | Rand_failed
  | Write_failed
  | Write_on_closed
  | Slice_panic
  | Read_EOF
  | Read_unexpected_EOF
  | Bad_header
  | Truncated_stream
  | Chunk_too_long nat
  | Data_after_final
  | Decrypt_failed nat

section \<open>Format\<close>

definition streamHeaderV1 :: string where
  "streamHeaderV1 = ''HPGBK1'' @ [CHR 0x00, CHR 0x00]"

definition streamHeaderV2 :: string where
  "streamHeaderV2 = ''HPGBK2'' @ [CHR 0x00, CHR 0x00]"

definition chunkSize :: nat where
  "chunkSize = 2 ^ 20"

definition maxStreamChunkCT :: nat where
  "maxStreamChunkCT = 4 * 2 ^ 20"

definition nonceSize :: nat where
  "nonceSize = 12"

text \<open>\<open>binary.BigEndian\<close>: \<open>be k n\<close> are the \<open>k\<close> low bytes of \<open>n\<close>, most significant first.\<close>

fun be :: "nat \<Rightarrow> nat \<Rightarrow> string" where
  "be 0 n = []"
| "be (Suc k) n = be k (n div 256) @ [char_of (n mod 256)]"

fun be_val :: "nat \<Rightarrow> string \<Rightarrow> nat" where
  "be_val acc [] = acc"
| "be_val acc (c # cs) = be_val (256 * acc + byte c) cs"

definition chunkAAD :: "nat \<Rightarrow> bool \<Rightarrow> string" where
  "chunkAAD index final = be 8 index @ [if final then CHR 0x01 else CHR 0x00]"

section \<open>Writer\<close>

record streamEncryptWriter =
  enc_w :: sink
  enc_rands :: "string list"
  enc_buf :: string
  enc_idx :: nat
  enc_written :: bool
  enc_closed :: bool

definition newStreamEncryptWriter :: "sink \<Rightarrow> string list \<Rightarrow> string \<Rightarrow> stream_error + streamEncryptWriter" where
  "newStreamEncryptWriter w rands key =
     (if length key \<noteq> 32 then Inl (Bad_key_length (length key))
      else Inr \<lparr>enc_w = w, enc_rands = rands, enc_buf = [], enc_idx = 0, enc_written = False, enc_closed = False\<rparr>)"

definition enc_emit :: "streamEncryptWriter \<Rightarrow> string \<Rightarrow> streamEncryptWriter option" where
  "enc_emit s p = map_option (\<lambda>w. s\<lparr>enc_w := w\<rparr>) (sink_write (enc_w s) p)"

text \<open>The three writes of one chunk: each may fail with what went before already written.\<close>

fun enc_emits :: "streamEncryptWriter \<Rightarrow> string list \<Rightarrow> streamEncryptWriter \<times> stream_error option" where
  "enc_emits s [] = (s, None)"
| "enc_emits s (p # ps) = (case enc_emit s p of None \<Rightarrow> (s, Some Write_failed) | Some s' \<Rightarrow> enc_emits s' ps)"

definition flushChunk :: "aead \<Rightarrow> streamEncryptWriter \<Rightarrow> bool \<Rightarrow> streamEncryptWriter \<times> stream_error option" where
  "flushChunk A s final =
     (if enc_buf s = [] \<and> \<not> final then (s, None)
      else case enc_rands s of
        [] \<Rightarrow> (s, Some Rand_failed)
      | nonce # rands \<Rightarrow>
          (let ct = Seal A nonce (enc_buf s) (chunkAAD (enc_idx s) final);
               s1 = s\<lparr>enc_rands := rands, enc_idx := Suc (enc_idx s)\<rparr>
           in case enc_emits s1 [be 4 (length ct), nonce, ct] of
                (s2, Some e) \<Rightarrow> (s2, Some e)
              | (s2, None) \<Rightarrow> (s2\<lparr>enc_buf := []\<rparr>, None)))"

text \<open>The loop of \<open>Write\<close>; slicing with a negative \<open>room\<close> would panic.\<close>

function write_loop :: "aead \<Rightarrow> streamEncryptWriter \<Rightarrow> string \<Rightarrow> nat \<Rightarrow> streamEncryptWriter \<times> nat \<times> stream_error option" where
  "write_loop A s p tot =
     (if p = [] then (s, tot, None)
      else if chunkSize < length (enc_buf s) then (s, tot, Some Slice_panic)
      else
        (let n = min (length p) (chunkSize - length (enc_buf s));
             s1 = s\<lparr>enc_buf := enc_buf s @ take n p\<rparr>;
             tot' = tot + n
         in if length (enc_buf s1) = chunkSize then
              (case flushChunk A s1 False of
                 (s2, Some e) \<Rightarrow> (s2, tot', Some e)
               | (s2, None) \<Rightarrow> write_loop A s2 (drop n p) tot')
            else write_loop A s1 (drop n p) tot'))"
  by pat_completeness auto

lemma enc_emits_sel [simp]:
  "enc_emits s ps = (s', e) \<Longrightarrow> enc_buf s' = enc_buf s \<and> enc_idx s' = enc_idx s \<and> enc_rands s' = enc_rands s \<and>
     enc_written s' = enc_written s \<and> enc_closed s' = enc_closed s"
  by (induction s ps rule: enc_emits.induct) (auto simp: enc_emit_def split: option.split_asm)

lemma flushChunk_buf: "flushChunk A s final = (s', None) \<Longrightarrow> enc_buf s' = []"
  by (auto simp: flushChunk_def Let_def split: if_split_asm list.split_asm prod.split_asm option.split_asm)

termination write_loop
proof (relation "measure (\<lambda>(A, s, p, t). 2 * length p + (if length (enc_buf s) = chunkSize then 1 else 0))", goal_cases)
  case (2 A s p tot n s1 tot' s2 x)
  have "0 < chunkSize" by (simp add: chunkSize_def)
  moreover have "enc_buf s2 = []" using flushChunk_buf 2 by metis
  moreover have "n = 0 \<Longrightarrow> length (enc_buf s) = chunkSize" using 2 by auto
  ultimately show ?case using 2 by (cases "n = 0") auto
next
  case (3 A s p tot n s1 tot')
  then have "n \<le> length p" "n \<noteq> chunkSize - length (enc_buf s)" "p \<noteq> []" by auto
  then have "n = length p" using 3(3) by linarith
  then show ?case using 3 by auto
qed simp

declare write_loop.simps [simp del]

definition enc_Write :: "aead \<Rightarrow> streamEncryptWriter \<Rightarrow> string \<Rightarrow> streamEncryptWriter \<times> nat \<times> stream_error option" where
  "enc_Write A s p =
     (if enc_closed s then (s, 0, Some Write_on_closed)
      else if \<not> enc_written s then
        (case enc_emit s streamHeaderV2 of
           None \<Rightarrow> (s, 0, Some Write_failed)
         | Some s' \<Rightarrow> write_loop A (s'\<lparr>enc_written := True\<rparr>) p 0)
      else write_loop A s p 0)"

definition enc_Close :: "aead \<Rightarrow> streamEncryptWriter \<Rightarrow> streamEncryptWriter \<times> stream_error option" where
  "enc_Close A s =
     (if enc_closed s then (s, None)
      else
        (let s = s\<lparr>enc_closed := True\<rparr> in
         if \<not> enc_written s then
           (case enc_emit s streamHeaderV2 of
              None \<Rightarrow> (s, Some Write_failed)
            | Some s' \<Rightarrow> flushChunk A s' True)
         else flushChunk A s True))"

section \<open>Decoder\<close>

text \<open>\<open>io.ReadFull\<close>: the bytes and the rest, or the error that tells an empty reader from a short one.\<close>

definition ReadFull :: "nat \<Rightarrow> string \<Rightarrow> stream_error + string \<times> string" where
  "ReadFull n r =
     (if n \<le> length r then Inr (take n r, drop n r) else if r = [] then Inl Read_EOF else Inl Read_unexpected_EOF)"

text \<open>The part of an iteration that reads one chunk, after its length.\<close>

definition read_chunk :: "string \<Rightarrow> string \<Rightarrow> stream_error + string \<times> string \<times> string" where
  "read_chunk lb r =
     (let n = be_val 0 lb in
      if maxStreamChunkCT < n then Inl (Chunk_too_long n)
      else case ReadFull nonceSize r of
        Inl e \<Rightarrow> Inl e
      | Inr (nonce, r1) \<Rightarrow>
          (case ReadFull n r1 of Inl e \<Rightarrow> Inl e | Inr (ct, r2) \<Rightarrow> Inr (nonce, ct, r2)))"

function streamDecryptV2 :: "aead \<Rightarrow> string \<Rightarrow> sink \<Rightarrow> nat \<Rightarrow> bool \<Rightarrow> sink \<times> stream_error option" where
  "streamDecryptV2 A r w idx sawFinal =
     (case ReadFull 4 r of
        Inl Read_EOF \<Rightarrow> (w, if sawFinal then None else Some Truncated_stream)
      | Inl e \<Rightarrow> (w, Some e)
      | Inr (lb, r1) \<Rightarrow>
          (case read_chunk lb r1 of
             Inl e \<Rightarrow> (w, Some e)
           | Inr (nonce, ct, r2) \<Rightarrow>
               (if sawFinal then (w, Some Data_after_final)
                else
                  (case Open A nonce ct (chunkAAD idx True) of
                     Some pt \<Rightarrow>
                       (case sink_write w pt of
                          None \<Rightarrow> (w, Some Write_failed)
                        | Some w' \<Rightarrow> streamDecryptV2 A r2 w' (Suc idx) True)
                   | None \<Rightarrow>
                       (case Open A nonce ct (chunkAAD idx False) of
                          None \<Rightarrow> (w, Some (Decrypt_failed idx))
                        | Some pt \<Rightarrow>
                            (case sink_write w pt of
                               None \<Rightarrow> (w, Some Write_failed)
                             | Some w' \<Rightarrow> streamDecryptV2 A r2 w' (Suc idx) False))))))"
  by pat_completeness auto

lemma ReadFull_length: "ReadFull n r = Inr (a, b) \<Longrightarrow> r = a @ b \<and> length a = n"
  by (auto simp: ReadFull_def split: if_split_asm)

lemma read_chunk_length: "read_chunk lb r = Inr (nonce, ct, r2) \<Longrightarrow> length r2 \<le> length r"
  by (auto simp: read_chunk_def Let_def dest!: ReadFull_length split: if_split_asm sum.split_asm)

termination streamDecryptV2
  by (relation "measure (\<lambda>(A, r, w, i, f). length r)")
    (auto dest!: ReadFull_length read_chunk_length)

declare streamDecryptV2.simps [simp del]

function streamDecryptV1 :: "aead \<Rightarrow> string \<Rightarrow> sink \<Rightarrow> sink \<times> stream_error option" where
  "streamDecryptV1 A r w =
     (case ReadFull 4 r of
        Inl Read_EOF \<Rightarrow> (w, None)
      | Inl e \<Rightarrow> (w, Some e)
      | Inr (lb, r1) \<Rightarrow>
          (case read_chunk lb r1 of
             Inl e \<Rightarrow> (w, Some e)
           | Inr (nonce, ct, r2) \<Rightarrow>
               (case Open A nonce ct [] of
                  None \<Rightarrow> (w, Some (Decrypt_failed 0))
                | Some pt \<Rightarrow>
                    (case sink_write w pt of
                       None \<Rightarrow> (w, Some Write_failed)
                     | Some w' \<Rightarrow> streamDecryptV1 A r2 w'))))"
  by pat_completeness auto

termination streamDecryptV1
  by (relation "measure (\<lambda>(A, r, w). length r)")
    (auto dest!: ReadFull_length read_chunk_length)

declare streamDecryptV1.simps [simp del]

definition StreamDecrypt :: "aead \<Rightarrow> string \<Rightarrow> sink \<Rightarrow> string \<Rightarrow> sink \<times> stream_error option" where
  "StreamDecrypt A r w key =
     (if length key \<noteq> 32 then (w, Some (Bad_key_length (length key)))
      else case ReadFull (length streamHeaderV2) r of
        Inl e \<Rightarrow> (w, Some e)
      | Inr (hdr, r1) \<Rightarrow>
          (if hdr = streamHeaderV2 then streamDecryptV2 A r1 w 0 False
           else if hdr = streamHeaderV1 then streamDecryptV1 A r1 w
           else (w, Some Bad_header)))"

end
