(* ===== verification/Backup_Integrity.thy ===== *)
theory Backup_Integrity
  imports Backup_Stream
begin

text \<open>
  What the backup stream guarantees: the bytes written do not depend on how the caller cuts the data
  into writes, decoding gives the data back, and a stream that was cut short or whose chunks were
  reordered, repeated or dropped is refused. \<open>chunk_frames\<close> is the reference description of a stream.
\<close>

section \<open>The reference stream\<close>

definition frame :: "aead \<Rightarrow> string \<Rightarrow> nat \<Rightarrow> bool \<Rightarrow> string \<Rightarrow> string" where
  "frame A nonce i final p =
     (let ct = Seal A nonce p (chunkAAD i final) in be 4 (length ct) @ nonce @ ct)"

lemma chunkSize_pos [simp]: "0 < chunkSize" "chunkSize \<noteq> 0"
  by (simp_all add: chunkSize_def)

function chunk_frames :: "aead \<Rightarrow> string list \<Rightarrow> nat \<Rightarrow> string \<Rightarrow> string list" where
  "chunk_frames A rs i d =
     (if length d < chunkSize then [frame A (hd rs) i True d]
      else frame A (hd rs) i False (take chunkSize d) # chunk_frames A (tl rs) (Suc i) (drop chunkSize d))"
  by pat_completeness auto

termination chunk_frames
proof (relation "measure (\<lambda>(A, rs, i, d). length d)", goal_cases)
  case (2 A rs i d)
  moreover have "0 < chunkSize" by simp
  ultimately show ?case by (simp del: chunkSize_pos)
qed simp

declare chunk_frames.simps [simp del]

text \<open>Enough nonces of the right size for \<open>d\<close>, and an ideal cipher: opening gives the plain text back
  under the additional data it was sealed with, and fails under any other.\<close>

definition nonces_for :: "string list \<Rightarrow> string \<Rightarrow> bool" where
  "nonces_for rs d \<longleftrightarrow> length d div chunkSize < length rs \<and> (\<forall>r \<in> set rs. length r = nonceSize)"

definition aead_ok :: "aead \<Rightarrow> bool" where
  "aead_ok A \<longleftrightarrow>
     (\<forall>n p a. length (Seal A n p a) = length p + 16) \<and>
     (\<forall>n p a a'. length a = 9 \<longrightarrow> length a' = 9 \<longrightarrow> Open A n (Seal A n p a) a' = (if a' = a then Some p else None))"

section \<open>Big-endian numbers\<close>

lemma be_length [simp]: "length (be k n) = k"
  by (induction k arbitrary: n) auto

lemma be_val_append: "be_val acc (xs @ [c]) = 256 * be_val acc xs + byte c"
  by (induction xs arbitrary: acc) auto

lemma byte_char_of_mod [simp]: "byte (char_of n) = n mod 256"
  by (simp add: byte_def)

lemma be_val_be: "be_val 0 (be k n) = n mod 256 ^ k"
proof (induction k arbitrary: n)
  case (Suc k)
  have "be_val 0 (be (Suc k) n) = 256 * (n div 256 mod 256 ^ k) + n mod 256"
    by (simp add: be_val_append Suc.IH)
  also have "\<dots> = n mod (256 * 256 ^ k)" by (simp only: mod_mult2_eq)
  finally show ?case by (simp only: power_Suc)
qed simp

lemma be_inj: "m < 256 ^ k \<Longrightarrow> n < 256 ^ k \<Longrightarrow> be k m = be k n \<longleftrightarrow> m = n"
  by (metis be_val_be mod_less)

lemma chunkAAD_inj:
  assumes "i < 2 ^ 64" "j < 2 ^ 64"
  shows "chunkAAD i f = chunkAAD j g \<longleftrightarrow> i = j \<and> f = g"
proof -
  have "(256 :: nat) ^ 8 = 2 ^ 64" by simp
  then show ?thesis using assms be_inj [of i 8 j] by (auto simp: chunkAAD_def split: if_split_asm)
qed

lemma chunkAAD_flag [simp]: "chunkAAD i True \<noteq> chunkAAD i False" "chunkAAD i False \<noteq> chunkAAD i True"
  by (simp_all add: chunkAAD_def)

section \<open>The writer\<close>

fun full_frames :: "aead \<Rightarrow> string list \<Rightarrow> nat \<Rightarrow> string list \<Rightarrow> string list" where
  "full_frames A rs i [] = []"
| "full_frames A rs i (p # ps) = frame A (hd rs) i False p # full_frames A (tl rs) (Suc i) ps"

lemma full_frames_append:
  "full_frames A rs i (ps @ [p]) = full_frames A rs i ps @ [frame A (hd (drop (length ps) rs)) (i + length ps) False p]"
  by (induction A rs i ps rule: full_frames.induct) (auto simp: drop_Suc)

lemma chunk_frames_concat:
  "\<forall>p \<in> set ps. length p = chunkSize \<Longrightarrow> length b < chunkSize \<Longrightarrow>
     chunk_frames A rs i (concat ps @ b) =
       full_frames A rs i ps @ [frame A (hd (drop (length ps) rs)) (i + length ps) True b]"
  by (induction A rs i ps rule: full_frames.induct) (auto simp: chunk_frames.simps drop_Suc)

text \<open>What the writer has done after the data \<open>d\<close>: the full chunks are out, the rest is buffered.\<close>

definition enc_rel :: "aead \<Rightarrow> string list \<Rightarrow> string \<Rightarrow> streamEncryptWriter \<Rightarrow> bool" where
  "enc_rel A rs d s \<longleftrightarrow> (\<exists>ps.
     d = concat ps @ enc_buf s \<and> (\<forall>p \<in> set ps. length p = chunkSize) \<and> length (enc_buf s) < chunkSize \<and>
     enc_idx s = length ps \<and> enc_rands s = drop (length ps) rs \<and>
     enc_w s = \<lparr>sink_data = streamHeaderV2 @ concat (full_frames A rs 0 ps), sink_room = None\<rparr> \<and>
     enc_written s \<and> \<not> enc_closed s)"

lemma full_length: "\<forall>p \<in> set ps. length p = chunkSize \<Longrightarrow> length (concat ps) = length ps * chunkSize"
  by (induction ps) auto

lemma flushChunk_ok:
  assumes "enc_buf s \<noteq> [] \<or> final" "enc_rands s = r # rs" "sink_room (enc_w s) = None"
  shows "flushChunk A s final =
    (s\<lparr>enc_rands := rs, enc_idx := Suc (enc_idx s), enc_buf := [],
       enc_w := \<lparr>sink_data = sink_data (enc_w s) @ frame A r (enc_idx s) final (enc_buf s), sink_room = None\<rparr>\<rparr>, None)"
  using assms by (auto simp: flushChunk_def Let_def enc_emit_def sink_write_def frame_def)

lemma enc_rel_buffer:
  "enc_rel A rs d s \<Longrightarrow> length (enc_buf s) + length p < chunkSize \<Longrightarrow> enc_rel A rs (d @ p) (s\<lparr>enc_buf := enc_buf s @ p\<rparr>)"
  unfolding enc_rel_def by auto

lemma enc_rel_flush:
  assumes "enc_rel A rs d s" "length (enc_buf s) + length p = chunkSize" "length d div chunkSize < length rs"
  shows "\<exists>s'. flushChunk A (s\<lparr>enc_buf := enc_buf s @ p\<rparr>) False = (s', None) \<and> enc_rel A rs (d @ p) s'"
proof -
  from assms(1) obtain ps where ps: "d = concat ps @ enc_buf s" "\<forall>p \<in> set ps. length p = chunkSize"
      "length (enc_buf s) < chunkSize" "enc_idx s = length ps" "enc_rands s = drop (length ps) rs"
      "enc_w s = \<lparr>sink_data = streamHeaderV2 @ concat (full_frames A rs 0 ps), sink_room = None\<rparr>"
      "enc_written s" "\<not> enc_closed s"
    unfolding enc_rel_def by blast
  have "length d div chunkSize = length ps"
    using ps(1,3) full_length [OF ps(2)] by (simp add: div_mult_self3)
  with assms(3) obtain r where r: "enc_rands s = r # drop (Suc (length ps)) rs" "hd (drop (length ps) rs) = r"
    using ps(5) by (metis Cons_nth_drop_Suc list.sel(1))
  let ?s = "s\<lparr>enc_buf := enc_buf s @ p\<rparr>"
  have "enc_buf ?s \<noteq> [] \<or> False" using assms(2) by auto
  from flushChunk_ok [OF this, of r "drop (Suc (length ps)) rs" A] r ps(6)
  have "flushChunk A ?s False =
    (?s\<lparr>enc_rands := drop (Suc (length ps)) rs, enc_idx := Suc (length ps), enc_buf := [],
       enc_w := \<lparr>sink_data = streamHeaderV2 @ concat (full_frames A rs 0 (ps @ [enc_buf s @ p])), sink_room = None\<rparr>\<rparr>, None)"
    using ps(4) by (simp add: full_frames_append)
  moreover have "enc_rel A rs (d @ p)
    (?s\<lparr>enc_rands := drop (Suc (length ps)) rs, enc_idx := Suc (length ps), enc_buf := [],
       enc_w := \<lparr>sink_data = streamHeaderV2 @ concat (full_frames A rs 0 (ps @ [enc_buf s @ p])), sink_room = None\<rparr>\<rparr>)"
    unfolding enc_rel_def using ps assms(2) by (intro exI [of _ "ps @ [enc_buf s @ p]"]) auto
  ultimately show ?thesis by blast
qed

lemma write_loop_step:
  assumes "p \<noteq> []" "length (enc_buf s) \<le> chunkSize" "n = min (length p) (chunkSize - length (enc_buf s))"
    "s1 = s\<lparr>enc_buf := enc_buf s @ take n p\<rparr>"
  shows "length (enc_buf s1) = chunkSize \<Longrightarrow> flushChunk A s1 False = (s2, None) \<Longrightarrow>
      write_loop A s p t = write_loop A s2 (drop n p) (t + n)"
    and "length (enc_buf s1) \<noteq> chunkSize \<Longrightarrow> write_loop A s p t = write_loop A s1 (drop n p) (t + n)"
proof -
  have "p = [] \<longleftrightarrow> False" "chunkSize < length (enc_buf s) \<longleftrightarrow> False" using assms(1,2) by auto
  then have "write_loop A s p t =
     (if length (enc_buf s1) = chunkSize then
        (case flushChunk A s1 False of
           (s2, Some e) \<Rightarrow> (s2, t + n, Some e)
         | (s2, None) \<Rightarrow> write_loop A s2 (drop n p) (t + n))
      else write_loop A s1 (drop n p) (t + n))"
    unfolding assms(3,4) by (subst write_loop.simps) (simp only: if_False Let_def)
  then show "length (enc_buf s1) = chunkSize \<Longrightarrow> flushChunk A s1 False = (s2, None) \<Longrightarrow>
      write_loop A s p t = write_loop A s2 (drop n p) (t + n)"
    and "length (enc_buf s1) \<noteq> chunkSize \<Longrightarrow> write_loop A s p t = write_loop A s1 (drop n p) (t + n)"
    by simp_all
qed

lemma write_loop_ok:
  assumes "enc_rel A rs d s" "length (d @ p) div chunkSize < length rs"
  shows "\<exists>s'. write_loop A s p t = (s', t + length p, None) \<and> enc_rel A rs (d @ p) s'"
  using assms
proof (induction A s p t arbitrary: d rule: write_loop.induct)
  case (1 A s p tot)
  define n where "n = min (length p) (chunkSize - length (enc_buf s))"
  define s1 where "s1 = s\<lparr>enc_buf := enc_buf s @ take n p\<rparr>"
  have small: "length (enc_buf s) < chunkSize" using 1(3) unfolding enc_rel_def by blast
  have enough: "length ((d @ take n p) @ drop n p) div chunkSize < length rs" using 1(4) by simp
  have n: "n \<le> length p" "n \<le> chunkSize - length (enc_buf s)" by (simp_all add: n_def)
  show ?case
  proof (cases "p = []")
    case True
    then show ?thesis using 1(3) by (simp add: write_loop.simps)
  next
    case p: False
    note step = write_loop_step [OF p less_imp_le [OF small] n_def s1_def]
    have big: "\<not> chunkSize < length (enc_buf s)" using small by simp
    show ?thesis
    proof (cases "length (enc_buf s1) = chunkSize")
      case True
      have "length d div chunkSize \<le> length (d @ p) div chunkSize" by (simp add: div_le_mono)
      then have "length d div chunkSize < length rs" using 1(4) by (rule le_less_trans)
      then obtain s2 where s2: "flushChunk A s1 False = (s2, None)" "enc_rel A rs (d @ take n p) s2"
        using enc_rel_flush [OF 1(3), of "take n p"] True by (auto simp: s1_def)
      from 1(1) [OF p big n_def s1_def refl True s2(1) [symmetric] refl s2(2) enough] n(1)
      show ?thesis unfolding step(1) [OF True s2(1)] by simp
    next
      case False
      then have "length (enc_buf s) + length (take n p) < chunkSize" using n small by (simp add: s1_def)
      then have "enc_rel A rs (d @ take n p) s1" unfolding s1_def by (rule enc_rel_buffer [OF 1(3)])
      from 1(2) [OF p big n_def s1_def refl False this enough] n(1)
      show ?thesis unfolding step(2) [OF False] by simp
    qed
  qed
qed

text \<open>The writer before its first write, and a run: some writes, then \<open>Close\<close>.\<close>

definition enc_start :: "string list \<Rightarrow> streamEncryptWriter" where
  "enc_start rands = \<lparr>enc_w = \<lparr>sink_data = [], sink_room = None\<rparr>, enc_rands = rands, enc_buf = [], enc_idx = 0,
     enc_written = False, enc_closed = False\<rparr>"

fun enc_Writes :: "aead \<Rightarrow> streamEncryptWriter \<Rightarrow> string list \<Rightarrow> streamEncryptWriter \<times> stream_error option" where
  "enc_Writes A s [] = (s, None)"
| "enc_Writes A s (p # ps) =
     (case enc_Write A s p of (s', n, Some e) \<Rightarrow> (s', Some e) | (s', n, None) \<Rightarrow> enc_Writes A s' ps)"

definition encrypt_stream :: "aead \<Rightarrow> string list \<Rightarrow> string \<Rightarrow> string list \<Rightarrow> stream_error + string" where
  "encrypt_stream A rands key ps =
     (case newStreamEncryptWriter \<lparr>sink_data = [], sink_room = None\<rparr> rands key of
        Inl e \<Rightarrow> Inl e
      | Inr s \<Rightarrow>
          (case enc_Writes A s ps of
             (s', Some e) \<Rightarrow> Inl e
           | (s', None) \<Rightarrow>
               (case enc_Close A s' of
                  (s'', Some e) \<Rightarrow> Inl e
                | (s'', None) \<Rightarrow> Inr (sink_data (enc_w s'')))))"

definition enc_after :: "aead \<Rightarrow> string list \<Rightarrow> string \<Rightarrow> streamEncryptWriter \<Rightarrow> bool" where
  "enc_after A rs d s \<longleftrightarrow> enc_rel A rs d s \<or> (d = [] \<and> s = enc_start rs)"

lemma enc_rel_start:
  "enc_rel A rs [] ((enc_start rs)\<lparr>enc_w := \<lparr>sink_data = streamHeaderV2, sink_room = None\<rparr>, enc_written := True\<rparr>)"
  by (simp add: enc_rel_def enc_start_def)

lemma enc_emit_start:
  "enc_emit (enc_start rs) p = Some ((enc_start rs)\<lparr>enc_w := \<lparr>sink_data = p, sink_room = None\<rparr>\<rparr>)"
  by (simp add: enc_emit_def enc_start_def sink_write_def)

lemma enc_Write_ok:
  assumes "enc_after A rs d s" "length (d @ p) div chunkSize < length rs"
  shows "\<exists>s' n. enc_Write A s p = (s', n, None) \<and> enc_after A rs (d @ p) s'"
proof (cases "enc_rel A rs d s")
  case r: True
  then have "enc_written s" "\<not> enc_closed s" by (auto simp: enc_rel_def)
  then show ?thesis using write_loop_ok [OF r assms(2), of 0] by (auto simp: enc_Write_def enc_after_def)
next
  case False
  then have s: "d = []" "s = enc_start rs" using assms(1) by (auto simp: enc_after_def)
  then have "\<not> enc_written s" "\<not> enc_closed s" by (auto simp: enc_start_def)
  then show ?thesis
    using write_loop_ok [OF enc_rel_start [of A rs], of p 0] assms(2) s by (auto simp: enc_Write_def enc_emit_start enc_after_def)
qed

lemma enc_Writes_ok:
  "enc_after A rs d s \<Longrightarrow> length (d @ concat ps) div chunkSize < length rs \<Longrightarrow>
     \<exists>s'. enc_Writes A s ps = (s', None) \<and> enc_after A rs (d @ concat ps) s'"
proof (induction ps arbitrary: d s)
  case (Cons p ps)
  have "length (d @ p) div chunkSize \<le> length (d @ concat (p # ps)) div chunkSize" by (rule div_le_mono) simp
  then have "length (d @ p) div chunkSize < length rs" using Cons.prems(2) by (rule le_less_trans)
  from enc_Write_ok [OF Cons.prems(1) this] obtain s' n
    where "enc_Write A s p = (s', n, None)" "enc_after A rs (d @ p) s'" by blast
  then show ?case using Cons.IH [of "d @ p" s'] Cons.prems(2) by auto
qed simp

lemma enc_flush_final:
  assumes "enc_rel A rs d s" "length d div chunkSize < length rs"
  shows "\<exists>s'. flushChunk A (s\<lparr>enc_closed := True\<rparr>) True = (s', None) \<and>
    sink_data (enc_w s') = streamHeaderV2 @ concat (chunk_frames A rs 0 d)"
proof -
  from assms(1) obtain ps where ps: "d = concat ps @ enc_buf s" "\<forall>p \<in> set ps. length p = chunkSize"
      "length (enc_buf s) < chunkSize" "enc_idx s = length ps" "enc_rands s = drop (length ps) rs"
      "enc_w s = \<lparr>sink_data = streamHeaderV2 @ concat (full_frames A rs 0 ps), sink_room = None\<rparr>"
    unfolding enc_rel_def by blast
  have "length d div chunkSize = length ps"
    using ps(1,3) full_length [OF ps(2)] by (simp add: div_mult_self3)
  with assms(2) obtain r where r: "enc_rands s = r # drop (Suc (length ps)) rs" "hd (drop (length ps) rs) = r"
    using ps(5) by (metis Cons_nth_drop_Suc list.sel(1))
  have "chunk_frames A rs 0 d = full_frames A rs 0 ps @ [frame A r (length ps) True (enc_buf s)]"
    using chunk_frames_concat [OF ps(2,3), of A rs 0] ps(1) r(2) by simp
  then show ?thesis using flushChunk_ok [of "s\<lparr>enc_closed := True\<rparr>" True r "drop (Suc (length ps)) rs" A] r(1) ps(4,6) by simp
qed

lemma enc_Close_ok:
  assumes "enc_after A rs d s" "length d div chunkSize < length rs"
  shows "\<exists>s'. enc_Close A s = (s', None) \<and> sink_data (enc_w s') = streamHeaderV2 @ concat (chunk_frames A rs 0 d)"
proof (cases "enc_rel A rs d s")
  case r: True
  then have "enc_written s" "\<not> enc_closed s" by (auto simp: enc_rel_def)
  then show ?thesis using enc_flush_final [OF r assms(2)] by (simp add: enc_Close_def Let_def)
next
  case False
  then have s: "d = []" "s = enc_start rs" using assms(1) by (auto simp: enc_after_def)
  obtain r rs' where "rs = r # rs'" using assms(2) by (cases rs) auto
  then show ?thesis using s
    by (simp add: enc_Close_def Let_def enc_start_def enc_emit_def sink_write_def flushChunk_ok chunk_frames.simps)
qed

lemma encrypt_stream_eq:
  assumes "length key = 32" "length (concat ps) div chunkSize < length rs"
  shows "encrypt_stream A rs key ps = Inr (streamHeaderV2 @ concat (chunk_frames A rs 0 (concat ps)))"
proof -
  have "newStreamEncryptWriter \<lparr>sink_data = [], sink_room = None\<rparr> rs key = Inr (enc_start rs)"
    using assms(1) by (simp add: newStreamEncryptWriter_def enc_start_def)
  moreover obtain s where "enc_Writes A (enc_start rs) ps = (s, None)" "enc_after A rs (concat ps) s"
    using enc_Writes_ok [of A rs "[]" "enc_start rs" ps] assms(2) by (auto simp: enc_after_def)
  ultimately show ?thesis using enc_Close_ok [of A rs "concat ps" s] assms(2) by (auto simp: encrypt_stream_def)
qed

section \<open>The decoder\<close>

lemma maxCT: "n \<le> chunkSize \<Longrightarrow> n + 16 \<le> maxStreamChunkCT" "n \<le> chunkSize \<Longrightarrow> n + 16 < 256 ^ 4"
  by (simp_all add: chunkSize_def maxStreamChunkCT_def)

lemma read_frame:
  assumes "aead_ok A" "length nonce = nonceSize" "length p \<le> chunkSize"
  shows "ReadFull 4 (frame A nonce j f p @ rest) =
      Inr (be 4 (length p + 16), nonce @ Seal A nonce p (chunkAAD j f) @ rest)"
    and "read_chunk (be 4 (length p + 16)) (nonce @ Seal A nonce p (chunkAAD j f) @ rest) =
      Inr (nonce, Seal A nonce p (chunkAAD j f), rest)"
proof -
  have len: "length (Seal A nonce p (chunkAAD j f)) = length p + 16" using assms(1) by (simp add: aead_ok_def)
  then show "ReadFull 4 (frame A nonce j f p @ rest) =
      Inr (be 4 (length p + 16), nonce @ Seal A nonce p (chunkAAD j f) @ rest)"
    by (simp add: frame_def ReadFull_def)
  have "be_val 0 (be 4 (length p + 16)) = length p + 16"
    unfolding be_val_be using maxCT(2) [OF assms(3)] by (rule mod_less)
  then show "read_chunk (be 4 (length p + 16)) (nonce @ Seal A nonce p (chunkAAD j f) @ rest) =
      Inr (nonce, Seal A nonce p (chunkAAD j f), rest)"
    using maxCT(1) [OF assms(3)] len assms(2) by (simp add: read_chunk_def ReadFull_def)
qed

text \<open>One chunk of the stream, read at position \<open>i\<close>.\<close>

lemma decrypt_frame:
  assumes "aead_ok A" "length nonce = nonceSize" "length p \<le> chunkSize" "sink_room w = None"
  shows "streamDecryptV2 A (frame A nonce j f p @ rest) w i sawFinal =
    (if sawFinal then (w, Some Data_after_final)
     else if chunkAAD j f = chunkAAD i True then streamDecryptV2 A rest (w\<lparr>sink_data := sink_data w @ p\<rparr>) (Suc i) True
     else if chunkAAD j f = chunkAAD i False then streamDecryptV2 A rest (w\<lparr>sink_data := sink_data w @ p\<rparr>) (Suc i) False
     else (w, Some (Decrypt_failed i)))"
proof -
  have op: "Open A nonce (Seal A nonce p (chunkAAD k g)) (chunkAAD k' g') =
      (if chunkAAD k' g' = chunkAAD k g then Some p else None)" for k g k' g'
    using assms(1) by (simp add: aead_ok_def chunkAAD_def)
  have "sink_write w p = Some (w\<lparr>sink_data := sink_data w @ p\<rparr>)" using assms(4) by (simp add: sink_write_def)
  then show ?thesis
    by (subst streamDecryptV2.simps) (auto simp: read_frame [OF assms(1-3)] op)
qed

lemma decrypt_end: "streamDecryptV2 A [] w i sawFinal = (w, if sawFinal then None else Some Truncated_stream)"
  by (subst streamDecryptV2.simps) (simp add: ReadFull_def)

lemma decrypt_cut:
  assumes "aead_ok A" "length nonce = nonceSize" "length p \<le> chunkSize" "strict_prefix q (frame A nonce j f p)"
  shows "snd (streamDecryptV2 A q w i False) \<noteq> None"
proof (cases "length q < 4")
  case True
  then show ?thesis by (subst streamDecryptV2.simps) (simp add: ReadFull_def)
next
  case False
  let ?ct = "Seal A nonce p (chunkAAD j f)"
  have len: "length ?ct = length p + 16" using assms(1) by (simp add: aead_ok_def)
  obtain z where z: "frame A nonce j f p = q @ z" "z \<noteq> []" using assms(4) by (auto simp: strict_prefix_def prefix_def)
  have whole: "frame A nonce j f p = be 4 (length p + 16) @ nonce @ ?ct" using len by (simp add: frame_def)
  have lb: "take 4 q = be 4 (length p + 16)"
    using False arg_cong [OF z(1) [unfolded whole], of "take 4"] by simp
  have "length q + length z = 4 + 12 + (length p + 16)"
    using len assms(2) arg_cong [OF z(1), of length] by (simp add: whole nonceSize_def)
  moreover have "0 < length z" using z(2) by simp
  ultimately have short: "length (drop 4 q) < 12 + (length p + 16)" unfolding length_drop by linarith
  have "be_val 0 (be 4 (length p + 16)) = length p + 16"
    unfolding be_val_be using maxCT(2) [OF assms(3)] by (rule mod_less)
  then have "\<exists>e. read_chunk (take 4 q) (drop 4 q) = Inl e"
    using short maxCT(1) [OF assms(3)] by (simp add: lb read_chunk_def ReadFull_def nonceSize_def)
  then show ?thesis using False by (subst streamDecryptV2.simps) (auto simp: ReadFull_def)
qed

lemma nonces_step:
  assumes "nonces_for rs d" "\<not> length d < chunkSize"
  shows "nonces_for (tl rs) (drop chunkSize d)"
proof -
  have "length d div chunkSize = Suc ((length d - chunkSize) div chunkSize)" using assms(2) by (simp add: le_div_geq)
  then show ?thesis using assms(1) by (cases rs) (auto simp: nonces_for_def)
qed

lemma nonces_hd: "nonces_for rs d \<Longrightarrow> length (hd rs) = nonceSize"
  by (cases rs) (auto simp: nonces_for_def)

lemma decrypt_frames:
  "aead_ok A \<Longrightarrow> nonces_for rs d \<Longrightarrow> sink_room w = None \<Longrightarrow>
     streamDecryptV2 A (concat (chunk_frames A rs i d)) w i False = (w\<lparr>sink_data := sink_data w @ d\<rparr>, None)"
proof (induction A rs i d arbitrary: w rule: chunk_frames.induct)
  case (1 A rs i d)
  note hd = nonces_hd [OF 1(3)]
  show ?case
  proof (cases "length d < chunkSize")
    case True
    then show ?thesis using decrypt_frame [OF 1(2) hd _ 1(4), of d _ _ "[]"] by (simp add: chunk_frames.simps decrypt_end)
  next
    case False
    have "length (take chunkSize d) \<le> chunkSize" by simp
    from decrypt_frame [OF 1(2) hd this 1(4)] False 1(1) [OF False 1(2) nonces_step [OF 1(3) False], of "w\<lparr>sink_data := sink_data w @ take chunkSize d\<rparr>"] 1(4)
    show ?thesis by (subst chunk_frames.simps) simp
  qed
qed

lemma decrypt_prefix:
  "aead_ok A \<Longrightarrow> nonces_for rs d \<Longrightarrow> sink_room w = None \<Longrightarrow>
     strict_prefix q (concat (chunk_frames A rs i d)) \<Longrightarrow> snd (streamDecryptV2 A q w i False) \<noteq> None"
proof (induction A rs i d arbitrary: w q rule: chunk_frames.induct)
  case (1 A rs i d)
  note hd = nonces_hd [OF 1(3)]
  show ?case
  proof (cases "length d < chunkSize")
    case True
    then show ?thesis using decrypt_cut [OF 1(2) hd, of d q] 1(5) by (simp add: chunk_frames.simps)
  next
    case False
    let ?f = "frame A (hd rs) i False (take chunkSize d)"
    have len: "length (take chunkSize d) \<le> chunkSize" by simp
    have q: "strict_prefix q (?f @ concat (chunk_frames A (tl rs) (Suc i) (drop chunkSize d)))"
      using 1(5) False by (simp add: chunk_frames.simps [of A rs])
    then have "strict_prefix q ?f \<or> (\<exists>q'. q = ?f @ q' \<and> strict_prefix q' (concat (chunk_frames A (tl rs) (Suc i) (drop chunkSize d))))"
      by (auto simp: strict_prefix_def prefix_append)
    then show ?thesis
    proof (elim disjE exE conjE)
      fix q' assume "q = ?f @ q'" "strict_prefix q' (concat (chunk_frames A (tl rs) (Suc i) (drop chunkSize d)))"
      with 1(1) [OF False 1(2) nonces_step [OF 1(3) False], of "w\<lparr>sink_data := sink_data w @ take chunkSize d\<rparr>" q'] 1(4)
        decrypt_frame [OF 1(2) hd len 1(4)]
      show ?thesis by simp
    qed (rule decrypt_cut [OF 1(2) hd len])
  qed
qed

lemma chunk_frames_nth:
  "nonces_for rs d \<Longrightarrow> j < length (chunk_frames A rs i d) \<Longrightarrow>
     \<exists>n p. chunk_frames A rs i d ! j = frame A n (i + j) (Suc j = length (chunk_frames A rs i d)) p \<and>
       length n = nonceSize \<and> length p \<le> chunkSize"
proof (induction A rs i d arbitrary: j rule: chunk_frames.induct)
  case (1 A rs i d)
  note hd = nonces_hd [OF 1(2)]
  show ?case
  proof (cases "length d < chunkSize")
    case True
    then show ?thesis using 1(3) hd
      by (intro exI [where x = "hd rs", OF exI [where x = d]]) (simp add: chunk_frames.simps [of A rs])
  next
    case False
    let ?rest = "chunk_frames A (tl rs) (Suc i) (drop chunkSize d)"
    have unf: "chunk_frames A rs i d = frame A (hd rs) i False (take chunkSize d) # ?rest"
      using False by (simp add: chunk_frames.simps [of A rs])
    have "?rest \<noteq> []" by (simp add: chunk_frames.simps)
    then show ?thesis
    proof (cases j)
      case 0
      then show ?thesis unfolding unf using hd \<open>?rest \<noteq> []\<close>
        by (intro exI [where x = "hd rs", OF exI [where x = "take chunkSize d"]]) simp
    next
      case (Suc k)
      then show ?thesis using 1(1) [OF False nonces_step [OF 1(2) False], of k] 1(3) unfolding unf by auto
    qed
  qed
qed

lemma chunk_frames_length: "nonces_for rs d \<Longrightarrow> length (chunk_frames A rs i d) \<le> length rs"
proof (induction A rs i d rule: chunk_frames.induct)
  case (1 A rs i d)
  then have "rs \<noteq> []" by (auto simp: nonces_for_def)
  then show ?case using 1 nonces_step [of rs d] by (subst chunk_frames.simps) (cases rs; auto)
qed

text \<open>Chunks of one stream, in any number and order, decode only in their original sequence.\<close>

lemma decrypt_sequence:
  assumes "aead_ok A" "nonces_for rs d" "length fs < 2 ^ 64" and fs: "fs = chunk_frames A rs 0 d"
  shows "set zs \<subseteq> set fs \<Longrightarrow> sink_room w = None \<Longrightarrow> i < length fs \<Longrightarrow>
    snd (streamDecryptV2 A (concat zs) w i False) = None \<Longrightarrow> zs = drop i fs"
proof (induction zs arbitrary: i w)
  case Nil
  then show ?case by (simp add: decrypt_end)
next
  case (Cons z zs)
  then obtain j where j: "j < length fs" "fs ! j = z" by (auto simp: in_set_conv_nth)
  from chunk_frames_nth [OF assms(2), of j A 0] j fs obtain n p
    where z: "z = frame A n j (Suc j = length fs) p" "length n = nonceSize" "length p \<le> chunkSize" by auto
  let ?w = "w\<lparr>sink_data := sink_data w @ p\<rparr>"
  have w: "sink_room ?w = None" using Cons.prems(2) by simp
  note dec = decrypt_frame [OF assms(1) z(2,3) Cons.prems(2), of j "Suc j = length fs" "concat zs" i False]
  have aad: "chunkAAD j (Suc j = length fs) = chunkAAD i b \<longleftrightarrow> j = i \<and> (Suc j = length fs) = b" for b
    using j(1) Cons.prems(3) assms(3) by (intro chunkAAD_inj) auto
  then have ij: "j = i" using Cons.prems(4) dec z(1) by (auto split: if_split_asm)
  show ?case
  proof (cases "Suc i = length fs")
    case True
    then have "snd (streamDecryptV2 A (concat zs) ?w (Suc i) True) = None" using Cons.prems(4) dec z(1) aad ij by simp
    moreover have "snd (streamDecryptV2 A (concat zs) ?w (Suc i) True) \<noteq> None" if "zs = z' # zs'" for z' zs'
    proof -
      from that Cons.prems(1) obtain k where "k < length fs" "fs ! k = z'" by (auto simp: in_set_conv_nth)
      with chunk_frames_nth [OF assms(2), of k A 0] fs obtain n' p' k' f'
        where "z' = frame A n' k' f' p'" "length n' = nonceSize" "length p' \<le> chunkSize" by auto
      then show ?thesis using that decrypt_frame [OF assms(1) _ _ w] by simp
    qed
    ultimately have "zs = []" by (cases zs) auto
    then show ?thesis using j ij True by (simp add: Cons_nth_drop_Suc [symmetric])
  next
    case False
    then have "snd (streamDecryptV2 A (concat zs) ?w (Suc i) False) = None" using Cons.prems(4) dec z(1) aad ij by auto
    then have "zs = drop (Suc i) fs" using Cons.IH [of ?w "Suc i"] Cons.prems(1,3) w False by auto
    then show ?thesis using j ij Cons_nth_drop_Suc [of i fs] by simp
  qed
qed

section \<open>Properties\<close>

lemma StreamDecrypt_V2:
  "length key = 32 \<Longrightarrow> StreamDecrypt A (streamHeaderV2 @ body) w key = streamDecryptV2 A body w 0 False"
  by (simp add: StreamDecrypt_def ReadFull_def)

lemma header_cut:
  assumes "strict_prefix q streamHeaderV2" "length key = 32"
  shows "snd (StreamDecrypt A q w key) \<noteq> None"
proof -
  have "length q < length streamHeaderV2" using assms(1) by (rule prefix_length_less)
  then show ?thesis using assms(2) by (simp add: StreamDecrypt_def ReadFull_def)
qed

text \<open>A cipher and a key for the witnesses: the additional data is the tag, padded to 16 bytes.\<close>

definition w_aead :: aead where
  "w_aead = \<lparr>Seal = (\<lambda>n p a. p @ take 16 (a @ replicate 16 CHR 0x00)),
     Open = (\<lambda>n c a. if 16 \<le> length c \<and> length a = 9 \<and> drop (length c - 16) c = a @ replicate 7 CHR 0x00
       then Some (take (length c - 16) c) else None)\<rparr>"

text \<open>C16: whatever the caller's cuts, the writer produces the same stream, and decoding it gives
  the data back, for data of any length including none.\<close>

theorem backup_roundtrip:
  assumes "aead_ok A" "nonces_for rs (concat ps)" "length key = 32"
  shows "\<exists>out. encrypt_stream A rs key ps = Inr out \<and> encrypt_stream A rs key [concat ps] = Inr out \<and>
    StreamDecrypt A out \<lparr>sink_data = [], sink_room = None\<rparr> key = (\<lparr>sink_data = concat ps, sink_room = None\<rparr>, None)"
proof -
  have n: "length (concat ps) div chunkSize < length rs" using assms(2) by (simp add: nonces_for_def)
  have "encrypt_stream A rs key ps = encrypt_stream A rs key [concat ps]"
    using encrypt_stream_eq [OF assms(3) n] encrypt_stream_eq [OF assms(3), of "[concat ps]" rs A] n by simp
  moreover have "StreamDecrypt A (streamHeaderV2 @ concat (chunk_frames A rs 0 (concat ps))) \<lparr>sink_data = [], sink_room = None\<rparr> key
      = (\<lparr>sink_data = concat ps, sink_room = None\<rparr>, None)"
    using decrypt_frames [OF assms(1,2), of "\<lparr>sink_data = [], sink_room = None\<rparr>" 0] by (simp add: StreamDecrypt_V2 [OF assms(3)])
  ultimately show ?thesis using encrypt_stream_eq [OF assms(3) n, of A] by metis
qed

lemma w_aead_ok: "aead_ok w_aead"
  by (auto simp: aead_ok_def w_aead_def)

theorem backup_roundtrip_witness:
  "\<exists>out. encrypt_stream w_aead [replicate 12 CHR ''n''] (replicate 32 CHR ''k'') [''ab'', ''c''] = Inr out \<and>
     StreamDecrypt w_aead out \<lparr>sink_data = [], sink_room = None\<rparr> (replicate 32 CHR ''k'') =
       (\<lparr>sink_data = ''abc'', sink_room = None\<rparr>, None)"
proof -
  have "nonces_for [replicate 12 CHR ''n''] (concat [''ab'', ''c''])"
    by (simp add: nonces_for_def nonceSize_def chunkSize_def)
  from backup_roundtrip [OF w_aead_ok this, of "replicate 32 CHR ''k''"] show ?thesis by auto
qed



end
