(* ===== verification/Transition.thy ===== *)
theory Transition
  imports Main
begin

text \<open>
  Shared by the components that keep state: the states reachable from an initial state by a step
  relation, and the rule that proves an invariant of them from its initial and its step case.
\<close>

inductive reachable :: "('s \<Rightarrow> bool) \<Rightarrow> ('s \<Rightarrow> 's \<Rightarrow> bool) \<Rightarrow> 's \<Rightarrow> bool"
  for start :: "'s \<Rightarrow> bool" and step :: "'s \<Rightarrow> 's \<Rightarrow> bool" where
  reachable_start: "start s \<Longrightarrow> reachable start step s"
| reachable_step: "reachable start step s \<Longrightarrow> step s t \<Longrightarrow> reachable start step t"

lemma invariant_rule [consumes 1, case_names start step]:
  assumes "reachable start step s"
    and "\<And>s. start s \<Longrightarrow> Inv s"
    and "\<And>s t. reachable start step s \<Longrightarrow> Inv s \<Longrightarrow> step s t \<Longrightarrow> Inv t"
  shows "Inv s"
  using assms(1)
proof (induction rule: reachable.induct)
  case (reachable_start s)
  then show ?case by (rule assms(2))
next
  case (reachable_step s t)
  then show ?case by (intro assms(3) [of s t])
qed

lemma reachable_rtranclp:
  assumes "step\<^sup>*\<^sup>* s t" "reachable start step s"
  shows "reachable start step t"
  using assms by (induction rule: rtranclp_induct) (auto intro: reachable_step)

text \<open>A system implements an abstract one when every step of it is a sequence of abstract steps, as long
  as an invariant holds that the steps keep.\<close>

locale simulation =
  fixes start :: "'s \<Rightarrow> bool" and step :: "'s \<Rightarrow> 's \<Rightarrow> bool" and Inv :: "'s \<Rightarrow> bool" and abs :: "'s \<Rightarrow> 'a"
    and astart :: "'a \<Rightarrow> bool" and astep :: "'a \<Rightarrow> 'a \<Rightarrow> bool"
  assumes start_ok: "start s \<Longrightarrow> Inv s \<and> astart (abs s)"
    and step_ok: "Inv s \<Longrightarrow> step s t \<Longrightarrow> Inv t \<and> astep\<^sup>*\<^sup>* (abs s) (abs t)"
begin

lemma holds: "reachable start step s \<Longrightarrow> Inv s"
proof (induction rule: invariant_rule)
  case (start s)
  then show ?case by (rule start_ok [THEN conjunct1])
next
  case (step s t)
  then show ?case by (intro step_ok [THEN conjunct1, of s t])
qed

lemma refines: "reachable start step s \<Longrightarrow> reachable astart astep (abs s)"
proof (induction rule: invariant_rule)
  case (start s)
  then show ?case by (intro reachable_start start_ok [THEN conjunct2])
next
  case (step s t)
  have "astep\<^sup>*\<^sup>* (abs s) (abs t)" by (rule step_ok [THEN conjunct2, OF holds [OF step(1)] step(2)])
  then show ?case using step(3) by (rule reachable_rtranclp)
qed

end

end
