(* ===== verification/Leader.thy ===== *)
theory Leader
  imports Transition
begin

text \<open>
  Leader election among the replicas of the panel (\<open>internal/leader/leader.go\<close>): \<open>attempt\<close> and
  \<open>release\<close> of an \<open>Election\<close>, over the one Redis key they share. A Redis command runs at one instant,
  but its caller may not learn the outcome: \<open>reply\<close> says whether the answer arrives, or the command
  fails before or after it took effect. \<open>cluster\<close> is the clock, the key and the replicas; \<open>lease\<close>
  is not a field of the source, it records when the last successful claim of a replica runs out.
\<close>

type_synonym msec = nat

record Election =
  el_id :: string
  el_leader :: bool

text \<open>The key: its value and the instant at which it expires.\<close>

type_synonym redis_key = "(string \<times> msec) option"

datatype reply = Delivered | Lost_before | Lost_after

definition defaultTTL :: msec where
  "defaultTTL = 15000"

definition defaultInterval :: msec where
  "defaultInterval = 5000"

definition IsLeader :: "Election \<Rightarrow> bool" where
  "IsLeader e = el_leader e"

section \<open>Redis\<close>

definition redis_GET :: "msec \<Rightarrow> redis_key \<Rightarrow> string option" where
  "redis_GET now k = (case k of Some (v, e) \<Rightarrow> (if now < e then Some v else None) | None \<Rightarrow> None)"

definition luaRefresh :: "msec \<Rightarrow> string \<Rightarrow> msec \<Rightarrow> redis_key \<Rightarrow> redis_key \<times> nat" where
  "luaRefresh now me ttl k = (if redis_GET now k = Some me then (Some (me, now + ttl), 1) else (k, 0))"

definition luaRelease :: "msec \<Rightarrow> string \<Rightarrow> redis_key \<Rightarrow> redis_key \<times> nat" where
  "luaRelease now me k = (if redis_GET now k = Some me then (None, 1) else (k, 0))"

definition SetNX :: "msec \<Rightarrow> string \<Rightarrow> msec \<Rightarrow> redis_key \<Rightarrow> redis_key \<times> bool" where
  "SetNX now me ttl k = (if redis_GET now k = None then (Some (me, now + ttl), True) else (k, False))"

text \<open>A command under a reply: the key afterwards, and the result the caller sees.\<close>

definition redis_call :: "reply \<Rightarrow> (redis_key \<Rightarrow> redis_key \<times> 'r) \<Rightarrow> redis_key \<Rightarrow> redis_key \<times> 'r option" where
  "redis_call rep cmd k =
     (case rep of
        Delivered \<Rightarrow> (fst (cmd k), Some (snd (cmd k)))
      | Lost_before \<Rightarrow> (k, None)
      | Lost_after \<Rightarrow> (fst (cmd k), None))"

section \<open>The election\<close>

definition acquire :: "reply \<Rightarrow> msec \<Rightarrow> msec \<Rightarrow> redis_key \<Rightarrow> Election \<Rightarrow> redis_key \<times> Election" where
  "acquire rep ttl now k e =
     (case redis_call rep (SetNX now (el_id e) ttl) k of
        (k', None) \<Rightarrow> (k', e\<lparr>el_leader := False\<rparr>)
      | (k', Some ok) \<Rightarrow> (k', e\<lparr>el_leader := ok\<rparr>))"

definition attempt :: "reply \<times> reply \<Rightarrow> msec \<Rightarrow> msec \<Rightarrow> redis_key \<Rightarrow> Election \<Rightarrow> redis_key \<times> Election" where
  "attempt reps ttl now k e =
     (if el_leader e then
        (case redis_call (fst reps) (luaRefresh now (el_id e) ttl) k of
           (k', Some got) \<Rightarrow>
             (if got = 1 then (k', e) else acquire (snd reps) ttl now k' (e\<lparr>el_leader := False\<rparr>))
         | (k', None) \<Rightarrow> acquire (snd reps) ttl now k' (e\<lparr>el_leader := False\<rparr>))
      else acquire (snd reps) ttl now k e)"

definition release :: "reply \<Rightarrow> msec \<Rightarrow> redis_key \<Rightarrow> Election \<Rightarrow> redis_key \<times> Election" where
  "release rep now k e =
     (if \<not> el_leader e then (k, e)
      else (fst (redis_call rep (luaRelease now (el_id e)) k), e\<lparr>el_leader := False\<rparr>))"

text \<open>Without Redis a replica is its own cluster.\<close>

definition attempt_local :: "Election \<Rightarrow> Election" where
  "attempt_local e = e\<lparr>el_leader := True\<rparr>"

section \<open>The cluster\<close>

record cluster =
  now :: msec
  key :: redis_key
  replica :: "nat \<Rightarrow> Election"
  lease :: "nat \<Rightarrow> msec"

definition cluster_start :: "(nat \<Rightarrow> string) \<Rightarrow> cluster \<Rightarrow> bool" where
  "cluster_start ids s \<longleftrightarrow> key s = None \<and> (\<forall>i. replica s i = \<lparr>el_id = ids i, el_leader = False\<rparr>)"

inductive cluster_step :: "msec \<Rightarrow> cluster \<Rightarrow> cluster \<Rightarrow> bool" for ttl where
  tick: "cluster_step ttl s (s\<lparr>now := now s + d\<rparr>)"
| attempts: "attempt reps ttl (now s) (key s) (replica s i) = (k, e) \<Longrightarrow>
    cluster_step ttl s (s\<lparr>key := k, replica := (replica s)(i := e),
      lease := (lease s)(i := if el_leader e then now s + ttl else lease s i)\<rparr>)"
| releases: "release rep (now s) (key s) (replica s i) = (k, e) \<Longrightarrow>
    cluster_step ttl s (s\<lparr>key := k, replica := (replica s)(i := e)\<rparr>)"

abbreviation reachable_cluster :: "msec \<Rightarrow> (nat \<Rightarrow> string) \<Rightarrow> cluster \<Rightarrow> bool" where
  "reachable_cluster ttl ids \<equiv> reachable (cluster_start ids) (cluster_step ttl)"

section \<open>Lemmas\<close>

lemma acquire_eq:
  "acquire rep ttl t k e =
     (if redis_GET t k = None
      then (if rep = Lost_before then k else Some (el_id e, t + ttl), e\<lparr>el_leader := (rep = Delivered)\<rparr>)
      else (k, e\<lparr>el_leader := False\<rparr>))"
  by (cases rep) (simp_all add: acquire_def redis_call_def SetNX_def)

lemma attempt_eq:
  "attempt reps ttl t k e =
     (if \<not> el_leader e \<or> redis_GET t k \<noteq> Some (el_id e)
      then acquire (snd reps) ttl t k (e\<lparr>el_leader := False\<rparr>)
      else case fst reps of
        Delivered \<Rightarrow> (Some (el_id e, t + ttl), e)
      | Lost_before \<Rightarrow> (k, e\<lparr>el_leader := False\<rparr>)
      | Lost_after \<Rightarrow> acquire (snd reps) ttl t (Some (el_id e, t + ttl)) (e\<lparr>el_leader := False\<rparr>))"
  by (cases "fst reps") (auto simp: attempt_def redis_call_def luaRefresh_def acquire_eq)

lemma attempt_id: "attempt reps ttl t k e = (k', e') \<Longrightarrow> el_id e' = el_id e"
  by (auto simp: attempt_eq acquire_eq split: if_split_asm reply.split_asm)

lemma release_id: "release rep t k e = (k', e') \<Longrightarrow> el_id e' = el_id e \<and> \<not> el_leader e'"
  by (auto simp: release_def split: if_split_asm)

text \<open>An attempt leaves a live key of another replica alone, and a successful one holds the key.\<close>

lemma attempt_other: "attempt reps ttl t k e = (k', e') \<Longrightarrow> redis_GET t k = Some v \<Longrightarrow> v \<noteq> el_id e \<Longrightarrow> k' = k"
  by (auto simp: attempt_eq acquire_eq split: if_split_asm)

lemma attempt_holds: "attempt reps ttl t k e = (k', e') \<Longrightarrow> el_leader e' \<Longrightarrow> k' = Some (el_id e, t + ttl)"
  by (auto simp: attempt_eq acquire_eq split: if_split_asm reply.split_asm)

lemma release_other: "release rep t k e = (k', e') \<Longrightarrow> redis_GET t k = Some v \<Longrightarrow> v \<noteq> el_id e \<Longrightarrow> k' = k"
  by (cases rep) (auto simp: release_def redis_call_def luaRelease_def split: if_split_asm)

text \<open>A key never outlives the next \<open>ttl\<close>.\<close>

definition key_bounded :: "msec \<Rightarrow> cluster \<Rightarrow> bool" where
  "key_bounded ttl s \<longleftrightarrow> (\<forall>v e. key s = Some (v, e) \<longrightarrow> e \<le> now s + ttl)"

lemma attempt_key: "attempt reps ttl t k e = (k', e') \<Longrightarrow> k' = k \<or> k' = Some (el_id e, t + ttl)"
  by (auto simp: attempt_eq acquire_eq split: if_split_asm reply.split_asm)

lemma release_key: "release rep t k e = (k', e') \<Longrightarrow> k' = k \<or> k' = None"
  by (cases rep) (auto simp: release_def redis_call_def luaRelease_def split: if_split_asm)

text \<open>The invariant: a replica that says it leads holds the key for as long as its lease runs.\<close>

definition leases_held :: "(nat \<Rightarrow> string) \<Rightarrow> cluster \<Rightarrow> bool" where
  "leases_held ids s \<longleftrightarrow> (\<forall>i. el_id (replica s i) = ids i \<and>
     (IsLeader (replica s i) \<longrightarrow> now s < lease s i \<longrightarrow> key s = Some (ids i, lease s i)))"

lemma lease_GET: "key s = Some (v, l) \<Longrightarrow> now s < l \<Longrightarrow> redis_GET (now s) (key s) = Some v"
  by (simp add: redis_GET_def)

lemma leases_held_step:
  assumes "inj ids" "leases_held ids s" "cluster_step ttl s t"
  shows "leases_held ids t"
  using assms(3)
proof cases
  case (tick d)
  then show ?thesis using assms(2) by (auto simp: leases_held_def)
next
  case (attempts reps i k e)
  have id: "el_id (replica s i) = ids i" "el_id e = ids i"
    using assms(2) attempt_id [OF attempts(2)] by (simp_all add: leases_held_def)
  have "k = Some (ids j, lease s j)"
    if "j \<noteq> i" "IsLeader (replica s j)" "now s < lease s j" for j
  proof -
    have "key s = Some (ids j, lease s j)" using assms(2) that by (simp add: leases_held_def)
    moreover have "ids j \<noteq> ids i" using assms(1) that(1) by (auto dest: injD)
    ultimately show ?thesis using attempt_other [OF attempts(2) lease_GET [OF _ that(3)]] id(1) by simp
  qed
  moreover have "el_leader e \<Longrightarrow> k = Some (ids i, now s + ttl)" using attempt_holds [OF attempts(2)] id(1) by simp
  ultimately show ?thesis using assms(2) id(2) unfolding attempts(1) by (auto simp: leases_held_def IsLeader_def)
next
  case (releases rep i k e)
  have id: "el_id (replica s i) = ids i" "el_id e = ids i" "\<not> el_leader e"
    using assms(2) release_id [OF releases(2)] by (simp_all add: leases_held_def)
  have "k = Some (ids j, lease s j)"
    if "j \<noteq> i" "IsLeader (replica s j)" "now s < lease s j" for j
  proof -
    have "key s = Some (ids j, lease s j)" using assms(2) that by (simp add: leases_held_def)
    moreover have "ids j \<noteq> ids i" using assms(1) that(1) by (auto dest: injD)
    ultimately show ?thesis using release_other [OF releases(2) lease_GET [OF _ that(3)]] id(1) by simp
  qed
  then show ?thesis using assms(2) id(2,3) unfolding releases(1) by (auto simp: leases_held_def IsLeader_def)
qed

lemma leases_held_reachable:
  assumes "reachable_cluster ttl ids s" "inj ids"
  shows "leases_held ids s"
  using assms(1)
proof (induction rule: invariant_rule)
  case (start s)
  then show ?case by (simp add: cluster_start_def leases_held_def IsLeader_def)
next
  case (step s t)
  then show ?case using leases_held_step [OF assms(2)] by blast
qed

lemma key_bounded_step: "cluster_step ttl s t \<Longrightarrow> key_bounded ttl s \<Longrightarrow> key_bounded ttl t"
  by (induction rule: cluster_step.induct) (fastforce simp: key_bounded_def dest: attempt_key release_key)+

lemma key_bounded_reachable: "reachable_cluster ttl ids s \<Longrightarrow> key_bounded ttl s"
proof (induction rule: invariant_rule)
  case (step s t)
  then show ?case using key_bounded_step by blast
qed (simp add: cluster_start_def key_bounded_def)

section \<open>Properties\<close>


definition w_ids :: "nat \<Rightarrow> string" where
  "w_ids i = replicate i (CHR ''a'')"

lemma w_ids_inj: "inj w_ids"
  by (rule injI) (simp add: w_ids_def)

text \<open>All replicas start as followers; one claims the key at time 0.\<close>

definition cluster0 :: "(nat \<Rightarrow> string) \<Rightarrow> cluster" where
  "cluster0 ids = \<lparr>now = 0, key = None, replica = (\<lambda>i. \<lparr>el_id = ids i, el_leader = False\<rparr>), lease = (\<lambda>_. 0)\<rparr>"

definition claims :: "nat \<Rightarrow> msec \<Rightarrow> cluster \<Rightarrow> cluster" where
  "claims i ttl s = s\<lparr>key := Some (el_id (replica s i), now s + ttl),
     replica := (replica s)(i := (replica s i)\<lparr>el_leader := True\<rparr>), lease := (lease s)(i := now s + ttl)\<rparr>"

lemma claims_step:
  assumes "redis_GET (now s) (key s) = None" "\<not> el_leader (replica s i)"
  shows "cluster_step ttl s (claims i ttl s)"
proof -
  have "attempt (Delivered, Delivered) ttl (now s) (key s) (replica s i) =
      (Some (el_id (replica s i), now s + ttl), (replica s i)\<lparr>el_leader := True\<rparr>)"
    using assms by (simp add: attempt_eq acquire_eq)
  from cluster_step.attempts [of _ ttl s i, OF this] show ?thesis by (simp add: claims_def)
qed

lemma cluster0_reachable: "reachable_cluster ttl ids (cluster0 ids)"
  by (rule reachable_start) (simp add: cluster_start_def cluster0_def)

lemma cluster0_claimed: "reachable_cluster ttl ids (claims i ttl (cluster0 ids))"
  by (rule reachable_step [OF cluster0_reachable], rule claims_step) (simp_all add: cluster0_def redis_GET_def)


text \<open>Leadership is never lost for good: once no other replica has renewed the key for a TTL, the
  next attempt whose replies arrive makes its replica the leader, whatever happened before.\<close>

theorem leader_takeover:
  assumes "reachable_cluster ttl ids s" "0 < ttl" "now s + ttl \<le> t"
  shows "\<exists>e. attempt (Delivered, Delivered) ttl t (key s) (replica s i) = (Some (el_id (replica s i), t + ttl), e) \<and>
    IsLeader e"
proof -
  have "redis_GET t (key s) = None"
    using key_bounded_reachable [OF assms(1)] assms(3) by (auto simp: key_bounded_def redis_GET_def split: option.split)
  then show ?thesis by (simp add: attempt_eq acquire_eq IsLeader_def)
qed

theorem leader_takeover_witness:
  "\<exists>e. attempt (Delivered, Delivered) defaultTTL 15000 (key (claims 3 defaultTTL (cluster0 w_ids)))
     (replica (claims 3 defaultTTL (cluster0 w_ids)) 5) = (Some (''aaaaa'', 30000), e) \<and> IsLeader e"
proof -
  have "w_ids 5 = ''aaaaa''" by code_simp
  then have t: "0 < defaultTTL" "now (claims 3 defaultTTL (cluster0 w_ids)) + defaultTTL \<le> 15000"
    "el_id (replica (claims 3 defaultTTL (cluster0 w_ids)) 5) = ''aaaaa''" "15000 + defaultTTL = 30000"
    by (simp_all add: claims_def cluster0_def defaultTTL_def)
  show ?thesis using leader_takeover [OF cluster0_claimed [of _ defaultTTL 3] t(1,2), of 5] t(3,4) by simp
qed

text \<open>C19: \<open>IsLeader\<close> alone does not exclude a second leader: the flag is not tied to the lease, so a
  replica that is stopped for longer than the TTL still says that it leads when another one has
  taken over.\<close>

theorem leader_flag_outlives_lease:
  assumes "i \<noteq> j"
  shows "\<exists>s. reachable_cluster defaultTTL ids s \<and> IsLeader (replica s i) \<and> IsLeader (replica s j)"
proof -
  let ?s = "claims i defaultTTL (cluster0 ids)"
  let ?t = "?s\<lparr>now := now ?s + defaultTTL\<rparr>"
  have "reachable_cluster defaultTTL ids ?t" by (rule reachable_step [OF cluster0_claimed cluster_step.tick])
  moreover have "cluster_step defaultTTL ?t (claims j defaultTTL ?t)"
    using assms by (intro claims_step) (simp_all add: claims_def cluster0_def redis_GET_def)
  ultimately have "reachable_cluster defaultTTL ids (claims j defaultTTL ?t)" by (rule reachable_step)
  then show ?thesis using assms by (intro exI [of _ "claims j defaultTTL ?t"]) (simp add: claims_def IsLeader_def)
qed

theorem leader_flag_outlives_lease_witness:
  "\<exists>s. reachable_cluster defaultTTL w_ids s \<and> IsLeader (replica s 0) \<and> IsLeader (replica s 1)"
  by (rule leader_flag_outlives_lease) simp

end
