(* ===== verification/Fleet.thy ===== *)
theory Fleet
  imports Transition "HOL-Library.AList" "HOL-Library.Product_Lexorder"
begin

text \<open>
  The placement of routes on nodes: the tables \<open>caddy_nodes\<close>, \<open>routes\<close> and \<open>route_node_assignments\<close>, and
  the transactions that change them (\<open>internal/domain/routes/placement.go\<close>, the placement part of
  \<open>Create\<close> and \<open>Delete\<close> in \<open>lifecycle.go\<close>, \<open>failoverRoute\<close> in \<open>health.go\<close>, the node migration in
  \<open>handlers/admin_nodes_migrate.go\<close>, the bulk move in \<open>handlers/admin_hosts_bulk.go\<close> and the automatic
  failover of \<open>internal/alert/failover.go\<close>). A table is an association list from the primary key, in
  the order of a scan. A transaction is a function from the tables to an error, in which case it is
  rolled back, or to the tables it commits. Deleting a route deletes its assignments, as the foreign
  key of the schema says. \<open>usage\<close> is the database's \<open>/\<close>: a decimal quotient in MySQL, an integer one
  in SQLite.
\<close>

section \<open>Tables\<close>

record caddy_node =
  node_group_id :: nat
  is_enabled :: bool
  approved :: bool
  health_status :: string
  priority :: int
  current_routes :: int
  max_routes :: int

record route_row =
  caddy_node_id :: nat
  r_client :: nat
  r_domain :: string
  r_path :: string
  domain_verified :: bool
  r_status :: string
  via_wg_peer :: bool
  r_group :: "nat option"

record fleet =
  nodes :: "(nat \<times> caddy_node) list"
  routes :: "(nat \<times> route_row) list"
  assignments :: "(nat \<times> nat) list"
  group_modes :: "(nat \<times> string) list"

datatype place_error =
    No_rows
  | No_capacity
  | Domain_taken
  | Node_at_capacity
  | Not_yours
  | No_failover_peer
  | Route_already_moved
  | Out_of_capacity nat
  | Routes_changed
  | Duplicate_assignment
  | Peers_have_room nat nat
  | Push_failed nat
  | Bad_destination
  | Outside_group
  | Port_out_of_range

section \<open>Statements\<close>

definition set_counter :: "nat \<Rightarrow> (int \<Rightarrow> int) \<Rightarrow> fleet \<Rightarrow> fleet" where
  "set_counter n g f =
     f\<lparr>nodes := AList.map_entry n (\<lambda>x. x\<lparr>current_routes := g (current_routes x)\<rparr>) (nodes f)\<rparr>"

text \<open>\<open>UPDATE caddy_nodes SET current_routes = current_routes + 1 WHERE id = ? AND current_routes < max_routes\<close>
  and whether it affected a row.\<close>

definition claim_slot :: "nat \<Rightarrow> fleet \<Rightarrow> fleet \<times> bool" where
  "claim_slot n f =
     (case map_of (nodes f) n of
        None \<Rightarrow> (f, False)
      | Some x \<Rightarrow> (if current_routes x < max_routes x then (set_counter n (\<lambda>c. c + 1) f, True) else (f, False)))"

text \<open>\<open>UPDATE caddy_nodes SET current_routes = GREATEST(current_routes - 1, 0) WHERE id = ?\<close>\<close>

definition release_slot :: "nat \<Rightarrow> fleet \<Rightarrow> fleet" where
  "release_slot n f = set_counter n (\<lambda>c. max (c - 1) 0) f"

definition repoint :: "nat \<Rightarrow> nat \<Rightarrow> fleet \<Rightarrow> fleet" where
  "repoint r n f = f\<lparr>routes := AList.map_entry r (\<lambda>x. x\<lparr>caddy_node_id := n\<rparr>) (routes f)\<rparr>"

definition add_assignment :: "nat \<Rightarrow> nat \<Rightarrow> fleet \<Rightarrow> fleet" where
  "add_assignment r n f = f\<lparr>assignments := List.insert (r, n) (assignments f)\<rparr>"

definition drop_assignment :: "nat \<Rightarrow> nat \<Rightarrow> fleet \<Rightarrow> fleet" where
  "drop_assignment r n f = f\<lparr>assignments := filter (\<lambda>a. a \<noteq> (r, n)) (assignments f)\<rparr>"

definition rename_assignment :: "nat \<Rightarrow> nat \<Rightarrow> nat \<Rightarrow> fleet \<Rightarrow> fleet" where
  "rename_assignment r n m f = f\<lparr>assignments := map (\<lambda>a. if a = (r, n) then (r, m) else a) (assignments f)\<rparr>"

definition delete_route :: "nat \<Rightarrow> fleet \<Rightarrow> fleet" where
  "delete_route r f =
     f\<lparr>routes := AList.delete r (routes f), assignments := filter (\<lambda>(q, n). q \<noteq> r) (assignments f)\<rparr>"

text \<open>\<open>SELECT node_id FROM route_node_assignments WHERE route_id = ? AND node_id <> ?\<close>\<close>

definition fanOutNodes :: "nat \<Rightarrow> nat \<Rightarrow> fleet \<Rightarrow> nat list" where
  "fanOutNodes r primary f = map snd (filter (\<lambda>(q, n). q = r \<and> n \<noteq> primary) (assignments f))"

section \<open>Placement\<close>

definition usage_of :: "(int \<Rightarrow> int \<Rightarrow> int) \<Rightarrow> caddy_node \<Rightarrow> int" where
  "usage_of usage x = usage (current_routes x) (max (max_routes x) 1)"

definition by_usage :: "(int \<Rightarrow> int \<Rightarrow> int) \<Rightarrow> (nat \<times> caddy_node) list \<Rightarrow> nat list" where
  "by_usage usage xs = map fst (sort_key (\<lambda>(i, x). (usage_of usage x, - priority x, i)) xs)"

definition by_priority :: "(int \<Rightarrow> int \<Rightarrow> int) \<Rightarrow> (nat \<times> caddy_node) list \<Rightarrow> nat list" where
  "by_priority usage xs = map fst (sort_key (\<lambda>(i, x). (- priority x, usage_of usage x, i)) xs)"

definition has_room :: "nat \<Rightarrow> caddy_node \<Rightarrow> bool" where
  "has_room g x \<longleftrightarrow> node_group_id x = g \<and> is_enabled x \<and> approved x \<and> current_routes x < max_routes x"

definition nodePlacement ::
    "(int \<Rightarrow> int \<Rightarrow> int) \<Rightarrow> nat \<Rightarrow> fleet \<Rightarrow> place_error + nat \<times> nat list \<times> string" where
  "nodePlacement usage g f =
     (let xs = filter (\<lambda>(i, x). has_room g x) (nodes f) in
      case map_of (group_modes f) g of
        None \<Rightarrow> Inl No_rows
      | Some mode \<Rightarrow>
          (if mode = ''active_active'' then
             (case map fst (sort_key fst xs) of [] \<Rightarrow> Inl No_capacity | i # is \<Rightarrow> Inr (i, i # is, mode))
           else if mode = ''failover'' then
             (case take 2 (by_priority usage xs) of [] \<Rightarrow> Inl No_capacity | i # is \<Rightarrow> Inr (i, i # is, mode))
           else
             (case by_usage usage xs of [] \<Rightarrow> Inl No_rows | i # is \<Rightarrow> Inr (i, [i], mode))))"

fun claim_first :: "nat list \<Rightarrow> fleet \<Rightarrow> fleet \<times> nat option" where
  "claim_first [] f = (f, None)"
| "claim_first (i # is) f = (case claim_slot i f of (f', ok) \<Rightarrow> if ok then (f', Some i) else claim_first is f')"

definition claimNodeWithCapacity ::
    "(int \<Rightarrow> int \<Rightarrow> int) \<Rightarrow> nat \<Rightarrow> nat \<Rightarrow> bool \<Rightarrow> fleet \<Rightarrow> fleet \<times> nat option" where
  "claimNodeWithCapacity usage g skip healthyOnly f =
     claim_first (take 8 (by_usage usage (filter (\<lambda>(i, x). has_room g x \<and> i \<noteq> skip \<and>
       (healthyOnly \<longrightarrow> health_status x = ''healthy'')) (nodes f)))) f"

section \<open>Creating and deleting\<close>

definition evictUnverifiedRoute :: "nat \<Rightarrow> fleet \<Rightarrow> fleet \<times> nat list option" where
  "evictUnverifiedRoute r f =
     (case map_of (routes f) r of
        None \<Rightarrow> (f, None)
      | Some row \<Rightarrow>
          (if domain_verified row then (f, None)
           else let ns = (if caddy_node_id row \<noteq> 0 then [caddy_node_id row] else []) @ fanOutNodes r (caddy_node_id row) f
             in (fold release_slot ns (delete_route r f), Some ns)))"

fun assign_peers :: "nat \<Rightarrow> nat \<Rightarrow> nat list \<Rightarrow> fleet \<Rightarrow> fleet \<times> nat list" where
  "assign_peers r primary [] f = (f, [])"
| "assign_peers r primary (n # ns) f =
     (if n = primary then assign_peers r primary ns (add_assignment r n f)
      else case claim_slot n f of (f', ok) \<Rightarrow>
        (if ok then (case assign_peers r primary ns (add_assignment r n f') of (f'', got) \<Rightarrow> (f'', n # got))
         else assign_peers r primary ns f'))"

definition finish_create :: "string \<Rightarrow> nat \<Rightarrow> nat \<Rightarrow> nat list \<Rightarrow> fleet \<Rightarrow> fleet \<times> nat list" where
  "finish_create mode r n ns f =
     (if mode \<noteq> ''single'' \<and> 1 < length ns
      then (case assign_peers r n ns f of (f', got) \<Rightarrow> (f', n # got))
      else (f, [n]))"

definition insert_route ::
    "(int \<Rightarrow> int \<Rightarrow> int) \<Rightarrow> nat \<Rightarrow> nat \<times> nat list \<times> string \<Rightarrow> nat \<Rightarrow> route_row \<Rightarrow> fleet \<Rightarrow> place_error + fleet \<times> nat list" where
  "insert_route usage g placed r row f =
     (case placed of (n, ns, mode) \<Rightarrow>
       (case claim_slot n (f\<lparr>routes := (r, row\<lparr>caddy_node_id := n\<rparr>) # routes f\<rparr>) of
          (f', True) \<Rightarrow> Inr (finish_create mode r n ns f')
        | (f', False) \<Rightarrow>
            (if mode = ''single'' \<and> \<not> via_wg_peer row
             then (case claimNodeWithCapacity usage g n False f' of
                     (f'', None) \<Rightarrow> Inl Node_at_capacity
                   | (f'', Some alt) \<Rightarrow> Inr (finish_create mode r alt [alt] (repoint r alt f'')))
             else Inl Node_at_capacity)))"

definition Create ::
    "(int \<Rightarrow> int \<Rightarrow> int) \<Rightarrow> nat \<Rightarrow> nat \<times> nat list \<times> string \<Rightarrow> nat \<Rightarrow> route_row \<Rightarrow> fleet \<Rightarrow> place_error + fleet \<times> nat list" where
  "Create usage g placed r row f =
     (case find (\<lambda>(q, x). r_domain x = r_domain row \<and> r_path x = r_path row) (routes f) of
        None \<Rightarrow> insert_route usage g placed r row f
      | Some (q, x) \<Rightarrow>
          (if domain_verified x then Inl Domain_taken
           else insert_route usage g placed r row (fst (evictUnverifiedRoute q f))))"

text \<open>\<open>Delete\<close> reads the nodes of the route first, and deletes in a transaction of its own.\<close>

definition delete_read :: "nat \<Rightarrow> nat \<Rightarrow> fleet \<Rightarrow> place_error + nat \<times> nat list" where
  "delete_read client r f =
     (case map_of (routes f) r of
        None \<Rightarrow> Inl No_rows
      | Some row \<Rightarrow>
          (if client \<noteq> 0 \<and> r_client row \<noteq> client then Inl Not_yours
           else Inr (caddy_node_id row, fanOutNodes r (caddy_node_id row) f)))"

definition delete_tx :: "nat \<Rightarrow> nat \<times> nat list \<Rightarrow> fleet \<Rightarrow> fleet" where
  "delete_tx r held f = fold release_slot (snd held) (release_slot (fst held) (delete_route r f))"

definition Delete :: "nat \<Rightarrow> nat \<Rightarrow> fleet \<Rightarrow> place_error + fleet" where
  "Delete client r f = (case delete_read client r f of Inl e \<Rightarrow> Inl e | Inr held \<Rightarrow> Inr (delete_tx r held f))"

section \<open>Failover\<close>

definition serviceable :: "nat \<Rightarrow> fleet \<Rightarrow> bool" where
  "serviceable n f \<longleftrightarrow>
     (case map_of (nodes f) n of
        None \<Rightarrow> False
      | Some x \<Rightarrow> is_enabled x \<and> approved x \<and> health_status x = ''healthy'')"

definition standby :: "nat \<Rightarrow> nat \<Rightarrow> fleet \<Rightarrow> nat option" where
  "standby r from f =
     (case sort_key (\<lambda>n. (case map_of (nodes f) n of Some x \<Rightarrow> - priority x | None \<Rightarrow> 0, n))
             (filter (\<lambda>n. serviceable n f) (fanOutNodes r from f)) of
        [] \<Rightarrow> None
      | n # _ \<Rightarrow> Some n)"

definition failover_dest :: "(int \<Rightarrow> int \<Rightarrow> int) \<Rightarrow> nat \<Rightarrow> nat \<Rightarrow> nat \<Rightarrow> fleet \<Rightarrow> fleet \<times> nat option \<times> bool" where
  "failover_dest usage r from g f =
     (case standby r from f of
        Some n \<Rightarrow> (f, Some n, False)
      | None \<Rightarrow> (case claimNodeWithCapacity usage g from True f of (f', d) \<Rightarrow> (f', d, True)))"

definition failoverRoute :: "(int \<Rightarrow> int \<Rightarrow> int) \<Rightarrow> nat \<Rightarrow> nat \<Rightarrow> nat \<Rightarrow> fleet \<Rightarrow> place_error + fleet \<times> nat" where
  "failoverRoute usage r from g f =
     (case failover_dest usage r from g f of
        (f1, None, claimed) \<Rightarrow> Inl No_failover_peer
      | (f1, Some d, claimed) \<Rightarrow>
          (if map_option caddy_node_id (map_of (routes f1) r) \<noteq> Some from then Inl Route_already_moved
           else
             (let f2 = repoint r d f1;
                  f3 = drop_assignment r from f2;
                  f4 = (if (r, from) \<in> set (assignments f2) \<and> claimed then add_assignment r d f3 else f3)
              in Inr (release_slot from f4, d))))"

section \<open>Migration of a node\<close>

record nodeMove =
  mv_route :: nat
  mv_dest :: nat
  mv_anchor :: bool
  mv_srcRow :: bool
  mv_shared :: bool

fun plan_moves :: "fleet \<Rightarrow> nat \<Rightarrow> (nat \<times> nat) list \<Rightarrow> (nat \<times> int) list \<Rightarrow> nodeMove list" where
  "plan_moves f src [] peers = []"
| "plan_moves f src ((r, a) # rs) peers =
     (case find (\<lambda>(p, free). 0 < free \<and> p \<noteq> a \<and> (r, p) \<notin> set (assignments f)) peers of
        Some (p, free) \<Rightarrow>
          \<lparr>mv_route = r, mv_dest = p, mv_anchor = (a = src), mv_srcRow = ((r, src) \<in> set (assignments f)), mv_shared = False\<rparr>
            # plan_moves f src rs (AList.map_entry p (\<lambda>x. x - 1) peers)
      | None \<Rightarrow>
          (case find (\<lambda>(p, free). (r, p) \<in> set (assignments f) \<or> a \<noteq> src \<and> p = a) peers of
             Some (p, free) \<Rightarrow>
               \<lparr>mv_route = r, mv_dest = p, mv_anchor = (a = src), mv_srcRow = ((r, src) \<in> set (assignments f)), mv_shared = True\<rparr>
                 # plan_moves f src rs peers
           | None \<Rightarrow> plan_moves f src rs peers))"

definition routes_on :: "bool \<Rightarrow> nat \<Rightarrow> fleet \<Rightarrow> (nat \<times> nat) list" where
  "routes_on drain src f =
     map (\<lambda>(r, x). (r, caddy_node_id x)) (sort_key fst (filter (\<lambda>(r, x).
       (caddy_node_id x = src \<or> (r, src) \<in> set (assignments f)) \<and> (drain \<longrightarrow> \<not> via_wg_peer x)) (routes f)))"

definition migration_peers :: "(int \<Rightarrow> int \<Rightarrow> int) \<Rightarrow> bool \<Rightarrow> nat \<Rightarrow> nat \<Rightarrow> fleet \<Rightarrow> (nat \<times> int) list" where
  "migration_peers usage drain src g f =
     map (\<lambda>(i, x). (i, max_routes x - current_routes x))
       (sort_key (\<lambda>(i, x). (usage_of usage x, - priority x, i)) (filter (\<lambda>(i, x).
         node_group_id x = g \<and> i \<noteq> src \<and> is_enabled x \<and> approved x \<and> (drain \<longrightarrow> health_status x = ''healthy''))
         (nodes f)))"

definition move_claim :: "nodeMove \<Rightarrow> fleet \<Rightarrow> place_error + fleet" where
  "move_claim m f =
     (if mv_shared m then Inr f
      else case claim_slot (mv_dest m) f of
        (f', ok) \<Rightarrow> (if ok then Inr f' else Inl (Out_of_capacity (mv_dest m))))"

definition move_anchor :: "nat \<Rightarrow> nodeMove \<Rightarrow> fleet \<Rightarrow> place_error + fleet" where
  "move_anchor src m f =
     (if \<not> mv_anchor m then Inr f
      else if map_option caddy_node_id (map_of (routes f) (mv_route m)) = Some src
      then Inr (repoint (mv_route m) (mv_dest m) f)
      else Inl Routes_changed)"

definition move_row :: "nat \<Rightarrow> nodeMove \<Rightarrow> fleet \<Rightarrow> place_error + fleet" where
  "move_row src m f =
     (if \<not> mv_srcRow m then Inr f
      else if (mv_route m, src) \<notin> set (assignments f) then Inl Routes_changed
      else if mv_shared m then Inr (drop_assignment (mv_route m) src f)
      else if (mv_route m, mv_dest m) \<in> set (assignments f) then Inl Duplicate_assignment
      else Inr (rename_assignment (mv_route m) src (mv_dest m) f))"

fun apply_moves :: "nat \<Rightarrow> nodeMove list \<Rightarrow> fleet \<Rightarrow> place_error + fleet" where
  "apply_moves src [] f = Inr f"
| "apply_moves src (m # ms) f =
     (case move_claim m f of
        Inl e \<Rightarrow> Inl e
      | Inr f1 \<Rightarrow>
          (case move_anchor src m f1 of
             Inl e \<Rightarrow> Inl e
           | Inr f2 \<Rightarrow>
               (case move_row src m f2 of Inl e \<Rightarrow> Inl e | Inr f3 \<Rightarrow> apply_moves src ms f3)))"

definition applyNodeMoves :: "nat \<Rightarrow> nodeMove list \<Rightarrow> fleet \<Rightarrow> place_error + fleet" where
  "applyNodeMoves src ms f =
     (case apply_moves src ms f of
        Inl e \<Rightarrow> Inl e
      | Inr f' \<Rightarrow> Inr (set_counter src (\<lambda>c. max 0 (c - int (length ms))) f'))"

text \<open>The same with \<open>revert\<close>: a statement that affects no row is not an error.\<close>

definition revert_move :: "nat \<Rightarrow> nodeMove \<Rightarrow> fleet \<Rightarrow> place_error + fleet" where
  "revert_move src m f =
     (let r = mv_route m; d = mv_dest m;
          f1 = (if mv_shared m then f else release_slot d f);
          f2 = (if mv_anchor m \<and> map_option caddy_node_id (map_of (routes f1) r) = Some d then repoint r src f1 else f1)
      in if \<not> mv_srcRow m then Inr f2
         else if mv_shared m then Inr (add_assignment r src f2)
         else if (r, d) \<in> set (assignments f2) \<and> (r, src) \<in> set (assignments f2) then Inl Duplicate_assignment
         else Inr (rename_assignment r d src f2))"

fun revert_moves :: "nat \<Rightarrow> nodeMove list \<Rightarrow> fleet \<Rightarrow> place_error + fleet" where
  "revert_moves src [] f = Inr f"
| "revert_moves src (m # ms) f =
     (case revert_move src m f of Inl e \<Rightarrow> Inl e | Inr f' \<Rightarrow> revert_moves src ms f')"

definition revertNodeMoves :: "nat \<Rightarrow> nodeMove list \<Rightarrow> fleet \<Rightarrow> place_error + fleet" where
  "revertNodeMoves src ms f =
     (case revert_moves src ms f of
        Inl e \<Rightarrow> Inl e
      | Inr f' \<Rightarrow> Inr (set_counter src (\<lambda>c. c + int (length ms)) f'))"

definition plan_migration :: "(int \<Rightarrow> int \<Rightarrow> int) \<Rightarrow> bool \<Rightarrow> nat \<Rightarrow> nat \<Rightarrow> fleet \<Rightarrow> place_error + nodeMove list" where
  "plan_migration usage drain src g f =
     (let rts = routes_on drain src f; ms = plan_moves f src rts (migration_peers usage drain src g f)
      in if length ms < length rts then Inl (Peers_have_room (length ms) (length rts)) else Inr ms)"

text \<open>\<open>resync\<close> tells which nodes take the push; the first that does not puts everything back.\<close>

definition migrateNodeRoutes ::
    "(int \<Rightarrow> int \<Rightarrow> int) \<Rightarrow> (nat \<Rightarrow> bool) \<Rightarrow> bool \<Rightarrow> nat \<Rightarrow> nat \<Rightarrow> fleet \<Rightarrow> fleet \<times> place_error option" where
  "migrateNodeRoutes usage resync drain src g f =
     (case plan_migration usage drain src g f of
        Inl e \<Rightarrow> (f, Some e)
      | Inr ms \<Rightarrow>
          (if ms = [] then (f, None)
           else case applyNodeMoves src ms f of
             Inl e \<Rightarrow> (f, Some e)
           | Inr f' \<Rightarrow>
               (case find (\<lambda>d. \<not> resync d) (map mv_dest ms @ (if drain then [src] else [])) of
                  None \<Rightarrow> (f', None)
                | Some d \<Rightarrow>
                    (case revertNodeMoves src ms f' of
                       Inl e \<Rightarrow> (f', Some e)
                     | Inr f'' \<Rightarrow> (f'', Some (Push_failed d))))))"

section \<open>Moves that do not touch the counters\<close>

definition moveRouteToNode :: "bool \<Rightarrow> nat \<Rightarrow> nat \<Rightarrow> fleet \<Rightarrow> place_error + fleet \<times> nat" where
  "moveRouteToNode platform r d f =
     (case map_of (routes f) r of
        None \<Rightarrow> Inl No_rows
      | Some row \<Rightarrow>
          (case map_of (nodes f) d of
             None \<Rightarrow> Inl Bad_destination
           | Some x \<Rightarrow>
               (if \<not> (approved x \<and> is_enabled x) then Inl Bad_destination
                else if \<not> platform \<and> r_group row \<noteq> Some (node_group_id x) then Inl Outside_group
                else Inr (repoint r d f, caddy_node_id row))))"

definition failover_sibling :: "nat \<Rightarrow> fleet \<Rightarrow> nat option" where
  "failover_sibling n f =
     (case map_of (nodes f) n of
        None \<Rightarrow> None
      | Some x \<Rightarrow>
          (if map_of (group_modes f) (node_group_id x) \<noteq> Some ''failover'' then None
           else map_option fst (find (\<lambda>(i, y). i \<noteq> n \<and> node_group_id y = node_group_id x \<and>
             health_status y = ''healthy'' \<and> is_enabled y) (nodes f))))"

definition tryAutoFailover :: "bool \<Rightarrow> nat \<Rightarrow> fleet \<Rightarrow> fleet" where
  "tryAutoFailover autoEnabled n f =
     (case if autoEnabled then failover_sibling n f else None of
        None \<Rightarrow> f
      | Some d \<Rightarrow>
          fold (\<lambda>r. repoint r d)
            (map fst (filter (\<lambda>(r, x). caddy_node_id x = n \<and> r_status x = ''active'') (routes f))) f)"

text \<open>The copy keeps the node of its original and comes out unverified; \<open>new\<close> is the id the table
  hands out, \<open>port_ok\<close> the result of \<open>CheckLockedPort\<close>.\<close>

definition HostsClone :: "bool \<Rightarrow> nat \<Rightarrow> nat \<Rightarrow> fleet \<Rightarrow> place_error + fleet" where
  "HostsClone port_ok r new f =
     (case map_of (routes f) r of
        None \<Rightarrow> Inl No_rows
      | Some row \<Rightarrow>
          (let d = ''clone-of-'' @ r_domain row in
           if \<not> port_ok then Inl Port_out_of_range
           else if \<exists>(q, x) \<in> set (routes f). r_domain x = d \<and> r_path x = r_path row then Inl Domain_taken
           else Inr (f\<lparr>routes := (new, row\<lparr>r_domain := d, r_status := ''inactive'', domain_verified := False\<rparr>) # routes f\<rparr>)))"

end
