(* ===== verification/Placement.thy ===== *)
theory Placement
  imports Fleet
begin

text \<open>
  What the transactions of \<open>Fleet\<close> do to the placement. \<open>hosted f n\<close> is the set of routes that node \<open>n\<close>
  serves: those anchored there and those assigned to it. The abstract specification is a ledger, a
  set of routes per node, in which a route can be placed, removed, moved or handed over, and a node
  takes a route only while it has room. Every counted transaction implements the ledger, and keeps
  the counter of each node equal to the size of its set.
\<close>

definition hosted :: "fleet \<Rightarrow> nat \<Rightarrow> nat set" where
  "hosted f n = {r. \<exists>row. map_of (routes f) r = Some row \<and> (caddy_node_id row = n \<or> (r, n) \<in> set (assignments f))}"

definition counter :: "fleet \<Rightarrow> nat \<Rightarrow> int option" where
  "counter f n = map_option current_routes (map_of (nodes f) n)"

definition limit :: "fleet \<Rightarrow> nat \<Rightarrow> int" where
  "limit f n = (case map_of (nodes f) n of None \<Rightarrow> 0 | Some x \<Rightarrow> max_routes x)"

text \<open>The invariant. Node ids start at 1, keys are unique, and an assignment belongs to a route.\<close>

definition fleet_ok :: "fleet \<Rightarrow> bool" where
  "fleet_ok f \<longleftrightarrow> distinct (map fst (nodes f)) \<and> 0 \<notin> fst ` set (nodes f) \<and> distinct (map fst (routes f)) \<and>
     distinct (assignments f) \<and> fst ` set (assignments f) \<subseteq> fst ` set (routes f)"

definition counted :: "fleet \<Rightarrow> bool" where
  "counted f \<longleftrightarrow> (\<forall>n c. counter f n = Some c \<longrightarrow> c = int (card (hosted f n)) \<and> c \<le> limit f n)"

section \<open>Statements\<close>

lemma finite_hosted [simp]: "finite (hosted f n)"
  by (rule finite_subset [of _ "dom (map_of (routes f))"]) (auto simp: hosted_def finite_dom_map_of)

lemma map_fst_map_entry [simp]: "map fst (AList.map_entry k g xs) = map fst xs"
  by (induction xs) auto

lemma set_counter_sel [simp]:
  "routes (set_counter n g f) = routes f" "assignments (set_counter n g f) = assignments f"
  "group_modes (set_counter n g f) = group_modes f" "hosted (set_counter n g f) = hosted f"
  "map fst (nodes (set_counter n g f)) = map fst (nodes f)"
  "fst ` set (nodes (set_counter n g f)) = fst ` set (nodes f)"
  by (simp_all add: set_counter_def hosted_def fun_eq_iff dom_map_entry)

lemma counter_set_counter [simp]:
  "counter (set_counter n g f) m = (if m = n then map_option g (counter f n) else counter f m)"
  "limit (set_counter n g f) = limit f"
  by (auto simp: counter_def limit_def set_counter_def map_of_map_entry fun_eq_iff split: option.split)

lemma repoint_sel [simp]:
  "nodes (repoint r d f) = nodes f" "assignments (repoint r d f) = assignments f"
  "counter (repoint r d f) = counter f" "limit (repoint r d f) = limit f"
  by (simp_all add: repoint_def counter_def limit_def fun_eq_iff)

lemma assignment_sel [simp]:
  "nodes (add_assignment r d f) = nodes f" "routes (add_assignment r d f) = routes f"
  "nodes (drop_assignment r d f) = nodes f" "routes (drop_assignment r d f) = routes f"
  "nodes (rename_assignment r d e f) = nodes f" "routes (rename_assignment r d e f) = routes f"
  "counter (add_assignment r d f) = counter f" "limit (add_assignment r d f) = limit f"
  "counter (drop_assignment r d f) = counter f" "limit (drop_assignment r d f) = limit f"
  "counter (rename_assignment r d e f) = counter f" "limit (rename_assignment r d e f) = limit f"
  "set (assignments (add_assignment r d f)) = insert (r, d) (set (assignments f))"
  "set (assignments (drop_assignment r d f)) = set (assignments f) - {(r, d)}"
  by (auto simp: add_assignment_def drop_assignment_def rename_assignment_def counter_def limit_def fun_eq_iff)

lemma set_rename_assignment:
  "(r, n) \<in> set (assignments f) \<Longrightarrow>
   set (assignments (rename_assignment r n d f)) = insert (r, d) (set (assignments f) - {(r, n)})"
  by (force simp: rename_assignment_def)

lemma delete_route_sel [simp]:
  "nodes (delete_route r f) = nodes f" "routes (delete_route r f) = AList.delete r (routes f)" "counter (delete_route r f) = counter f" "limit (delete_route r f) = limit f"
  "hosted (delete_route r f) n = hosted f n - {r}"
  by (auto simp: delete_route_def counter_def limit_def fun_eq_iff hosted_def AList.delete_conv')

lemma release_slot_sel [simp]:
  "routes (release_slot n f) = routes f" "assignments (release_slot n f) = assignments f"
  "hosted (release_slot n f) = hosted f" "limit (release_slot n f) = limit f"
  "counter (release_slot n f) m = (if m = n then map_option (\<lambda>c. max (c - 1) 0) (counter f n) else counter f m)"
  by (simp_all add: release_slot_def)

lemma map_of_repoint:
  "map_of (routes (repoint r d f)) q =
     (if q = r then map_option (\<lambda>x. x\<lparr>caddy_node_id := d\<rparr>) (map_of (routes f) r) else map_of (routes f) q)"
  by (auto simp: repoint_def map_of_map_entry split: option.split)

lemma hosted_repoint:
  assumes "map_of (routes f) r = Some row"
  shows "hosted (repoint r d f) n =
    (if n = d \<or> (r, n) \<in> set (assignments f) then insert r (hosted f n) else hosted f n - {r})"
  using assms by (auto simp: hosted_def map_of_repoint split: if_splits)

lemma hosted_add_assignment:
  assumes "map_of (routes f) r = Some row"
  shows "hosted (add_assignment r d f) n = (if n = d then insert r (hosted f n) else hosted f n)"
  using assms by (auto simp: hosted_def)

lemma hosted_drop_assignment:
  assumes "map_of (routes f) r = Some row"
  shows "hosted (drop_assignment r d f) n =
    (if n = d \<and> caddy_node_id row \<noteq> d then hosted f n - {r} else hosted f n)"
  using assms by (auto simp: hosted_def)

lemma hosted_rename_assignment:
  assumes "map_of (routes f) r = Some row" "(r, a) \<in> set (assignments f)" "a \<noteq> d"
  shows "hosted (rename_assignment r a d f) n =
    (if n = d then insert r (hosted f n) else if n = a \<and> caddy_node_id row \<noteq> a then hosted f n - {r} else hosted f n)"
  using assms by (auto simp: hosted_def set_rename_assignment)

lemma claim_slot_cases:
  assumes "claim_slot n f = (f', ok)"
  obtains "ok" "f' = set_counter n (\<lambda>c. c + 1) f" "\<exists>x. map_of (nodes f) n = Some x \<and> current_routes x < max_routes x"
  | "\<not> ok" "f' = f"
  using assms by (auto simp: claim_slot_def split: option.split_asm if_split_asm)

lemma claim_first_Some:
  "claim_first is f = (f', Some i) \<Longrightarrow> i \<in> set is \<and> claim_slot i f = (f', True)"
  by (induction "is" f rule: claim_first.induct) (auto elim: claim_slot_cases split: prod.splits if_split_asm)

lemma set_by_usage [simp]: "set (by_usage usage xs) = fst ` set xs"
  by (simp add: by_usage_def)

lemma claimNode_Some:
  assumes "claimNodeWithCapacity usage g skip h f = (f', Some i)"
  shows "claim_slot i f = (f', True) \<and> i \<noteq> skip \<and> (\<exists>x. (i, x) \<in> set (nodes f) \<and> has_room g x \<and> (h \<longrightarrow> health_status x = ''healthy''))"
proof -
  have "claim_slot i f = (f', True)" and "i \<in> fst ` set (filter (\<lambda>(i, x). has_room g x \<and> i \<noteq> skip \<and>
      (h \<longrightarrow> health_status x = ''healthy'')) (nodes f))"
    using claim_first_Some [OF assms [unfolded claimNodeWithCapacity_def]] by (auto dest!: in_set_takeD)
  then show ?thesis by (simp add: image_iff case_prod_beta) metis
qed

lemma fleet_ok_set_counter [simp]: "fleet_ok (set_counter n g f) = fleet_ok f"
  by (simp add: fleet_ok_def)

lemma fleet_ok_release [simp]: "fleet_ok (release_slot n f) = fleet_ok f"
  by (simp add: release_slot_def)

lemma routes_repoint [simp]: "map fst (routes (repoint r d f)) = map fst (routes f)"
    "fst ` set (routes (repoint r d f)) = fst ` set (routes f)"
  by (simp_all add: repoint_def dom_map_entry)

lemma fleet_ok_repoint [simp]: "fleet_ok (repoint r d f) = fleet_ok f"
  by (simp add: fleet_ok_def)

lemma fleet_ok_add: "fleet_ok f \<Longrightarrow> map_of (routes f) r = Some row \<Longrightarrow> fleet_ok (add_assignment r d f)"
  by (auto simp: fleet_ok_def add_assignment_def dest: map_of_SomeD intro: rev_image_eqI)

lemma fleet_ok_drop: "fleet_ok f \<Longrightarrow> fleet_ok (drop_assignment r d f)"
  by (auto simp: fleet_ok_def drop_assignment_def)

lemma distinct_map_rename:
  "distinct xs \<Longrightarrow> b \<notin> set xs \<Longrightarrow> distinct (map (\<lambda>x. if x = a then b else x) xs)"
  by (auto simp: distinct_map inj_on_def split: if_split_asm)

lemma fleet_ok_rename:
  assumes "fleet_ok f" "(r, n) \<in> set (assignments f)" "(r, d) \<notin> set (assignments f)"
  shows "fleet_ok (rename_assignment r n d f)"
proof -
  have "fst ` set (assignments (rename_assignment r n d f)) \<subseteq> fst ` set (assignments f)"
    using assms(2) by (force simp: set_rename_assignment)
  then show ?thesis using assms distinct_map_rename [of "assignments f" "(r, d)" "(r, n)"]
    unfolding fleet_ok_def by (auto simp: rename_assignment_def)
qed

lemma fleet_ok_delete: "fleet_ok f \<Longrightarrow> fleet_ok (delete_route r f)"
  by (force simp: fleet_ok_def delete_route_def AList.delete_eq distinct_map_filter)

section \<open>The ledger\<close>

inductive ledger_step :: "(nat \<Rightarrow> int) \<Rightarrow> (nat \<Rightarrow> nat set) \<Rightarrow> (nat \<Rightarrow> nat set) \<Rightarrow> bool" for lim where
  place: "N \<noteq> {} \<Longrightarrow> \<forall>n. r \<notin> H n \<Longrightarrow> \<forall>n \<in> N. int (card (H n)) < lim n \<Longrightarrow>
    ledger_step lim H (\<lambda>n. if n \<in> N then insert r (H n) else H n)"
| remove: "ledger_step lim H (\<lambda>n. H n - {r})"
| move: "r \<in> H a \<Longrightarrow> r \<notin> H b \<Longrightarrow> int (card (H b)) < lim b \<Longrightarrow>
    ledger_step lim H (H(a := H a - {r}, b := insert r (H b)))"
| hand_over: "r \<in> H a \<Longrightarrow> r \<in> H b \<Longrightarrow> a \<noteq> b \<Longrightarrow> ledger_step lim H (H(a := H a - {r}))"

text \<open>A transaction from \<open>f\<close> to \<open>f'\<close> implements the ledger.\<close>

definition implements :: "fleet \<Rightarrow> fleet \<Rightarrow> bool" where
  "implements f f' \<longleftrightarrow> fleet_ok f' \<and> counted f' \<and> limit f' = limit f \<and>
     (ledger_step (limit f))\<^sup>*\<^sup>* (hosted f) (hosted f')"

lemma implements_trans: "implements f g \<Longrightarrow> implements g h \<Longrightarrow> implements f h"
  by (auto simp: implements_def)

lemma implements_refl: "fleet_ok f \<Longrightarrow> counted f \<Longrightarrow> implements f f"
  by (simp add: implements_def)

lemma counted_counter: "counted f \<Longrightarrow> counter f n = Some c \<Longrightarrow> c = int (card (hosted f n)) \<and> c \<le> limit f n"
  by (simp add: counted_def)

section \<open>Deleting\<close>

lemma fold_release [simp]:
  "routes (fold release_slot ns f) = routes f" "assignments (fold release_slot ns f) = assignments f"
  "hosted (fold release_slot ns f) = hosted f" "limit (fold release_slot ns f) = limit f"
  "fleet_ok (fold release_slot ns f) = fleet_ok f"
  by (induction ns arbitrary: f) simp_all

lemma counter_fold_release:
  "distinct ns \<Longrightarrow> counter (fold release_slot ns f) m =
     (if m \<in> set ns then map_option (\<lambda>c. max (c - 1) 0) (counter f m) else counter f m)"
  by (induction ns arbitrary: f) auto

lemma release_all:
  assumes "fleet_ok f" "counted f" "distinct ns"
    and "\<And>m. counter f m \<noteq> None \<Longrightarrow> m \<in> set ns \<longleftrightarrow> r \<in> hosted f m"
  shows "implements f (fold release_slot ns (delete_route r f))"
proof -
  let ?f = "fold release_slot ns (delete_route r f)"
  have h: "hosted ?f = (\<lambda>n. hosted f n - {r})" by (simp add: fun_eq_iff)
  have "c = int (card (hosted f m - {r})) \<and> c \<le> limit f m" if asm: "counter ?f m = Some c" for m c
  proof (cases "m \<in> set ns")
    case True
    then obtain d where d: "counter f m = Some d" "c = max (d - 1) 0"
      using asm by (auto simp: counter_fold_release [OF assms(3)])
    moreover have "r \<in> hosted f m" using True assms(4) d(1) by simp
    then have "0 < card (hosted f m)" "card (hosted f m - {r}) = card (hosted f m) - 1"
      by (auto simp: card_gt_0_iff)
    ultimately show ?thesis using counted_counter [OF assms(2) d(1)] by auto
  next
    case False
    then have "counter f m = Some c" using asm by (auto simp: counter_fold_release [OF assms(3)])
    then show ?thesis using assms(4) False counted_counter [OF assms(2)] by (auto simp: Diff_triv)
  qed
  then have "counted ?f" by (simp add: counted_def h)
  moreover have "ledger_step (limit f) (hosted f) (hosted ?f)" unfolding h by (rule ledger_step.remove)
  ultimately show ?thesis using fleet_ok_delete [OF assms(1)] by (auto simp: implements_def)
qed

lemma holders:
  assumes "fleet_ok f" "map_of (routes f) r = Some row"
  shows "distinct (caddy_node_id row # fanOutNodes r (caddy_node_id row) f)"
    and "m \<in> set (caddy_node_id row # fanOutNodes r (caddy_node_id row) f) \<longleftrightarrow> r \<in> hosted f m"
proof -
  have "distinct (fanOutNodes r a f)" for a
    using assms(1) by (auto simp: fanOutNodes_def fleet_ok_def distinct_map inj_on_def)
  then show "distinct (caddy_node_id row # fanOutNodes r (caddy_node_id row) f)" by (auto simp: fanOutNodes_def)
  show "m \<in> set (caddy_node_id row # fanOutNodes r (caddy_node_id row) f) \<longleftrightarrow> r \<in> hosted f m"
    using assms(2) by (force simp: hosted_def fanOutNodes_def)
qed

lemma counter_node: "counter f n \<noteq> None \<Longrightarrow> n \<in> fst ` set (nodes f)"
  by (auto simp: counter_def dest!: map_of_SomeD intro: rev_image_eqI)

lemma Delete_implements:
  assumes "fleet_ok f" "counted f" "Delete client r f = Inr f'"
  shows "implements f f'"
proof -
  obtain row where row: "map_of (routes f) r = Some row"
    and f': "f' = fold release_slot (caddy_node_id row # fanOutNodes r (caddy_node_id row) f) (delete_route r f)"
    using assms(3) by (auto simp: Delete_def delete_read_def delete_tx_def split: option.split_asm if_split_asm)
  show ?thesis unfolding f' by (rule release_all [OF assms(1,2) holders [OF assms(1) row]])
qed

lemma evict_implements:
  assumes "fleet_ok f" "counted f"
  shows "implements f (fst (evictUnverifiedRoute r f))"
proof (cases "map_of (routes f) r")
  case None
  then show ?thesis using assms by (simp add: evictUnverifiedRoute_def implements_refl)
next
  case (Some row)
  let ?ns = "(if caddy_node_id row \<noteq> 0 then [caddy_node_id row] else []) @ fanOutNodes r (caddy_node_id row) f"
  have "distinct ?ns" using holders(1) [OF assms(1) Some] by simp
  moreover have "m \<in> set ?ns \<longleftrightarrow> r \<in> hosted f m" if "counter f m \<noteq> None" for m
  proof -
    have "m \<noteq> 0" using counter_node [OF that] assms(1) unfolding fleet_ok_def by metis
    then show ?thesis using holders(2) [OF assms(1) Some, of m] by auto
  qed
  ultimately have "implements f (fold release_slot ?ns (delete_route r f))" by (rule release_all [OF assms])
  then show ?thesis using Some assms by (simp add: evictUnverifiedRoute_def Let_def implements_refl)
qed

section \<open>Creating\<close>

lemma claim_slot_True:
  "claim_slot n f = (f', True) \<Longrightarrow>
   f' = set_counter n (\<lambda>c. c + 1) f \<and> (\<exists>c. counter f n = Some c \<and> c < limit f n)"
  by (erule claim_slot_cases) (auto simp: counter_def limit_def)

text \<open>A claim pays for one more route on a node.\<close>

lemma counted_claim:
  assumes "counted f" "counter f2 = counter f" "limit f2 = limit f" "hosted f2 = (hosted f)(n := insert r (hosted f n))"
    and "r \<notin> hosted f n" "counter f n = Some c" "c < limit f n"
  shows "counted (set_counter n (\<lambda>c. c + 1) f2)" and "int (card (hosted f n)) < limit f n"
  using assms by (auto simp: counted_def)

lemma hosted_insert_row:
  assumes "fleet_ok f" "r \<notin> fst ` set (routes f)"
  shows "hosted (f\<lparr>routes := (r, row\<lparr>caddy_node_id := n\<rparr>) # routes f\<rparr>) = (hosted f)(n := insert r (hosted f n))"
proof -
  have "(r, m) \<notin> set (assignments f)" for m using assms unfolding fleet_ok_def by (metis fst_conv imageI subsetD)
  moreover have "map_of (routes f) r = None" using assms(2) by (simp add: map_of_eq_None_iff)
  ultimately show ?thesis by (auto simp: hosted_def fun_eq_iff)
qed

lemma fleet_ok_insert_row:
  "fleet_ok f \<Longrightarrow> r \<notin> fst ` set (routes f) \<Longrightarrow> fleet_ok (f\<lparr>routes := (r, row) # routes f\<rparr>)"
  by (auto simp: fleet_ok_def)

lemma assign_peers_hosts:
  assumes "fleet_ok f" "counted f" "map_of (routes f) r = Some row" "caddy_node_id row = p" "distinct ns"
    and "\<And>n. n \<in> set ns \<Longrightarrow> n \<noteq> p \<Longrightarrow> (r, n) \<notin> set (assignments f)" "assign_peers r p ns f = (f', got)"
  shows "fleet_ok f' \<and> counted f' \<and> limit f' = limit f \<and>
    hosted f' = (\<lambda>m. if m \<in> set got then insert r (hosted f m) else hosted f m) \<and>
    (\<forall>n \<in> set got. n \<noteq> p \<and> int (card (hosted f n)) < limit f n) \<and> set got \<subseteq> set ns"
  using assms
proof (induction r p ns f arbitrary: f' got rule: assign_peers.induct)
  case (1 r p f)
  then show ?case by simp
next
  case (2 r p n ns f)
  have row: "map_of (routes (add_assignment r n g)) r = Some row" if "routes g = routes f" for g
    using 2(6) that by simp
  show ?case
  proof (cases "n = p")
    case True
    have h: "hosted (add_assignment r n f) = hosted f"
      using 2(6,7) True by (auto simp: fun_eq_iff hosted_add_assignment) (auto simp: hosted_def)
    have "counted (add_assignment r n f)" using 2(5) by (simp add: counted_def h)
    moreover have "\<And>m. m \<in> set ns \<Longrightarrow> m \<noteq> p \<Longrightarrow> (r, m) \<notin> set (assignments (add_assignment r n f))"
      using 2(9) True by auto
    moreover have "distinct ns" "assign_peers r p ns (add_assignment r n f) = (f', got)" using 2(8,10) True by simp_all
    ultimately show ?thesis using 2(1) [OF True fleet_ok_add [OF 2(4,6)] _ row [OF refl] 2(7)] unfolding h by auto
  next
    case False
    obtain g ok where g: "claim_slot n f = (g, ok)" by (cases "claim_slot n f")
    show ?thesis
    proof (cases ok)
      case False
      then have "g = f" using g by (auto elim: claim_slot_cases)
      then show ?thesis using 2(3) [OF \<open>n \<noteq> p\<close> g [symmetric] False, of f' got] 2(4-) g \<open>n \<noteq> p\<close> False by auto
    next
      case True
      let ?a = "add_assignment r n g"
      obtain got' where got: "assign_peers r p ns ?a = (f', got')" "got = n # got'"
        using 2(10) g True \<open>n \<noteq> p\<close> by (auto split: prod.split_asm)
      obtain c where c: "g = set_counter n (\<lambda>c. c + 1) f" "counter f n = Some c" "c < limit f n"
        using claim_slot_True [of n f g] g True by auto
      have new: "r \<notin> hosted f n" using 2(6,7,9) \<open>n \<noteq> p\<close> by (auto simp: hosted_def)
      have h: "hosted (add_assignment r n f) = (hosted f)(n := insert r (hosted f n))"
        using hosted_add_assignment [OF 2(6)] by (auto simp: fun_eq_iff)
      have a: "?a = set_counter n (\<lambda>c. c + 1) (add_assignment r n f)"
        by (simp add: c(1) add_assignment_def set_counter_def)
      have ok: "counted ?a" "int (card (hosted f n)) < limit f n"
        unfolding a using counted_claim [OF 2(5) _ _ h new c(2,3)] by simp_all
      have "fleet_ok ?a" unfolding a using fleet_ok_add [OF 2(4,6)] by simp
      moreover have "\<And>m. m \<in> set ns \<Longrightarrow> m \<noteq> p \<Longrightarrow> (r, m) \<notin> set (assignments ?a)"
        using 2(8,9) by (auto simp: c(1))
      ultimately show ?thesis
        using 2(2) [OF \<open>n \<noteq> p\<close> g [symmetric] True _ ok(1) row 2(7) _ _ got(1)] 2(8) ok(2) \<open>n \<noteq> p\<close> h
        unfolding a got(2) by (auto simp: c(1) split: if_split_asm)
    qed
  qed
qed

lemma place_route:
  assumes "fleet_ok f" "counted f" "r \<notin> fst ` set (routes f)" "counter f n = Some c" "c < limit f n" "distinct ns"
    and "finish_create mode r n ns (set_counter n (\<lambda>c. c + 1) (f\<lparr>routes := (r, row\<lparr>caddy_node_id := n\<rparr>) # routes f\<rparr>)) = (f', got)"
  shows "implements f f'" and "hosted f' = (\<lambda>m. if m \<in> set got then insert r (hosted f m) else hosted f m)"
proof -
  let ?i = "f\<lparr>routes := (r, row\<lparr>caddy_node_id := n\<rparr>) # routes f\<rparr>"
  let ?f = "set_counter n (\<lambda>c. c + 1) ?i"
  have new: "r \<notin> hosted f m" for m using assms(3) by (auto simp: hosted_def dest!: map_of_SomeD intro: rev_image_eqI)
  have h: "hosted ?i = (hosted f)(n := insert r (hosted f n))" by (rule hosted_insert_row [OF assms(1,3)])
  have same: "counter ?i = counter f" "limit ?i = limit f" by (simp_all add: counter_def limit_def fun_eq_iff)
  note claim = counted_claim [OF assms(2) same h new assms(4,5)]
  have ok: "fleet_ok ?f" using fleet_ok_insert_row [OF assms(1,3)] by simp
  have unassigned: "(r, m) \<notin> set (assignments f)" for m
    using assms(1,3) unfolding fleet_ok_def by (metis fst_conv imageI subsetD)
  have "fleet_ok f' \<and> counted f' \<and> limit f' = limit f \<and> n \<in> set got \<and>
      hosted f' = (\<lambda>m. if m \<in> set got then insert r (hosted f m) else hosted f m) \<and>
      (\<forall>m \<in> set got. int (card (hosted f m)) < limit f m)"
  proof (cases "mode \<noteq> ''single'' \<and> 1 < length ns")
    case True
    then obtain got' where got: "assign_peers r n ns ?f = (f', got')" "got = n # got'"
      using assms(7) by (auto simp: finish_create_def split: prod.split_asm)
    from assign_peers_hosts [OF ok claim(1) _ _ assms(6) _ got(1)] show ?thesis
      using unassigned claim(2) unfolding got(2) by (auto simp: h same fun_eq_iff)
  next
    case False
    then have "f' = ?f" "got = [n]" using assms(7) by (auto simp: finish_create_def)
    then show ?thesis using ok claim by (auto simp: h same fun_eq_iff)
  qed
  note r = this
  then show "hosted f' = (\<lambda>m. if m \<in> set got then insert r (hosted f m) else hosted f m)" by blast
  from r have "ledger_step (limit f) (hosted f) (hosted f')"
    using ledger_step.place [of "set got" r "hosted f" "limit f"] new by (metis empty_iff)
  then show "implements f f'" using r by (auto simp: implements_def)
qed

lemma repoint_insert:
  "repoint r b (g\<lparr>routes := (r, row\<lparr>caddy_node_id := a\<rparr>) # rs\<rparr>) = g\<lparr>routes := (r, row\<lparr>caddy_node_id := b\<rparr>) # rs\<rparr>"
  by (simp add: repoint_def)

lemma set_counter_routes: "set_counter n g (f\<lparr>routes := rs\<rparr>) = (set_counter n g f)\<lparr>routes := rs\<rparr>"
  by (simp add: set_counter_def)

lemma insert_route_implements:
  assumes "fleet_ok f" "counted f" "r \<notin> fst ` set (routes f)" "distinct ns"
    and "insert_route usage g (n, ns, mode) r row f = Inr (f', got)"
  shows "implements f f'" and "hosted f' = (\<lambda>m. if m \<in> set got then insert r (hosted f m) else hosted f m)"
proof -
  let ?i = "\<lambda>n. f\<lparr>routes := (r, row\<lparr>caddy_node_id := n\<rparr>) # routes f\<rparr>"
  have same: "counter (?i m) = counter f" "limit (?i m) = limit f" for m by (simp_all add: counter_def limit_def fun_eq_iff)
  obtain a as c where a: "counter f a = Some c" "c < limit f a" "distinct as"
    "finish_create mode r a as (set_counter a (\<lambda>c. c + 1) (?i a)) = (f', got)"
  proof (cases "snd (claim_slot n (?i n))")
    case True
    then obtain f2 where f2: "claim_slot n (?i n) = (f2, True)" by (metis prod.collapse)
    with assms(5) claim_slot_True [OF f2] show ?thesis
      using that [of n _ ns] assms(4) by (auto simp: insert_route_def same)
  next
    case False
    then obtain f2 where f2: "claim_slot n (?i n) = (f2, False)" by (metis prod.collapse)
    then have "f2 = ?i n" by (auto elim: claim_slot_cases)
    with assms(5) f2 obtain f3 alt where alt: "claimNodeWithCapacity usage g n False (?i n) = (f3, Some alt)"
      "(f', got) = finish_create mode r alt [alt] (repoint r alt f3)"
      by (auto simp: insert_route_def split: if_split_asm prod.split_asm option.split_asm)
    from claimNode_Some [OF alt(1)] have "claim_slot alt (?i n) = (f3, True)" by blast
    from claim_slot_True [OF this] alt(2) show ?thesis
      using that [of alt _ "[alt]"] by (auto simp: same set_counter_routes repoint_insert)
  qed
  from place_route [OF assms(1-3) a] show "implements f f'"
    and "hosted f' = (\<lambda>m. if m \<in> set got then insert r (hosted f m) else hosted f m)" .
qed

lemma evict_fresh:
  "r \<notin> fst ` set (routes f) \<Longrightarrow> r \<notin> fst ` set (routes (fst (evictUnverifiedRoute q f)))"
  by (auto simp: evictUnverifiedRoute_def Let_def AList.delete_eq split: option.split)

lemma implements_sel: "implements f f' \<Longrightarrow> fleet_ok f' \<and> counted f'"
  by (simp add: implements_def)

lemma Create_implements:
  assumes "fleet_ok f" "counted f" "r \<notin> fst ` set (routes f)" "distinct ns"
    and "Create usage g (n, ns, mode) r row f = Inr (f', got)"
  shows "implements f f'"
proof (cases "find (\<lambda>(q, x). r_domain x = r_domain row \<and> r_path x = r_path row) (routes f)")
  case None
  then show ?thesis using assms(5) insert_route_implements(1) [OF assms(1-4)] by (simp add: Create_def)
next
  case (Some qx)
  let ?e = "fst (evictUnverifiedRoute (fst qx) f)"
  have "insert_route usage g (n, ns, mode) r row ?e = Inr (f', got)"
    using assms(5) Some by (auto simp: Create_def split: prod.split_asm if_split_asm)
  moreover note e = evict_implements [OF assms(1,2), of "fst qx"]
  ultimately have "implements ?e f'"
    using insert_route_implements(1) implements_sel [OF e] evict_fresh [OF assms(3)] assms(4) by blast
  then show ?thesis by (rule implements_trans [OF e])
qed

section \<open>Failover\<close>

text \<open>The counters, measured against a placement \<open>H\<close> other than the current one.\<close>

definition counted_by :: "fleet \<Rightarrow> (nat \<Rightarrow> nat set) \<Rightarrow> bool" where
  "counted_by f H \<longleftrightarrow> (\<forall>n c. counter f n = Some c \<longrightarrow> c = int (card (H n)) \<and> c \<le> limit f n)"

lemma counted_by_hosted: "counted_by f (hosted f) = counted f"
  by (simp add: counted_by_def counted_def)

lemma counted_byD: "counted_by f H \<Longrightarrow> counter f n = Some c \<Longrightarrow> c = int (card (H n)) \<and> c \<le> limit f n"
  by (simp add: counted_by_def)

lemma counted_by_claim:
  assumes "counted_by f H" "finite (H n)" "r \<notin> H n" "counter f n = Some c" "c < limit f n"
  shows "counted_by (set_counter n (\<lambda>c. c + 1) f) (H(n := insert r (H n)))" and "int (card (H n)) < limit f n"
  using assms by (auto simp: counted_by_def)

lemma counted_by_cong: "counter f = counter g \<Longrightarrow> limit f = limit g \<Longrightarrow> counted_by f H = counted_by g H"
  by (simp add: counted_by_def)

lemma counted_release:
  assumes "counted_by f H" "r \<in> H a" "finite (H a)" "hosted f = H(a := H a - {r})"
  shows "counted (release_slot a f)"
proof -
  have pos: "0 < card (H a)" using assms(2,3) card_gt_0_iff by blast
  have "c = int (card ((H(a := H a - {r})) n)) \<and> c \<le> limit f n" if "counter (release_slot a f) n = Some c" for n c
  proof (cases "n = a")
    case True
    with that obtain z where z: "counter f a = Some z" "c = max (z - 1) 0" by auto
    with assms(1) have "z = int (card (H a))" "z \<le> limit f a" by (auto simp: counted_by_def)
    with z(2) pos True assms(2,3) show ?thesis by (auto simp: of_nat_diff)
  qed (use that assms(1) in \<open>auto simp: counted_by_def\<close>)
  then show ?thesis by (simp add: counted_def assms(4))
qed

lemma standby_Some: "standby r from f = Some d \<Longrightarrow> (r, d) \<in> set (assignments f) \<and> d \<noteq> from"
proof -
  assume "standby r from f = Some d"
  then obtain k :: "nat \<Rightarrow> int \<times> nat" and ys where e: "sort_key k (filter (\<lambda>n. serviceable n f) (fanOutNodes r from f)) = d # ys"
    by (auto simp: standby_def split: list.split_asm)
  have "d \<in> set (sort_key k (filter (\<lambda>n. serviceable n f) (fanOutNodes r from f)))" unfolding e by simp
  then show ?thesis by (auto simp: fanOutNodes_def)
qed

lemma sort_key_Nil: "sort_key k xs = [] \<longleftrightarrow> xs = []"
  by (metis length_0_conv length_sort)

lemma standby_None:
  assumes "standby r from f = None" "serviceable d f" "d \<noteq> from"
  shows "(r, d) \<notin> set (assignments f)"
proof
  assume "(r, d) \<in> set (assignments f)"
  then have "d \<in> set (filter (\<lambda>n. serviceable n f) (fanOutNodes r from f))"
    using assms(2,3) by (force simp: fanOutNodes_def)
  moreover have "filter (\<lambda>n. serviceable n f) (fanOutNodes r from f) = []"
    using assms(1) by (simp add: standby_def sort_key_Nil split: list.split_asm)
  ultimately show False by simp
qed

lemma failover_hosted:
  assumes "map_of (routes f) r = Some row" "caddy_node_id row = from" "d \<noteq> from"
    and "f4 = (if add then add_assignment r d (drop_assignment r from (repoint r d f)) else drop_assignment r from (repoint r d f))"
  shows "hosted f4 = (hosted f)(from := hosted f from - {r}, d := insert r (hosted f d))"
proof -
  have row: "map_of (routes (repoint r d f)) r = Some (row\<lparr>caddy_node_id := d\<rparr>)" using assms(1) by (simp add: map_of_repoint)
  have r: "r \<notin> hosted f m" if "m \<noteq> from" "(r, m) \<notin> set (assignments f)" for m using that assms(1,2) by (auto simp: hosted_def)
  have r': "r \<in> hosted f m" if "(r, m) \<in> set (assignments f)" for m using that assms(1) by (auto simp: hosted_def)
  have "hosted (drop_assignment r from (repoint r d f)) = (hosted f)(from := hosted f from - {r}, d := insert r (hosted f d))"
    using r r' assms(3) by (auto simp: fun_eq_iff hosted_drop_assignment [OF row] hosted_repoint [OF assms(1)])
  moreover have "map_of (routes (drop_assignment r from (repoint r d f))) r = Some (row\<lparr>caddy_node_id := d\<rparr>)" using row by simp
  ultimately show ?thesis by (simp add: assms(4) fun_eq_iff hosted_add_assignment)
qed

lemma failoverRoute_implements:
  assumes "fleet_ok f" "counted f" "failoverRoute usage r from g f = Inr (f', d)"
  shows "implements f f'"
proof -
  obtain f1 claimed where dest: "failover_dest usage r from g f = (f1, Some d, claimed)"
    and anchor: "map_option caddy_node_id (map_of (routes f1) r) = Some from"
    and f': "f' = release_slot from (if (r, from) \<in> set (assignments f1) \<and> claimed
      then add_assignment r d (drop_assignment r from (repoint r d f1)) else drop_assignment r from (repoint r d f1))"
    using assms(3) by (auto simp: failoverRoute_def Let_def split: prod.split_asm option.split_asm if_split_asm)
  let ?H = "\<lambda>f. (hosted f)(from := hosted f from - {r}, d := insert r (hosted f d))"
  from anchor obtain row where row: "map_of (routes f1) r = Some row" "caddy_node_id row = from" by auto
  then have src: "r \<in> hosted f1 from" by (auto simp: hosted_def)
  define f4 where "f4 = (if (r, from) \<in> set (assignments f1) \<and> claimed
      then add_assignment r d (drop_assignment r from (repoint r d f1)) else drop_assignment r from (repoint r d f1))"
  have f4: "f' = release_slot from f4" "counter f4 = counter f1" "limit f4 = limit f1" by (simp_all add: f' f4_def)
  have ok4: "fleet_ok f4" if "fleet_ok f1"
    using that fleet_ok_drop [of "repoint r d f1" r "from"] fleet_ok_add [of "drop_assignment r from (repoint r d f1)" r "row\<lparr>caddy_node_id := d\<rparr>" d] row
    by (simp add: f4_def map_of_repoint)
  have h: "hosted f4 = ?H f1" if "d \<noteq> from" by (rule failover_hosted [OF row that f4_def])
  show ?thesis
  proof (cases "standby r from f")
    case (Some d')
    then have [simp]: "f1 = f" "d' = d" using dest by (auto simp: failover_dest_def)
    have d: "d \<noteq> from" "r \<in> hosted f d" using standby_Some [OF Some] row by (auto simp: hosted_def)
    then have H: "hosted f4 = (hosted f)(from := hosted f from - {r})" using h by (auto simp: fun_eq_iff)
    have "counted f'" unfolding f4(1)
      by (rule counted_release [OF _ _ _ H]) (use assms(2) src f4 in \<open>auto simp: counted_by_hosted [symmetric] cong: counted_by_cong\<close>)
    moreover have "ledger_step (limit f) (hosted f) (hosted f')"
      using ledger_step.hand_over [of r "hosted f" "from" d] d src by (simp add: f4(1) H)
    ultimately show ?thesis using f4 ok4 assms(1) by (auto simp: implements_def)
  next
    case None
    then have c: "claimNodeWithCapacity usage g from True f = (f1, Some d)" using dest by (auto simp: failover_dest_def split: prod.split_asm)
    then obtain x c where x: "(d, x) \<in> set (nodes f)" "has_room g x" "health_status x = ''healthy''" "d \<noteq> from"
      "f1 = set_counter d (\<lambda>c. c + 1) f" "counter f d = Some c" "c < limit f d"
      using claimNode_Some [OF c] claim_slot_True by blast
    have "serviceable d f" using x assms(1) by (auto simp: serviceable_def has_room_def fleet_ok_def)
    then have "r \<notin> hosted f d" using standby_None [OF None _ x(4)] row x(4) by (auto simp: hosted_def x(5))
    note cl = counted_by_claim [OF assms(2) [folded counted_by_hosted] finite_hosted this x(6,7)]
    have H: "hosted f4 = ((hosted f)(d := insert r (hosted f d)))(from := hosted f from - {r})"
      using h x(4) by (auto simp: x(5) fun_eq_iff)
    have "counted f'" unfolding f4(1)
      by (rule counted_release [of _ "(hosted f)(d := insert r (hosted f d))" r])
        (use cl src H f4 x(4,5) in \<open>auto cong: counted_by_cong\<close>)
    moreover have "ledger_step (limit f) (hosted f) (hosted f')"
      using ledger_step.move [of r "hosted f" "from" d] \<open>r \<notin> hosted f d\<close> cl(2) src x(4)
      by (simp add: f4(1) H x(5) fun_upd_twist)
    ultimately show ?thesis using f4 ok4 assms(1) x(5) by (auto simp: implements_def)
  qed
qed

section \<open>Migration\<close>

text \<open>What a planned move says about its route, in terms of that route's rows only.\<close>

definition move_ok :: "fleet \<Rightarrow> nat \<Rightarrow> nodeMove \<Rightarrow> bool" where
  "move_ok f src m \<longleftrightarrow> (\<exists>row. map_of (routes f) (mv_route m) = Some row \<and> mv_dest m \<noteq> src \<and>
     mv_anchor m = (caddy_node_id row = src) \<and> mv_srcRow m = ((mv_route m, src) \<in> set (assignments f)) \<and>
     (mv_anchor m \<or> mv_srcRow m) \<and> mv_shared m = (mv_route m \<in> hosted f (mv_dest m)))"

definition same_route :: "nat \<Rightarrow> fleet \<Rightarrow> fleet \<Rightarrow> bool" where
  "same_route r f g \<longleftrightarrow> map_of (routes f) r = map_of (routes g) r \<and>
     (\<forall>n. (r, n) \<in> set (assignments f) \<longleftrightarrow> (r, n) \<in> set (assignments g))"

lemma move_ok_same: "same_route (mv_route m) f g \<Longrightarrow> move_ok f src m = move_ok g src m"
  by (simp add: move_ok_def same_route_def hosted_def)

lemma move_tables:
  assumes "move_ok f src m" "mv_shared m = (mv_route m \<in> hosted f (mv_dest m))"
    and "move_anchor src m f = Inr f2" "move_row src m f2 = Inr f3"
  shows "hosted f3 = (hosted f)(src := hosted f src - {mv_route m}, mv_dest m := insert (mv_route m) (hosted f (mv_dest m)))"
    and "nodes f3 = nodes f" and "fleet_ok f \<Longrightarrow> fleet_ok f3" and "\<And>q. q \<noteq> mv_route m \<Longrightarrow> same_route q f f3"
proof -
  let ?r = "mv_route m" and ?d = "mv_dest m"
  obtain row where row: "map_of (routes f) ?r = Some row" "?d \<noteq> src" "mv_anchor m = (caddy_node_id row = src)"
    "mv_srcRow m = ((?r, src) \<in> set (assignments f))" "mv_anchor m \<or> mv_srcRow m"
    using assms(1) by (auto simp: move_ok_def)
  obtain row2 where row2: "map_of (routes f2) ?r = Some row2" "assignments f2 = assignments f" "nodes f2 = nodes f"
    "caddy_node_id row2 = (if caddy_node_id row = src then ?d else caddy_node_id row)"
    "fleet_ok f2 = fleet_ok f" "\<And>q. q \<noteq> ?r \<Longrightarrow> map_of (routes f2) q = map_of (routes f) q"
    using assms(3) row(1,3) by (auto simp: move_anchor_def map_of_repoint split: if_split_asm)
  have f3: "routes f3 = routes f2" "nodes f3 = nodes f2"
    "set (assignments f3) = (if (?r, src) \<notin> set (assignments f) then set (assignments f)
       else if mv_shared m then set (assignments f) - {(?r, src)} else insert (?r, ?d) (set (assignments f) - {(?r, src)}))"
    "fleet_ok f2 \<Longrightarrow> fleet_ok f3"
    using assms(4) row(4) row2(2)
    by (auto simp: move_row_def set_rename_assignment fleet_ok_drop fleet_ok_rename split: if_split_asm)
  show "nodes f3 = nodes f" "fleet_ok f \<Longrightarrow> fleet_ok f3" using f3 row2 by simp_all
  show same: "same_route q f f3" if "q \<noteq> ?r" for q using that row2(6) f3 by (auto simp: same_route_def)
  have "?r \<in> hosted g n \<longleftrightarrow> caddy_node_id rw = n \<or> (?r, n) \<in> set (assignments g)"
    if "map_of (routes g) ?r = Some rw" for g rw n using that by (simp add: hosted_def)
  note r = this [OF row(1)] this [of f3, unfolded f3(1), OF row2(1)]
  have moved: "?r \<in> hosted f3 n \<longleftrightarrow> n \<noteq> src \<and> (n = ?d \<or> ?r \<in> hosted f n)" for n
    unfolding r row2(4) f3(3) using row(2-5) assms(2) [unfolded r]
    by (cases "caddy_node_id row = src"; cases "(?r, src) \<in> set (assignments f)"; cases "mv_shared m") auto
  have kept: "q \<in> hosted f3 n \<longleftrightarrow> q \<in> hosted f n" if "q \<noteq> ?r" for q n
    using same [OF that] by (simp add: hosted_def same_route_def)
  have "q \<in> hosted f3 n \<longleftrightarrow> q \<in> ((hosted f)(src := hosted f src - {?r}, ?d := insert ?r (hosted f ?d))) n" for q n
    using moved [of n] kept [of q n] row(2) by (cases "q = ?r") auto
  then show "hosted f3 = (hosted f)(src := hosted f src - {?r}, ?d := insert ?r (hosted f ?d))" by blast
qed

lemma same_nodes: "nodes f = nodes g \<Longrightarrow> counter f = counter g \<and> limit f = limit g"
  by (simp add: counter_def limit_def fun_eq_iff)

lemma one_move:
  assumes "fleet_ok f" "counted_by f ((hosted f)(src := S))" "move_ok f src m"
    and "move_claim m f = Inr f1" "move_anchor src m f1 = Inr f2" "move_row src m f2 = Inr f3"
  shows "fleet_ok f3 \<and> limit f3 = limit f \<and> counted_by f3 ((hosted f3)(src := S)) \<and>
    hosted f3 src = hosted f src - {mv_route m} \<and> ledger_step (limit f) (hosted f) (hosted f3) \<and>
    (\<forall>q. q \<noteq> mv_route m \<longrightarrow> same_route q f f3)"
proof -
  let ?r = "mv_route m" and ?d = "mv_dest m"
  have m: "?d \<noteq> src" "?r \<in> hosted f src" "mv_shared m = (?r \<in> hosted f ?d)"
    using assms(3) by (auto simp: move_ok_def) (auto simp: hosted_def)
  show ?thesis
  proof (cases "mv_shared m")
    case True
    then have [simp]: "f1 = f" using assms(4) by (simp add: move_claim_def)
    note t = move_tables [OF assms(3) m(3) assms(5,6) [simplified]]
    have h: "hosted f3 = (hosted f)(src := hosted f src - {?r})" using t(1) True m by (auto simp: fun_eq_iff)
    then have "(hosted f3)(src := S) = (hosted f)(src := S)" by simp
    moreover have "ledger_step (limit f) (hosted f) (hosted f3)"
      unfolding h using ledger_step.hand_over [of ?r "hosted f" src ?d] m True by simp
    ultimately show ?thesis using t(3) [OF assms(1)] t(4) assms(2) same_nodes [OF t(2)] h by (simp add: counted_by_def)
  next
    case False
    then obtain c where c: "f1 = set_counter ?d (\<lambda>c. c + 1) f" "counter f ?d = Some c" "c < limit f ?d"
      using assms(4) claim_slot_True [of ?d f] by (auto simp: move_claim_def split: prod.split_asm if_split_asm)
    have f1: "hosted f1 = hosted f" "\<And>q. same_route q f1 g = same_route q f g" "fleet_ok f1 = fleet_ok f" for g
      by (simp_all add: c(1) same_route_def)
    have "move_ok f1 src m" using assms(3) by (simp add: c(1) move_ok_def)
    note t = move_tables [OF this _ assms(5,6), unfolded f1, OF m(3)]
    have new: "?r \<notin> hosted f ?d" using m(3) False by simp
    note cl = counted_by_claim [OF assms(2), of ?d ?r, OF _ _ c(2,3), simplified fun_upd_other [OF m(1)], OF finite_hosted new]
    have "counted_by f3 ((hosted f3)(src := S))"
      using cl(1) same_nodes [OF t(2)] m(1) unfolding t(1) c(1) by (simp add: counted_by_def fun_upd_twist)
    moreover have "ledger_step (limit f) (hosted f) (hosted f3)"
      unfolding t(1) using ledger_step.move [of ?r "hosted f" src ?d] m new cl(2) by simp
    moreover have "limit f3 = limit f" using same_nodes [OF t(2)] by (simp add: c(1))
    ultimately show ?thesis using t(3) [OF assms(1)] t(4) m(1) by (simp add: t(1))
  qed
qed

lemma apply_moves_ledger:
  assumes "fleet_ok f" "counted_by f ((hosted f)(src := S))" "distinct (map mv_route ms)"
    and "\<forall>m \<in> set ms. move_ok f src m" "apply_moves src ms f = Inr f'"
  shows "fleet_ok f' \<and> limit f' = limit f \<and> counted_by f' ((hosted f')(src := S)) \<and>
    hosted f' src = hosted f src - mv_route ` set ms \<and> (ledger_step (limit f))\<^sup>*\<^sup>* (hosted f) (hosted f')"
  using assms
proof (induction ms arbitrary: f)
  case (Cons m ms)
  from Cons.prems(5) obtain f1 f2 f3 where f3: "move_claim m f = Inr f1" "move_anchor src m f1 = Inr f2"
    "move_row src m f2 = Inr f3" "apply_moves src ms f3 = Inr f'"
    by (auto split: sum.split_asm)
  have "move_ok f src m" using Cons.prems(4) by simp
  note one = one_move [OF Cons.prems(1,2) this f3(1-3)]
  have "\<forall>m' \<in> set ms. move_ok f3 src m'"
  proof
    fix m' assume "m' \<in> set ms"
    then have "mv_route m' \<noteq> mv_route m" and "move_ok f src m'" using Cons.prems(3,4) by (simp_all add: image_iff) metis
    then show "move_ok f3 src m'" using one move_ok_same [of m' f f3 src] by simp
  qed
  moreover have "distinct (map mv_route ms)" using Cons.prems(3) by simp
  ultimately have i: "fleet_ok f'" "limit f' = limit f3" "counted_by f' ((hosted f')(src := S))"
    "hosted f' src = hosted f3 src - mv_route ` set ms" "(ledger_step (limit f3))\<^sup>*\<^sup>* (hosted f3) (hosted f')"
    using Cons.IH [of f3] one f3(4) by blast+
  have "hosted f' src = hosted f src - mv_route ` set (m # ms)" using one i(4) by auto
  moreover have "(ledger_step (limit f))\<^sup>*\<^sup>* (hosted f) (hosted f')"
    using one i(5) converse_rtranclp_into_rtranclp [of "ledger_step (limit f)" "hosted f" "hosted f3"] by simp
  ultimately show ?case using i(2) one by (intro conjI i(1,3)) simp_all
qed simp

lemma move_ok_hosted: "move_ok f src m \<Longrightarrow> mv_route m \<in> hosted f src"
  by (auto simp: move_ok_def hosted_def)

lemma applyNodeMoves_implements:
  assumes "fleet_ok f" "counted f" "distinct (map mv_route ms)" "\<forall>m \<in> set ms. move_ok f src m"
    and "applyNodeMoves src ms f = Inr f'"
  shows "implements f f'" and "hosted f' src = hosted f src - mv_route ` set ms"
proof -
  obtain g where g: "apply_moves src ms f = Inr g" "f' = set_counter src (\<lambda>c. max 0 (c - int (length ms))) g"
    using assms(5) by (auto simp: applyNodeMoves_def split: sum.split_asm)
  have "counted_by f ((hosted f)(src := hosted f src))" using assms(2) by (simp add: counted_by_hosted)
  note a = apply_moves_ledger [OF assms(1) this assms(3,4) g(1)]
  have "mv_route ` set ms \<subseteq> hosted f src" using assms(4) move_ok_hosted by blast
  moreover have "card (mv_route ` set ms) = length ms" using distinct_card [OF assms(3)] by simp
  ultimately have n: "card (hosted g src) = card (hosted f src) - length ms" "length ms \<le> card (hosted f src)"
    using a card_mono [OF finite_hosted [of f src], of "mv_route ` set ms"] by (auto simp: card_Diff_subset)
  have "c = int (card (hosted g n)) \<and> c \<le> limit g n" if "counter f' n = Some c" for n c
  proof (cases "n = src")
    case True
    with that obtain z where z: "counter g src = Some z" "c = max 0 (z - int (length ms))" by (auto simp: g(2))
    then have "z = int (card (hosted f src))" "z \<le> limit g src"
      using a counted_byD [of g "(hosted g)(src := hosted f src)" src z] by simp_all
    then show ?thesis using n z(2) True by (auto simp: of_nat_diff)
  next
    case False
    then show ?thesis using that a counted_byD [of g "(hosted g)(src := hosted f src)" n c] by (simp add: g(2))
  qed
  then have "counted f'" by (simp add: counted_def g(2))
  then show "implements f f'" and "hosted f' src = hosted f src - mv_route ` set ms"
    using a by (simp_all add: implements_def g(2))
qed

lemma find_SomeD: "find P xs = Some x \<Longrightarrow> x \<in> set xs \<and> P x"
  by (auto simp: find_Some_iff)

lemma plan_moves_ok:
  assumes "\<And>r a. (r, a) \<in> set rs \<Longrightarrow> \<exists>row. map_of (routes f) r = Some row \<and> caddy_node_id row = a \<and>
      (a = src \<or> (r, src) \<in> set (assignments f))"
    and "distinct (map fst rs)" "src \<notin> fst ` set peers"
  shows "(\<forall>m \<in> set (plan_moves f src rs peers). move_ok f src m) \<and>
    distinct (map mv_route (plan_moves f src rs peers)) \<and> mv_route ` set (plan_moves f src rs peers) \<subseteq> fst ` set rs"
  using assms
proof (induction f src rs peers rule: plan_moves.induct)
  case (2 f src r a rs peers)
  obtain row where row: "map_of (routes f) r = Some row" "caddy_node_id row = a" "a = src \<or> (r, src) \<in> set (assignments f)"
    using 2(4) [of r a] by auto
  have rest: "\<And>r a. (r, a) \<in> set rs \<Longrightarrow> \<exists>row. map_of (routes f) r = Some row \<and> caddy_node_id row = a \<and>
      (a = src \<or> (r, src) \<in> set (assignments f))" "distinct (map fst rs)" "r \<notin> fst ` set rs"
    using 2(4,5) by auto
  have np: "p \<noteq> src" if "(p, x) \<in> set peers" for p x using 2(6) that by force
  let ?free = "\<lambda>(p, free). (0::int) < free \<and> p \<noteq> a \<and> (r, p) \<notin> set (assignments f)"
  let ?shared = "\<lambda>(p, free::int). (r, p) \<in> set (assignments f) \<or> a \<noteq> src \<and> p = a"
  show ?case
  proof (cases "find ?free peers")
    case (Some px)
    obtain p x where px: "px = (p, x)" by (cases px)
    have "p \<noteq> src" "p \<noteq> a" "(r, p) \<notin> set (assignments f)" using find_SomeD [OF Some] np by (auto simp: px)
    then have "move_ok f src \<lparr>mv_route = r, mv_dest = p, mv_anchor = (a = src),
        mv_srcRow = ((r, src) \<in> set (assignments f)), mv_shared = False\<rparr>"
      using row by (auto simp: move_ok_def hosted_def)
    then show ?thesis using 2(3) [OF Some px [symmetric] rest(1,2)] rest(3) Some 2(6) by (auto simp: px dom_map_entry)
  next
    case None
    show ?thesis
    proof (cases "find ?shared peers")
      case (Some px)
      obtain p x where px: "px = (p, x)" by (cases px)
      have "p \<noteq> src" "(r, p) \<in> set (assignments f) \<or> p = a" using find_SomeD [OF Some] np by (auto simp: px)
      then have "move_ok f src \<lparr>mv_route = r, mv_dest = p, mv_anchor = (a = src),
          mv_srcRow = ((r, src) \<in> set (assignments f)), mv_shared = True\<rparr>"
        using row by (auto simp: move_ok_def hosted_def)
      then show ?thesis using 2(2) [OF None Some px [symmetric] rest(1,2) 2(6)] rest(3) Some None by (auto simp: px)
    next
      case no: None
      then show ?thesis using 2(1) [OF None no rest(1,2) 2(6)] None by auto
    qed
  qed
qed simp

lemma plan_migration_ok:
  assumes "fleet_ok f" "plan_migration usage drain src g f = Inr ms"
  shows "distinct (map mv_route ms)" and "\<forall>m \<in> set ms. move_ok f src m"
    and "mv_route ` set ms = fst ` set (routes_on drain src f)"
proof -
  have ms: "ms = plan_moves f src (routes_on drain src f) (migration_peers usage drain src g f)"
    using assms(2) by (auto simp: plan_migration_def Let_def split: if_split_asm)
  have d: "distinct (map fst (routes f))" using assms(1) by (simp add: fleet_ok_def)
  have "\<exists>row. map_of (routes f) r = Some row \<and> caddy_node_id row = a \<and> (a = src \<or> (r, src) \<in> set (assignments f))"
    if "(r, a) \<in> set (routes_on drain src f)" for r a
    using that d by (auto simp: routes_on_def)
  moreover have d': "distinct (map fst (routes_on drain src f))"
    using d by (simp add: routes_on_def comp_def case_prod_beta distinct_map_filter distinct_map) (simp add: inj_on_def)
  moreover have "src \<notin> fst ` set (migration_peers usage drain src g f)" by (auto simp: migration_peers_def)
  ultimately have p: "distinct (map mv_route ms)" "\<forall>m \<in> set ms. move_ok f src m"
    "mv_route ` set ms \<subseteq> fst ` set (routes_on drain src f)"
    using plan_moves_ok [of "routes_on drain src f" f src] unfolding ms by blast+
  have "length (routes_on drain src f) \<le> length ms"
    using assms(2) by (auto simp: plan_migration_def Let_def split: if_split_asm)
  then have "card (fst ` set (routes_on drain src f)) \<le> card (mv_route ` set ms)"
    using distinct_card [OF p(1)] distinct_card [OF d'] by simp
  from card_seteq [OF _ p(3) this] p(1,2) show "distinct (map mv_route ms)" and "\<forall>m \<in> set ms. move_ok f src m"
    and "mv_route ` set ms = fst ` set (routes_on drain src f)" by simp_all
qed

subsection \<open>Putting a migration back\<close>

text \<open>The rows of the route of \<open>m\<close> after the move, in terms of its rows before it.\<close>

definition moved :: "fleet \<Rightarrow> fleet \<Rightarrow> nat \<Rightarrow> nodeMove \<Rightarrow> bool" where
  "moved f g src m \<longleftrightarrow> (let r = mv_route m; d = mv_dest m in
     \<exists>row. map_of (routes f) r = Some row \<and>
       map_of (routes g) r = Some (if caddy_node_id row = src then row\<lparr>caddy_node_id := d\<rparr> else row) \<and>
       (\<forall>n. (r, n) \<in> set (assignments g) \<longleftrightarrow> n \<noteq> src \<and>
         ((r, n) \<in> set (assignments f) \<or> n = d \<and> \<not> mv_shared m \<and> (r, src) \<in> set (assignments f))))"

lemma same_route_trans: "same_route q f g \<Longrightarrow> same_route q g h \<Longrightarrow> same_route q f h"
  by (simp add: same_route_def)

lemma moved_same: "same_route (mv_route m) f f2 \<Longrightarrow> same_route (mv_route m) g g2 \<Longrightarrow> moved f g src m = moved f2 g2 src m"
  by (simp add: moved_def same_route_def Let_def)

lemma move_moved:
  assumes "move_ok f src m" "move_claim m f = Inr f1" "move_anchor src m f1 = Inr f2" "move_row src m f2 = Inr f3"
  shows "moved f f3 src m" and "\<And>q. q \<noteq> mv_route m \<Longrightarrow> same_route q f f3"
proof -
  let ?r = "mv_route m" and ?d = "mv_dest m"
  have f1: "routes f1 = routes f" "assignments f1 = assignments f"
    using assms(2) by (auto simp: move_claim_def elim!: claim_slot_cases split: if_split_asm prod.split_asm)
  obtain row where row: "map_of (routes f) ?r = Some row" "?d \<noteq> src" "mv_anchor m = (caddy_node_id row = src)"
    "mv_srcRow m = ((?r, src) \<in> set (assignments f))"
    using assms(1) by (auto simp: move_ok_def)
  have f2: "map_of (routes f2) q = (if q = ?r \<and> caddy_node_id row = src then Some (row\<lparr>caddy_node_id := ?d\<rparr>) else map_of (routes f) q)"
    "assignments f2 = assignments f" for q
    using assms(3) row(1,3) f1 by (auto simp: move_anchor_def map_of_repoint split: if_split_asm)
  have f3: "routes f3 = routes f2" "set (assignments f3) = (if (?r, src) \<notin> set (assignments f) then set (assignments f)
       else if mv_shared m then set (assignments f) - {(?r, src)} else insert (?r, ?d) (set (assignments f) - {(?r, src)}))"
    using assms(4) row(4) f2(2) by (auto simp: move_row_def set_rename_assignment split: if_split_asm)
  show "moved f f3 src m" using row(1,2) by (auto simp: moved_def Let_def f3 f2)
  show "same_route q f f3" if "q \<noteq> ?r" for q using that by (auto simp: same_route_def f3 f2)
qed

lemma apply_moves_moved:
  assumes "distinct (map mv_route ms)" "\<forall>m \<in> set ms. move_ok f src m" "apply_moves src ms f = Inr f'"
  shows "(\<forall>m \<in> set ms. moved f f' src m) \<and> (\<forall>q. q \<notin> mv_route ` set ms \<longrightarrow> same_route q f f')"
  using assms
proof (induction ms arbitrary: f)
  case Nil
  then show ?case by (simp add: same_route_def)
next
  case (Cons m ms)
  from Cons.prems(3) obtain f1 f2 f3 where f3: "move_claim m f = Inr f1" "move_anchor src m f1 = Inr f2"
    "move_row src m f2 = Inr f3" "apply_moves src ms f3 = Inr f'"
    by (auto split: sum.split_asm)
  have "move_ok f src m" using Cons.prems(2) by simp
  note one = move_moved [OF this f3(1-3)]
  have other: "same_route (mv_route m') f f3" if "m' \<in> set ms" for m'
    using that Cons.prems(1) by (intro one(2)) (auto simp: image_iff)
  have "\<forall>m' \<in> set ms. move_ok f3 src m'" using other Cons.prems(2) move_ok_same by (metis list.set_intros(2))
  then have i: "\<forall>m \<in> set ms. moved f3 f' src m" "\<forall>q. q \<notin> mv_route ` set ms \<longrightarrow> same_route q f3 f'"
    using Cons.IH [of f3] Cons.prems(1) f3(4) by auto
  have "moved f f' src m' = moved f3 f' src m'" if "m' \<in> set ms" for m'
    by (rule moved_same [OF other [OF that]]) (simp add: same_route_def)
  moreover have "same_route (mv_route m) f3 f'" using i(2) Cons.prems(1) by auto
  then have "moved f f' src m = moved f f3 src m" by (intro moved_same) (simp_all add: same_route_def)
  moreover have "same_route q f f'" if "q \<notin> mv_route ` set (m # ms)" for q
    using that i(2) by (intro same_route_trans [OF one(2)]) auto
  ultimately show ?case using i(1) one(1) by simp
qed

lemma revert_one:
  assumes "move_ok f src m" "moved f g src m" "fleet_ok g"
  shows "\<exists>g'. revert_move src m g = Inr g' \<and> fleet_ok g' \<and> same_route (mv_route m) f g' \<and>
    (\<forall>q. q \<noteq> mv_route m \<longrightarrow> same_route q g g')"
proof -
  let ?r = "mv_route m" and ?d = "mv_dest m"
  obtain row where row: "map_of (routes f) ?r = Some row" "?d \<noteq> src" "mv_anchor m = (caddy_node_id row = src)"
    "mv_srcRow m = ((?r, src) \<in> set (assignments f))" "mv_shared m = (?r \<in> hosted f ?d)"
    using assms(1) by (auto simp: move_ok_def)
  have g: "map_of (routes g) ?r = Some (if caddy_node_id row = src then row\<lparr>caddy_node_id := ?d\<rparr> else row)"
    "\<And>n. (?r, n) \<in> set (assignments g) \<longleftrightarrow> n \<noteq> src \<and>
         ((?r, n) \<in> set (assignments f) \<or> n = ?d \<and> \<not> mv_shared m \<and> (?r, src) \<in> set (assignments f))"
    using assms(2) row(1) by (auto simp: moved_def Let_def)
  define g1 where "g1 = (if mv_shared m then g else release_slot ?d g)"
  define g2 where "g2 = (if mv_anchor m \<and> map_option caddy_node_id (map_of (routes g1) ?r) = Some ?d then repoint ?r src g1 else g1)"
  have g1: "routes g1 = routes g" "assignments g1 = assignments g" "fleet_ok g1" using assms(3) by (simp_all add: g1_def)
  have g2: "map_of (routes g2) ?r = Some row" "assignments g2 = assignments g" "fleet_ok g2"
    "\<And>q. q \<noteq> ?r \<Longrightarrow> map_of (routes g2) q = map_of (routes g) q"
    using row(3) g(1) g1 by (auto simp: g2_def map_of_repoint)
  have n: "(?r, ?d) \<notin> set (assignments f)" if "\<not> mv_shared m" using that row(1,5) by (auto simp: hosted_def)
  have rv: "revert_move src m g = (if \<not> mv_srcRow m then Inr g2 else if mv_shared m then Inr (add_assignment ?r src g2)
      else if (?r, ?d) \<in> set (assignments g2) \<and> (?r, src) \<in> set (assignments g2) then Inl Duplicate_assignment
      else Inr (rename_assignment ?r ?d src g2))"
    unfolding revert_move_def Let_def g1_def g2_def by (rule refl)
  show ?thesis
  proof (cases "mv_srcRow m")
    case False
    then have "revert_move src m g = Inr g2" by (simp add: rv)
    then show ?thesis using False g2 g(2) row(1,4) by (force simp: same_route_def)
  next
    case True
    show ?thesis
    proof (cases "mv_shared m")
      case shared: True
      then have "revert_move src m g = Inr (add_assignment ?r src g2)"
        using True by (simp add: rv)
      then show ?thesis using shared True g2 g(2) row(1,4) fleet_ok_add [OF g2(3,1)] by (auto simp: same_route_def)
    next
      case False
      have d: "(?r, ?d) \<in> set (assignments g2)" "(?r, src) \<notin> set (assignments g2)"
        using g(2) g2(2) False True row(2,4) by auto
      then have "revert_move src m g = Inr (rename_assignment ?r ?d src g2)"
        using True False by (simp add: rv)
      then show ?thesis
        using False True g2 g(2) row(1,2,4) n d fleet_ok_rename [OF g2(3) d]
        by (auto simp: same_route_def set_rename_assignment)
    qed
  qed
qed

lemma revert_all:
  assumes "\<forall>m \<in> set ms. move_ok f src m" "\<forall>m \<in> set ms. moved f g src m" "distinct (map mv_route ms)" "fleet_ok g"
  shows "\<exists>g'. revert_moves src ms g = Inr g' \<and> fleet_ok g' \<and> (\<forall>m \<in> set ms. same_route (mv_route m) f g') \<and>
    (\<forall>q. q \<notin> mv_route ` set ms \<longrightarrow> same_route q g g')"
  using assms
proof (induction ms arbitrary: g)
  case Nil
  then show ?case by (simp add: same_route_def)
next
  case (Cons m ms)
  from Cons.prems revert_one [of f src m g] obtain h where h: "revert_move src m g = Inr h" "fleet_ok h"
    "same_route (mv_route m) f h" "\<And>q. q \<noteq> mv_route m \<Longrightarrow> same_route q g h" by auto
  have "\<forall>m' \<in> set ms. moved f h src m'"
  proof
    fix m' assume m': "m' \<in> set ms"
    then have "same_route (mv_route m') g h" using Cons.prems(3) by (intro h(4)) (auto simp: image_iff)
    then have "moved f g src m' = moved f h src m'" by (intro moved_same) (simp_all add: same_route_def)
    then show "moved f h src m'" using Cons.prems(2) m' by simp
  qed
  with Cons.IH [of h] Cons.prems(1,3) h(2) obtain g' where g': "revert_moves src ms h = Inr g'" "fleet_ok g'"
    "\<forall>m \<in> set ms. same_route (mv_route m) f g'" "\<forall>q. q \<notin> mv_route ` set ms \<longrightarrow> same_route q h g'"
    by auto
  have "same_route (mv_route m) f g'" using h(3) g'(4) Cons.prems(3) by (intro same_route_trans [OF h(3)]) auto
  moreover have "same_route q g g'" if "q \<notin> mv_route ` set (m # ms)" for q
    using that g'(4) by (intro same_route_trans [OF h(4)]) auto
  ultimately show ?case using h(1) g' by auto
qed

definition claims_on :: "nat \<Rightarrow> nodeMove list \<Rightarrow> int" where
  "claims_on n ms = int (length (filter (\<lambda>m. mv_dest m = n \<and> \<not> mv_shared m) ms))"

lemma claims_on_simps [simp]:
  "claims_on n [] = 0" "0 \<le> claims_on n ms"
  "claims_on n (m # ms) = (if mv_dest m = n \<and> \<not> mv_shared m then 1 else 0) + claims_on n ms"
  by (simp_all add: claims_on_def)

lemma move_counter:
  assumes "move_claim m f = Inr f1" "move_anchor src m f1 = Inr f2" "move_row src m f2 = Inr f3"
  shows "counter f3 n = map_option (\<lambda>c. c + (if mv_dest m = n \<and> \<not> mv_shared m then 1 else 0)) (counter f n) \<and> limit f3 = limit f"
proof -
  have "counter f3 = counter f1 \<and> limit f3 = limit f1"
    using assms(2,3) by (auto simp: move_anchor_def move_row_def split: if_split_asm)
  moreover have "counter f1 n = map_option (\<lambda>c. c + (if mv_dest m = n \<and> \<not> mv_shared m then 1 else 0)) (counter f n) \<and> limit f1 = limit f"
    using assms(1) by (auto simp: move_claim_def option.map_ident elim!: claim_slot_cases split: if_split_asm prod.split_asm)
  ultimately show ?thesis by simp
qed

lemma apply_moves_counter:
  "apply_moves src ms f = Inr g \<Longrightarrow> counter g n = map_option (\<lambda>c. c + claims_on n ms) (counter f n) \<and> limit g = limit f"
proof (induction ms arbitrary: f)
  case Nil
  then show ?case by (simp add: option.map_ident)
next
  case (Cons m ms)
  from Cons.prems obtain f1 f2 f3 where f3: "move_claim m f = Inr f1" "move_anchor src m f1 = Inr f2"
    "move_row src m f2 = Inr f3" "apply_moves src ms f3 = Inr g"
    by (auto split: sum.split_asm)
  then show ?case using Cons.IH [of f3] move_counter [OF f3(1-3), of n]
    by (simp add: option.map_comp comp_def ac_simps)
qed

lemma revert_counter:
  assumes "revert_move src m f = Inr g"
  shows "counter g n = (if mv_dest m = n \<and> \<not> mv_shared m then map_option (\<lambda>c. max (c - 1) 0) (counter f n) else counter f n) \<and>
    limit g = limit f"
  using assms by (auto simp: revert_move_def Let_def split: if_split_asm)

lemma revert_moves_counter:
  assumes "revert_moves src ms f = Inr g" "\<And>c. counter f n = Some c \<Longrightarrow> claims_on n ms \<le> c"
  shows "counter g n = map_option (\<lambda>c. c - claims_on n ms) (counter f n) \<and> limit g = limit f"
  using assms
proof (induction ms arbitrary: f)
  case Nil
  then show ?case by (simp add: option.map_ident)
next
  case (Cons m ms)
  from Cons.prems(1) obtain h where h: "revert_move src m f = Inr h" "revert_moves src ms h = Inr g"
    by (auto split: sum.split_asm)
  note c = revert_counter [OF h(1), of n]
  have "claims_on n ms \<le> d" if "counter h n = Some d" for d
    using that c Cons.prems(2) by (cases "counter f n") (auto split: if_split_asm)
  from Cons.IH [OF h(2) this] c Cons.prems(2) claims_on_simps(2) [of n ms] show ?case
    by (cases "counter f n") (auto split: if_split_asm simp: max_def simp del: claims_on_simps(2))
qed

lemma hosted_same: "(\<And>q. same_route q f g) \<Longrightarrow> hosted f = hosted g"
  by (auto simp: same_route_def hosted_def fun_eq_iff)

lemma revert_restores:
  assumes "fleet_ok f" "counted f" "distinct (map mv_route ms)" "\<forall>m \<in> set ms. move_ok f src m"
    and "applyNodeMoves src ms f = Inr f'"
  shows "\<exists>g. revertNodeMoves src ms f' = Inr g \<and> fleet_ok g \<and> (\<forall>q. same_route q f g) \<and> counter g = counter f \<and> limit g = limit f"
proof -
  obtain h where h: "apply_moves src ms f = Inr h" "f' = set_counter src (\<lambda>c. max 0 (c - int (length ms))) h"
    using assms(5) by (auto simp: applyNodeMoves_def split: sum.split_asm)
  note m = apply_moves_moved [OF assms(3,4) h(1)]
  have "moved f f' src m' = moved f h src m'" for m' by (intro moved_same) (simp_all add: same_route_def h(2))
  moreover have "fleet_ok f'" using applyNodeMoves_implements(1) [OF assms] by (simp add: implements_def)
  ultimately obtain g where g: "revert_moves src ms f' = Inr g" "fleet_ok g"
    "\<forall>m \<in> set ms. same_route (mv_route m) f g" "\<forall>q. q \<notin> mv_route ` set ms \<longrightarrow> same_route q f' g"
    using revert_all [OF assms(4), of f'] m assms(3) by auto
  let ?g = "set_counter src (\<lambda>c. c + int (length ms)) g"
  have view: "same_route q f ?g" for q
  proof (cases "q \<in> mv_route ` set ms")
    case True
    then show ?thesis using g(3) by (auto simp: same_route_def)
  next
    case False
    then have "same_route q f h" "same_route q f' g" using m g(4) by blast+
    then show ?thesis by (simp add: same_route_def h(2))
  qed
  have src: "claims_on src ms = 0" using assms(4) by (auto simp: claims_on_def move_ok_def filter_empty_conv)
  have len: "int (length ms) \<le> c" if "counter f src = Some c" for c
  proof -
    have "mv_route ` set ms \<subseteq> hosted f src" using assms(4) move_ok_hosted by blast
    then have "length ms \<le> card (hosted f src)"
      using distinct_card [OF assms(3)] card_mono [OF finite_hosted [of f src], of "mv_route ` set ms"] by simp
    then show ?thesis using counted_counter [OF assms(2) that] by simp
  qed
  have "counter ?g n = counter f n \<and> limit ?g = limit f" for n
  proof -
    note a = apply_moves_counter [OF h(1), of n]
    have "claims_on n ms \<le> c" if "counter f' n = Some c" for c
      using that a src counted_counter [OF assms(2), of n] by (cases "counter f n") (auto simp: h(2) split: if_split_asm)
    note r = revert_moves_counter [OF g(1) this]
    show ?thesis
    proof (cases "n = src")
      case True
      then show ?thesis using a r src len by (cases "counter f n") (auto simp: h(2))
    next
      case False
      then show ?thesis using a r by (cases "counter f n") (auto simp: h(2))
    qed
  qed
  then show ?thesis using g(1,2) view by (auto simp: revertNodeMoves_def fun_eq_iff)
qed

text \<open>A migration either implements the ledger or leaves the placement and every counter as it was.\<close>

lemma migrateNodeRoutes_cases:
  assumes "fleet_ok f" "counted f" "migrateNodeRoutes usage resync drain src g f = (f', err)"
  shows "implements f f' \<and> (err = None \<longrightarrow> hosted f' src = hosted f src - fst ` set (routes_on drain src f)) \<and>
    (err \<noteq> None \<longrightarrow> hosted f' = hosted f \<and> counter f' = counter f)"
proof (cases "plan_migration usage drain src g f")
  case (Inl e)
  then show ?thesis using assms by (auto simp: migrateNodeRoutes_def implements_refl)
next
  case (Inr ms)
  note ok = plan_migration_ok [OF assms(1) Inr]
  show ?thesis
  proof (cases "ms = []")
    case True
    then have "f' = f" "err = None" using assms(3) Inr by (auto simp: migrateNodeRoutes_def)
    then show ?thesis using True ok(3) implements_refl [OF assms(1,2)] by simp
  next
    case ms: False
    show ?thesis
    proof (cases "applyNodeMoves src ms f")
      case (Inl e)
      then show ?thesis using Inr ms assms by (auto simp: migrateNodeRoutes_def implements_refl)
    next
      case a: (Inr h)
      note imp = applyNodeMoves_implements [OF assms(1,2) ok(1,2) a]
      obtain k where k: "revertNodeMoves src ms h = Inr k" "fleet_ok k" "\<forall>q. same_route q f k" "counter k = counter f"
        "limit k = limit f" using revert_restores [OF assms(1,2) ok(1,2) a] by blast
      have "hosted k = hosted f" using hosted_same k(3) by metis
      then have "implements f k" using k assms(2) by (auto simp: implements_def counted_def)
      with \<open>hosted k = hosted f\<close> imp k(1,4) ok(3) show ?thesis
        using assms(3) Inr ms a by (auto simp: migrateNodeRoutes_def split: option.split_asm)
    qed
  qed
qed

lemma moved_elsewhere: "moved f g src m \<Longrightarrow> mv_dest m \<noteq> src \<Longrightarrow> \<exists>n. n \<noteq> src \<and> mv_route m \<in> hosted g n"
  by (auto simp: moved_def Let_def hosted_def)

text \<open>No route gets lost on the way.\<close>

lemma migrateNodeRoutes_kept:
  assumes "fleet_ok f" "migrateNodeRoutes usage resync drain src g f = (f', None)"
    and "r \<in> fst ` set (routes_on drain src f)"
  shows "\<exists>n. n \<noteq> src \<and> r \<in> hosted f' n"
proof -
  obtain ms where ms: "plan_migration usage drain src g f = Inr ms"
    using assms(2) by (auto simp: migrateNodeRoutes_def split: sum.split_asm)
  note ok = plan_migration_ok [OF assms(1) ms]
  have "r \<in> mv_route ` set ms" using assms(3) ok(3) by simp
  then obtain m where m: "m \<in> set ms" "r = mv_route m" by blast
  then have d: "mv_dest m \<noteq> src" using ok(2) by (auto simp: move_ok_def)
  obtain h where h: "applyNodeMoves src ms f = Inr h" "f' = h"
    using assms(2) ms m by (auto simp: migrateNodeRoutes_def split: sum.split_asm option.split_asm if_split_asm)
  then obtain k where k: "apply_moves src ms f = Inr k" "hosted f' = hosted k"
    by (auto simp: applyNodeMoves_def split: sum.split_asm)
  then show ?thesis using apply_moves_moved [OF ok(1,2) k(1)] m d moved_elsewhere [of f k src m] by simp
qed

end
