(* ===== verification/Placement_Properties.thy ===== *)
theory Placement_Properties
  imports Placement
begin

text \<open>
  The life of a fleet: any sequence of the counted transactions of \<open>Fleet\<close>, started with empty tables,
  with the attributes of the nodes changing in between. A route is created with a placement that was
  computed earlier, on other tables. The last section shows what the transactions that bypass the
  counters, and a second \<open>Delete\<close> that overlaps with the first, do to the limit.
\<close>

definition fleet_start :: "(nat \<Rightarrow> int) \<Rightarrow> fleet \<Rightarrow> bool" where
  "fleet_start lim f \<longleftrightarrow> distinct (map fst (nodes f)) \<and> 0 \<notin> fst ` set (nodes f) \<and> routes f = [] \<and> assignments f = [] \<and>
     limit f = lim \<and> (\<forall>(n, x) \<in> set (nodes f). current_routes x = 0 \<and> 0 \<le> max_routes x)"

definition set_node :: "nat \<Rightarrow> bool \<Rightarrow> bool \<Rightarrow> string \<Rightarrow> int \<Rightarrow> fleet \<Rightarrow> fleet" where
  "set_node n enabled appr health prio f =
     f\<lparr>nodes := AList.map_entry n (\<lambda>x. x\<lparr>is_enabled := enabled, approved := appr, health_status := health, priority := prio\<rparr>)
       (nodes f)\<rparr>"

inductive fleet_step :: "(int \<Rightarrow> int \<Rightarrow> int) \<Rightarrow> fleet \<Rightarrow> fleet \<Rightarrow> bool" for usage where
  create: "fleet_ok f0 \<Longrightarrow> nodePlacement usage g f0 = Inr placed \<Longrightarrow> r \<notin> fst ` set (routes f) \<Longrightarrow>
    Create usage g placed r row f = Inr (f', got) \<Longrightarrow> fleet_step usage f f'"
| delete: "Delete client r f = Inr f' \<Longrightarrow> fleet_step usage f f'"
| evict: "fleet_step usage f (fst (evictUnverifiedRoute r f))"
| failover: "failoverRoute usage r from g f = Inr (f', d) \<Longrightarrow> fleet_step usage f f'"
| migrate: "migrateNodeRoutes usage resync drain src g f = (f', err) \<Longrightarrow> fleet_step usage f f'"
| attributes: "fleet_step usage f (set_node n enabled appr health prio f)"

lemma distinct_sorted_keys: "distinct (map fst xs) \<Longrightarrow> distinct (map fst (sort_key k (filter P xs)))"
  by (auto simp: distinct_map inj_on_def)

lemma placed_distinct:
  assumes "fleet_ok f" "nodePlacement usage g f = Inr (n, ns, mode)"
  shows "distinct ns"
proof -
  let ?xs = "filter (\<lambda>(i, x). has_room g x) (nodes f)"
  have d: "distinct (map fst (nodes f))" using assms(1) by (simp add: fleet_ok_def)
  have "ns = [n] \<or> ns = map fst (sort_key fst ?xs) \<or> ns = take 2 (by_priority usage ?xs)"
    using assms(2) by (auto simp: nodePlacement_def Let_def split: option.split_asm if_split_asm list.split_asm)
  then show ?thesis by (auto simp: by_priority_def intro!: distinct_take distinct_sorted_keys d)
qed

lemma set_node_same:
  "routes (set_node n e a h p f) = routes f" "assignments (set_node n e a h p f) = assignments f"
  "counter (set_node n e a h p f) = counter f" "limit (set_node n e a h p f) = limit f"
  "fleet_ok (set_node n e a h p f) = fleet_ok f"
  by (auto simp: set_node_def counter_def limit_def fun_eq_iff map_of_map_entry fleet_ok_def dom_map_entry split: option.split)

lemma fleet_step_implements:
  assumes "fleet_ok f" "counted f" "fleet_step usage f f'"
  shows "implements f f'"
  using assms(3)
proof cases
  case (create f0 g placed r row got)
  obtain n ns mode where p: "placed = (n, ns, mode)" by (cases placed)
  show ?thesis
    using Create_implements [OF assms(1,2) create(3) placed_distinct [OF create(1)]] create(2,4) by (simp add: p)
next
  case (delete client r)
  then show ?thesis by (rule Delete_implements [OF assms(1,2)])
next
  case (evict r)
  then show ?thesis using evict_implements [OF assms(1,2)] by simp
next
  case (failover r "from" g d)
  then show ?thesis by (rule failoverRoute_implements [OF assms(1,2)])
next
  case (migrate resync drain src g err)
  then show ?thesis using migrateNodeRoutes_cases [OF assms(1,2)] by blast
next
  case (attributes n enabled appr health prio)
  moreover have "hosted f' = hosted f" by (simp add: attributes hosted_def fun_eq_iff set_node_same)
  ultimately show ?thesis using assms(1,2) by (simp add: implements_def counted_def set_node_same)
qed

lemma fleet_start_ok:
  assumes "fleet_start lim f"
  shows "fleet_ok f \<and> counted f \<and> limit f = lim \<and> hosted f = (\<lambda>n. {})"
proof -
  have h: "hosted f = (\<lambda>n. {})" using assms by (simp add: fleet_start_def hosted_def fun_eq_iff)
  have "c = 0 \<and> c \<le> limit f n" if "counter f n = Some c" for n c
  proof -
    from that obtain x where x: "map_of (nodes f) n = Some x" "c = current_routes x" by (auto simp: counter_def)
    then have "(n, x) \<in> set (nodes f)" by (rule_tac map_of_SomeD)
    then show ?thesis using assms x by (auto simp: fleet_start_def limit_def)
  qed
  then have "counted f" unfolding counted_def h by simp
  then show ?thesis using assms h by (simp add: fleet_start_def fleet_ok_def)
qed

interpretation fleet: simulation "fleet_start lim" "fleet_step usage" "\<lambda>f. fleet_ok f \<and> counted f \<and> limit f = lim" hosted
  "\<lambda>H. H = (\<lambda>n. {})" "ledger_step lim" for lim usage
proof
  show "(fleet_ok f \<and> counted f \<and> limit f = lim) \<and> hosted f = (\<lambda>n. {})" if "fleet_start lim f" for f
    using fleet_start_ok [OF that] by blast
  show "(fleet_ok f' \<and> counted f' \<and> limit f' = lim) \<and> (ledger_step lim)\<^sup>*\<^sup>* (hosted f) (hosted f')"
    if "fleet_ok f \<and> counted f \<and> limit f = lim" "fleet_step usage f f'" for f f'
    using fleet_step_implements [of f usage f'] that by (auto simp: implements_def)
qed

section \<open>Properties\<close>

definition w_usage :: "int \<Rightarrow> int \<Rightarrow> int" where
  "w_usage a b = a div b"

definition w_node :: "int \<Rightarrow> caddy_node" where
  "w_node cap = \<lparr>node_group_id = 7, is_enabled = True, approved = True, health_status = ''healthy'', priority = 100,
     current_routes = 0, max_routes = cap\<rparr>"

definition w_row :: "nat \<Rightarrow> route_row" where
  "w_row r = \<lparr>caddy_node_id = 0, r_client = 5, r_domain = replicate r CHR ''a'', r_path = [], domain_verified = True,
     r_status = ''active'', via_wg_peer = False, r_group = Some 7\<rparr>"

definition w_fleet :: fleet where
  "w_fleet = \<lparr>nodes = [(1, w_node 2), (2, w_node 2)], routes = [], assignments = [], group_modes = [(7, ''single'')]\<rparr>"

text \<open>Place and create one route.\<close>

definition w_create :: "nat \<Rightarrow> fleet \<Rightarrow> fleet" where
  "w_create r f =
     (case nodePlacement w_usage 7 f of
        Inl e \<Rightarrow> f
      | Inr p \<Rightarrow> (case Create w_usage 7 p r (w_row r) f of Inl e \<Rightarrow> f | Inr (f', got) \<Rightarrow> f'))"

definition w_full :: fleet where
  "w_full = w_create 4 (w_create 3 (w_create 2 (w_create 1 w_fleet)))"

lemma w_fleet_reachable: "reachable (fleet_start (limit w_fleet)) (fleet_step w_usage) w_fleet"
  by (rule reachable_start) (simp add: fleet_start_def w_fleet_def w_node_def)

lemma w_create_reachable:
  assumes "reachable (fleet_start lim) (fleet_step w_usage) f" "r \<notin> fst ` set (routes f)"
  shows "reachable (fleet_start lim) (fleet_step w_usage) (w_create r f)"
proof -
  have ok: "fleet_ok f" using fleet.holds [OF assms(1)] by blast
  have "w_create r f = f \<or> fleet_step w_usage f (w_create r f)"
    by (auto simp: w_create_def split: sum.split prod.split intro: fleet_step.create [OF ok _ assms(2)])
  then show ?thesis using assms(1) by (metis reachable_step)
qed

lemma w_full_reachable: "reachable (fleet_start (limit w_fleet)) (fleet_step w_usage) w_full"
  unfolding w_full_def by (intro w_create_reachable w_fleet_reachable) code_simp+

lemma w_full_tables:
  "map_of (nodes w_full) 1 = Some (w_node 2\<lparr>current_routes := 2\<rparr>)"
  "map_of (nodes w_full) 2 = Some (w_node 2\<lparr>current_routes := 2\<rparr>)"
  "map_of (routes w_full) 1 = Some (w_row 1\<lparr>caddy_node_id := 1\<rparr>)"
  "assignments w_full = []" "fanOutNodes 1 1 w_full = []"
  by code_simp+







text \<open>C23: the bulk move of an administrator is not counted. It gives the destination one more route and
  leaves its counter alone, so a node that is full serves more than its limit afterwards.\<close>

theorem moveRouteToNode_uncounted:
  assumes "reachable (fleet_start lim) (fleet_step usage) f" "moveRouteToNode platform r d f = Inr (f', old)"
    and "r \<notin> hosted f d" "map_of (nodes f) d = Some x"
  shows "map_of (nodes f') d = Some x \<and> int (card (hosted f' d)) = current_routes x + 1"
proof -
  obtain row where row: "map_of (routes f) r = Some row" "f' = repoint r d f"
    using assms(2) by (auto simp: moveRouteToNode_def split: option.split_asm if_split_asm)
  have "counted f" using fleet.holds [OF assms(1)] by blast
  then have "int (card (hosted f d)) = current_routes x"
    using assms(4) counted_counter [of f d "current_routes x"] by (simp add: counter_def)
  then show ?thesis using row(2) assms(3,4) hosted_repoint [OF row(1), of d d] by simp
qed

theorem moveRouteToNode_uncounted_witness:
  "\<exists>f'. moveRouteToNode True 1 2 w_full = Inr (f', 1) \<and> map_of (nodes f') 2 = Some (w_node 2\<lparr>current_routes := 2\<rparr>) \<and>
     int (card (hosted f' 2)) = 3"
proof -
  have m: "moveRouteToNode True 1 2 w_full = Inr (repoint 1 2 w_full, 1)"
    using w_full_tables by (simp add: moveRouteToNode_def w_node_def)
  have "1 \<notin> hosted w_full 2" using w_full_tables(3,4) by (simp add: hosted_def)
  from moveRouteToNode_uncounted [OF w_full_reachable m this w_full_tables(2)] m show ?thesis by auto
qed

text \<open>C24: two overlapping deletions of one route release its slot twice. \<open>Delete\<close> reads the nodes of the
  route before its transaction, and the transaction does not look whether it deleted a row; the
  counter ends one below the number of routes that the node still serves.\<close>

theorem Delete_twice_undercounts:
  assumes "reachable (fleet_start lim) (fleet_step usage) f" "delete_read client r f = Inr held"
    and "n \<in> set (fst held # snd held)" "map_of (nodes f) n = Some x" "2 \<le> current_routes x"
  shows "\<exists>y. map_of (nodes (delete_tx r held (delete_tx r held f))) n = Some y \<and>
    current_routes y + 1 = int (card (hosted (delete_tx r held (delete_tx r held f)) n))"
proof -
  have ok: "fleet_ok f" "counted f" using fleet.holds [OF assms(1)] by blast+
  obtain row where row: "map_of (routes f) r = Some row" "held = (caddy_node_id row, fanOutNodes r (caddy_node_id row) f)"
    using assms(2) by (auto simp: delete_read_def split: option.split_asm if_split_asm)
  let ?ns = "fst held # snd held" and ?g = "delete_tx r held (delete_tx r held f)"
  have d: "distinct ?ns" "r \<in> hosted f n" using holders [OF ok(1) row(1)] assms(3) unfolding row(2) by simp_all
  have tx: "delete_tx r held h = fold release_slot ?ns (delete_route r h)" for h by (simp add: delete_tx_def)
  have c: "counter f n = Some (current_routes x)" using assms(4) by (simp add: counter_def)
  have "counter ?g n = Some (current_routes x - 2)"
    unfolding tx using assms(3,5) c by (simp only: counter_fold_release [OF d(1)] delete_route_sel) auto
  moreover have "hosted ?g n = hosted f n - {r}" unfolding tx by simp
  moreover have "int (card (hosted f n - {r})) = current_routes x - 1"
    using d(2) counted_counter [OF ok(2) c] assms(5) by (simp add: of_nat_diff)
  ultimately show ?thesis by (auto simp: counter_def)
qed

theorem Delete_twice_undercounts_witness:
  "\<exists>y. map_of (nodes (delete_tx 1 (1, []) (delete_tx 1 (1, []) w_full))) 1 = Some y \<and>
     current_routes y + 1 = int (card (hosted (delete_tx 1 (1, []) (delete_tx 1 (1, []) w_full)) 1))"
proof -
  have "delete_read 5 1 w_full = Inr (1, [])" using w_full_tables(3,5) by (simp add: delete_read_def w_row_def)
  from Delete_twice_undercounts [OF w_full_reachable this, of 1] w_full_tables(1) show ?thesis by simp
qed

end
