(* ===== verification/Push_Outbox.thy ===== *)
theory Push_Outbox
  imports Transition "HOL-Library.AList" "HOL-Library.Word"
begin

text \<open>
  Delivering configuration to a node: the durable push markers (\<open>internal/domain/routes/outbox.go\<close>) and
  the push loop with its generations (\<open>push.go\<close>). The table \<open>node_push_pending\<close> is an association
  list; instants are nanoseconds and durations are Go's 64-bit integers. \<open>pushNodeConfig\<close> is a
  program counter, \<open>phase\<close>, and one step of it, so that other transactions can run between any two of
  its accesses. A configuration is represented by its version, the number of changes committed to
  the database; a snapshot counts as of the version at which its build begins. The text of
  \<open>last_error\<close> is left out.
\<close>

section \<open>Markers\<close>

record marker =
  seq :: nat
  pushed_seq :: nat
  attempts :: nat
  requested_at :: nat
  next_attempt_at :: nat

type_synonym markers = "(nat \<times> marker) list"

definition second :: nat where
  "second = 1000000000"

definition pendingBackoffBase :: "64 word" where
  "pendingBackoffBase = 30000000000"

definition pendingBackoffCap :: "64 word" where
  "pendingBackoffCap = 900000000000"

definition pendingGrace :: nat where
  "pendingGrace = 45 * second"

definition outboxNow :: "nat \<Rightarrow> nat" where
  "outboxNow t = t - t mod second"

text \<open>\<open>ON CONFLICT(node_id) DO UPDATE\<close>\<close>

definition upsert_marker :: "nat \<Rightarrow> nat \<Rightarrow> nat \<Rightarrow> markers \<Rightarrow> markers" where
  "upsert_marker now due i tbl =
     (case map_of tbl i of
        None \<Rightarrow> (i, \<lparr>seq = 1, pushed_seq = 0, attempts = 0, requested_at = now, next_attempt_at = due\<rparr>) # tbl
      | Some m \<Rightarrow>
          AList.map_entry i (\<lambda>m. m\<lparr>seq := seq m + 1, requested_at := now, next_attempt_at := due\<rparr>) tbl)"

fun mark_ids :: "nat \<Rightarrow> nat \<Rightarrow> nat option \<Rightarrow> nat list \<Rightarrow> markers \<Rightarrow> markers" where
  "mark_ids now due prev [] tbl = tbl"
| "mark_ids now due prev (i # is) tbl =
     mark_ids now due (Some i) is (if i = 0 \<or> prev = Some i then tbl else upsert_marker now due i tbl)"

definition markPushPending :: "nat \<Rightarrow> nat \<Rightarrow> nat list \<Rightarrow> markers \<Rightarrow> markers" where
  "markPushPending PushDebounceMs t nodeIDs tbl =
     (let now = outboxNow t; due = now + (PushDebounceMs * 1000000 + pendingGrace)
      in mark_ids now due None (sort nodeIDs) tbl)"

definition pendingSeq :: "nat \<Rightarrow> markers \<Rightarrow> nat" where
  "pendingSeq n tbl = (case map_of tbl n of None \<Rightarrow> 0 | Some m \<Rightarrow> seq m)"

definition backoff :: "nat \<Rightarrow> 64 word" where
  "backoff k =
     (if k < 10 \<and> sint (push_bit (k - 1) pendingBackoffBase) < sint pendingBackoffCap
      then push_bit (k - 1) pendingBackoffBase else pendingBackoffCap)"

definition settle_ok :: "nat \<Rightarrow> nat \<Rightarrow> markers \<Rightarrow> markers" where
  "settle_ok n q tbl =
     AList.map_entry n (\<lambda>m. if pushed_seq m < q then m\<lparr>pushed_seq := q, attempts := 0\<rparr> else m) tbl"

definition settle_failed :: "nat \<Rightarrow> nat \<Rightarrow> markers \<Rightarrow> markers" where
  "settle_failed t n tbl =
     (case map_of tbl n of
        None \<Rightarrow> tbl
      | Some m \<Rightarrow>
          (if \<not> pushed_seq m < seq m then tbl
           else AList.map_entry n (\<lambda>m. m\<lparr>attempts := attempts m + 1,
             next_attempt_at := outboxNow t + unat (backoff (attempts m + 1))\<rparr>) tbl))"

definition settlePending :: "nat \<Rightarrow> nat \<Rightarrow> nat \<Rightarrow> bool \<Rightarrow> markers \<Rightarrow> markers" where
  "settlePending t n q failed tbl = (if failed then settle_failed t n tbl else settle_ok n q tbl)"

definition marker_due :: "nat \<Rightarrow> marker \<Rightarrow> bool" where
  "marker_due t m \<longleftrightarrow> pushed_seq m < seq m \<and> next_attempt_at m \<le> outboxNow t"

text \<open>The nodes that \<open>DrainPendingPushes\<close> hands to \<open>pushNodesConcurrent\<close>.\<close>

definition DrainPendingPushes :: "bool \<Rightarrow> nat list \<Rightarrow> nat \<Rightarrow> markers \<Rightarrow> nat list" where
  "DrainPendingPushes IsLeader enabled t tbl =
     (if \<not> IsLeader then [] else map fst (filter (\<lambda>(i, m). i \<in> set enabled \<and> marker_due t m) tbl))"

definition DropPushMarker :: "nat \<Rightarrow> markers \<Rightarrow> markers" where
  "DropPushMarker n tbl = AList.delete n tbl"

section \<open>The push of one node\<close>

text \<open>Where a push stands: the attempt, the generation and the sequence number it read, and the
  version of its snapshot.\<close>

datatype phase =
    Idle
  | Locked nat
  | Got_gen nat nat
  | Got_seq nat nat nat
  | Built nat nat nat nat
  | Live nat nat nat
  | Settled nat nat
  | Recorded nat nat

record push_state =
  clock :: nat
  pending :: markers
  cfg :: nat
  live :: nat
  desiredGen :: nat
  appliedGen :: nat
  phase :: phase
  marked_cfg :: "nat \<Rightarrow> nat"
  gen_cfg :: "nat \<Rightarrow> nat"

text \<open>What the outside world answers during a step.\<close>

record push_env =
  read_fails :: bool
  build_fails :: bool
  load_fails :: bool
  load_applied :: bool
  settle_fails :: bool
  ctx_done :: bool

definition maxPushGenerations :: nat where
  "maxPushGenerations = 3"

definition recordApplied :: "nat \<Rightarrow> push_state \<Rightarrow> push_state" where
  "recordApplied gen s = (if appliedGen s < gen then s\<lparr>appliedGen := gen\<rparr> else s)"

definition settle :: "push_env \<Rightarrow> nat \<Rightarrow> nat \<Rightarrow> bool \<Rightarrow> push_state \<Rightarrow> push_state" where
  "settle env n q failed s =
     (if settle_fails env then s else s\<lparr>pending := settlePending (clock s) n q failed (pending s)\<rparr>)"

definition pushNodeConfig :: "push_env \<Rightarrow> nat \<Rightarrow> push_state \<Rightarrow> push_state" where
  "pushNodeConfig env n s =
     (case phase s of
        Idle \<Rightarrow> s\<lparr>phase := Locked 0\<rparr>
      | Locked a \<Rightarrow> s\<lparr>phase := Got_gen a (desiredGen s)\<rparr>
      | Got_gen a gen \<Rightarrow> s\<lparr>phase := Got_seq a gen (if read_fails env then 0 else pendingSeq n (pending s))\<rparr>
      | Got_seq a gen q \<Rightarrow>
          (if build_fails env then (settle env n q True s)\<lparr>phase := Idle\<rparr> else s\<lparr>phase := Built a gen q (cfg s)\<rparr>)
      | Built a gen q v \<Rightarrow>
          (if load_fails env
           then (settle env n q True s)\<lparr>live := if load_applied env then v else live s, phase := Idle\<rparr>
           else s\<lparr>live := v, phase := Live a gen q\<rparr>)
      | Live a gen q \<Rightarrow> (settle env n q False s)\<lparr>phase := Settled a gen\<rparr>
      | Settled a gen \<Rightarrow> (recordApplied gen s)\<lparr>phase := Recorded a gen\<rparr>
      | Recorded a gen \<Rightarrow>
          s\<lparr>phase := if desiredGen s = gen \<or> ctx_done env then Idle
                     else if Suc a < maxPushGenerations then Locked (Suc a) else Idle\<rparr>)"

section \<open>The system\<close>

text \<open>\<open>marked_cfg\<close> and \<open>gen_cfg\<close> are not in the source: the version that was current when a sequence number,
  or a generation, was handed out.\<close>

definition mark :: "nat \<Rightarrow> nat \<Rightarrow> nat list \<Rightarrow> push_state \<Rightarrow> push_state" where
  "mark deb n ids s =
     (let tbl = markPushPending deb (clock s) ids (pending s)
      in s\<lparr>pending := tbl,
           marked_cfg := if n \<in> set ids \<and> n \<noteq> 0 then (marked_cfg s)(pendingSeq n tbl := cfg s) else marked_cfg s\<rparr>)"

definition bumpDesiredGen :: "push_state \<Rightarrow> push_state" where
  "bumpDesiredGen s = s\<lparr>desiredGen := desiredGen s + 1, gen_cfg := (gen_cfg s)(desiredGen s + 1 := cfg s)\<rparr>"

definition push_start :: "push_state \<Rightarrow> bool" where
  "push_start s \<longleftrightarrow> pending s = [] \<and> live s \<le> cfg s \<and> desiredGen s = 0 \<and> appliedGen s = 0 \<and> gen_cfg s 0 = 0 \<and> phase s = Idle"

text \<open>A change may be committed together with its marker, or alone; \<open>schedulePush\<close> bumps the generation
  and writes the marker afterwards. The statements of other nodes only touch their own markers.\<close>

inductive push_step :: "nat \<Rightarrow> nat \<Rightarrow> push_state \<Rightarrow> push_state \<Rightarrow> bool" for deb n where
  tick: "push_step deb n s (s\<lparr>clock := clock s + d\<rparr>)"
| change: "push_step deb n s (s\<lparr>cfg := cfg s + 1\<rparr>)"
| change_marked: "push_step deb n s (mark deb n ids (s\<lparr>cfg := cfg s + 1\<rparr>))"
| marks: "push_step deb n s (mark deb n ids s)"
| bump: "push_step deb n s (bumpDesiredGen s)"
| pushes: "push_step deb n s (pushNodeConfig env n s)"
| settles_other: "i \<noteq> n \<Longrightarrow> push_step deb n s (s\<lparr>pending := settlePending (clock s) i q failed (pending s)\<rparr>)"

end
