(* ===== verification/Push_Delivery.thy ===== *)
theory Push_Delivery
  imports Push_Outbox
begin

text \<open>
  What the markers of \<open>Push_Outbox\<close> guarantee, for one node and the process that pushes to it: a marker
  that reads as settled means that the change is live, and a marker that is not settled comes due
  and is delivered.
\<close>

section \<open>The table\<close>

definition upserted :: "nat \<Rightarrow> nat \<Rightarrow> marker option \<Rightarrow> marker" where
  "upserted now due old =
     (case old of
        None \<Rightarrow> \<lparr>seq = 1, pushed_seq = 0, attempts = 0, requested_at = now, next_attempt_at = due\<rparr>
      | Some m \<Rightarrow> m\<lparr>seq := seq m + 1, requested_at := now, next_attempt_at := due\<rparr>)"

lemma map_of_upsert: "map_of (upsert_marker now due i tbl) n = (if n = i then Some (upserted now due (map_of tbl i)) else map_of tbl n)"
  by (auto simp: upsert_marker_def upserted_def map_of_map_entry split: option.split)

lemma map_of_mark_ids:
  assumes "sorted is" "\<And>p i. prev = Some p \<Longrightarrow> i \<in> set is \<Longrightarrow> p \<le> i"
  shows "map_of (mark_ids now due prev is tbl) n =
    (if n \<in> set is \<and> n \<noteq> 0 \<and> prev \<noteq> Some n then Some (upserted now due (map_of tbl n)) else map_of tbl n)"
  using assms
proof (induction now due prev "is" tbl rule: mark_ids.induct)
  case (2 now due prev i "is" tbl)
  have "prev \<noteq> Some n" if "n \<in> set is" "n \<noteq> i" using that 2(2) 2(3) [of n i] by auto
  moreover have "map_of (mark_ids now due prev (i # is) tbl) n =
      (let tbl' = if i = 0 \<or> prev = Some i then tbl else upsert_marker now due i tbl
       in if n \<in> set is \<and> n \<noteq> 0 \<and> Some i \<noteq> Some n then Some (upserted now due (map_of tbl' n)) else map_of tbl' n)"
    unfolding Let_def mark_ids.simps by (rule 2(1)) (use 2(2) in auto)
  ultimately show ?case by (auto simp: map_of_upsert)
qed simp

lemma map_of_markPushPending:
  "map_of (markPushPending deb t ids tbl) n =
     (if n \<in> set ids \<and> n \<noteq> 0
      then Some (upserted (outboxNow t) (outboxNow t + (deb * 1000000 + pendingGrace)) (map_of tbl n)) else map_of tbl n)"
  using map_of_mark_ids [of "sort ids" None "outboxNow t" "outboxNow t + (deb * 1000000 + pendingGrace)" tbl n]
  by (simp add: markPushPending_def Let_def)

lemma map_of_settle_ok:
  "map_of (settle_ok i q tbl) n =
     (if n = i then map_option (\<lambda>m. if pushed_seq m < q then m\<lparr>pushed_seq := q, attempts := 0\<rparr> else m) (map_of tbl n)
      else map_of tbl n)"
  by (auto simp: settle_ok_def map_of_map_entry split: option.split)

lemma map_of_settle_failed:
  "map_of (settle_failed t i tbl) n =
     (if n = i then map_option (\<lambda>m. if pushed_seq m < seq m then m\<lparr>attempts := attempts m + 1,
         next_attempt_at := outboxNow t + unat (backoff (attempts m + 1))\<rparr> else m) (map_of tbl n)
      else map_of tbl n)"
  by (auto simp: settle_failed_def map_of_map_entry split: option.split)

section \<open>Backoff\<close>

lemma backoff_small:
  assumes "k < 9"
  shows "sint (push_bit k pendingBackoffBase) = 30000000000 * 2 ^ k"
proof -
  have "k \<in> {0, 1, 2, 3, 4, 5, 6, 7, 8}" using assms by auto
  then show ?thesis by (auto simp: pendingBackoffBase_def)
qed

lemma backoff_cap: "sint pendingBackoffCap = 900000000000"
  by (simp add: pendingBackoffCap_def)

lemma backoff_value:
  assumes "0 < k"
  shows "sint (backoff k) = min (30000000000 * 2 ^ (k - 1)) 900000000000"
proof (cases "k < 10")
  case True
  then show ?thesis using assms backoff_small [of "k - 1"] backoff_cap by (auto simp: backoff_def)
next
  case False
  then have "(2::int) ^ 9 \<le> 2 ^ (k - 1)" by (intro power_increasing) auto
  then show ?thesis using False backoff_cap by (simp add: backoff_def)
qed

lemma backoff_unat:
  assumes "0 < k"
  shows "unat (backoff k) \<le> 900 * second"
proof (cases "k < 10")
  case True
  then have "k \<in> {1, 2, 3, 4, 5, 6, 7, 8, 9}" using assms by auto
  then show ?thesis by (auto simp: backoff_def pendingBackoffBase_def pendingBackoffCap_def second_def)
next
  case False
  then show ?thesis by (simp add: backoff_def pendingBackoffCap_def second_def)
qed

section \<open>The invariant\<close>

text \<open>Every change marked by the first \<open>q\<close> sequence numbers is in version \<open>v\<close>.\<close>

definition covered :: "push_state \<Rightarrow> nat \<Rightarrow> nat \<Rightarrow> bool" where
  "covered s q v \<longleftrightarrow> (\<forall>k. 0 < k \<and> k \<le> q \<longrightarrow> marked_cfg s k \<le> v)"

definition max_wait :: "nat \<Rightarrow> nat" where
  "max_wait deb = max (900 * second) (deb * 1000000 + pendingGrace)"

definition marker_ok :: "nat \<Rightarrow> nat \<Rightarrow> push_state \<Rightarrow> bool" where
  "marker_ok deb n s \<longleftrightarrow> (\<forall>m. map_of (pending s) n = Some m \<longrightarrow> pushed_seq m \<le> seq m \<and>
     covered s (pushed_seq m) (live s) \<and> covered s (seq m) (cfg s) \<and> next_attempt_at m \<le> clock s + max_wait deb)"

definition gens_ok :: "push_state \<Rightarrow> bool" where
  "gens_ok s \<longleftrightarrow> appliedGen s \<le> desiredGen s \<and> gen_cfg s (appliedGen s) \<le> live s \<and>
     (\<forall>g. g \<le> desiredGen s \<longrightarrow> gen_cfg s g \<le> cfg s)"

definition phase_ok :: "nat \<Rightarrow> push_state \<Rightarrow> bool" where
  "phase_ok n s \<longleftrightarrow>
     (case phase s of
        Idle \<Rightarrow> True
      | Locked a \<Rightarrow> a < maxPushGenerations
      | Got_gen a g \<Rightarrow> a < maxPushGenerations \<and> g \<le> desiredGen s
      | Got_seq a g q \<Rightarrow> a < maxPushGenerations \<and> g \<le> desiredGen s \<and> q \<le> pendingSeq n (pending s)
      | Built a g q v \<Rightarrow> a < maxPushGenerations \<and> g \<le> desiredGen s \<and> q \<le> pendingSeq n (pending s) \<and>
          live s \<le> v \<and> v \<le> cfg s \<and> covered s q v \<and> gen_cfg s g \<le> v
      | Live a g q \<Rightarrow> a < maxPushGenerations \<and> g \<le> desiredGen s \<and> q \<le> pendingSeq n (pending s) \<and>
          covered s q (live s) \<and> gen_cfg s g \<le> live s
      | Settled a g \<Rightarrow> a < maxPushGenerations \<and> g \<le> desiredGen s \<and> gen_cfg s g \<le> live s
      | Recorded a g \<Rightarrow> a < maxPushGenerations \<and> g \<le> desiredGen s \<and> gen_cfg s g \<le> live s)"

definition push_inv :: "nat \<Rightarrow> nat \<Rightarrow> push_state \<Rightarrow> bool" where
  "push_inv deb n s \<longleftrightarrow> live s \<le> cfg s \<and> marker_ok deb n s \<and> gens_ok s \<and> phase_ok n s"

lemma push_invI:
  assumes "live s \<le> cfg s" "marker_ok deb n s" "gens_ok s" "phase_ok n s"
  shows "push_inv deb n s"
  using assms by (simp add: push_inv_def)

lemma covered_mono: "covered s q v \<Longrightarrow> q' \<le> q \<Longrightarrow> v \<le> v' \<Longrightarrow> covered s q' v'"
  by (auto simp: covered_def intro: order.trans)

lemma outboxNow_le: "outboxNow t \<le> t"
  by (simp add: outboxNow_def)

subsection \<open>Changes and markers\<close>

lemma inv_tick: "push_inv deb n s \<Longrightarrow> push_inv deb n (s\<lparr>clock := clock s + d\<rparr>)"
  by (auto simp: push_inv_def marker_ok_def gens_ok_def phase_ok_def covered_def split: phase.split)

lemma inv_change:
  assumes "push_inv deb n s"
  shows "push_inv deb n (s\<lparr>cfg := cfg s + 1\<rparr>)"
proof (rule push_invI)
  show "phase_ok n (s\<lparr>cfg := cfg s + 1\<rparr>)"
    using assms by (cases "phase s") (auto simp: push_inv_def phase_ok_def covered_def)
qed (use assms in \<open>auto simp: push_inv_def marker_ok_def gens_ok_def covered_def intro: le_SucI\<close>)

lemma pendingSeq_mark:
  "pendingSeq n (markPushPending deb t ids tbl) = pendingSeq n tbl + (if n \<in> set ids \<and> n \<noteq> 0 then 1 else 0)"
  by (simp add: pendingSeq_def map_of_markPushPending upserted_def split: option.split)

lemma covered_mark: "q \<le> pendingSeq n (pending s) \<Longrightarrow> covered (mark deb n ids s) q v = covered s q v"
  by (auto simp: covered_def mark_def Let_def pendingSeq_mark)

lemma mark_sel:
  "clock (mark deb n ids s) = clock s" "cfg (mark deb n ids s) = cfg s" "live (mark deb n ids s) = live s"
  "desiredGen (mark deb n ids s) = desiredGen s" "appliedGen (mark deb n ids s) = appliedGen s"
  "phase (mark deb n ids s) = phase s" "gen_cfg (mark deb n ids s) = gen_cfg s"
  "pending (mark deb n ids s) = markPushPending deb (clock s) ids (pending s)"
  by (simp_all add: mark_def Let_def)

lemma inv_mark:
  assumes "push_inv deb n s"
  shows "push_inv deb n (mark deb n ids s)"
proof (rule push_invI)
  have m: "marker_ok deb n s" and p: "phase_ok n s" using assms by (simp_all add: push_inv_def)
  show "live (mark deb n ids s) \<le> cfg (mark deb n ids s)" "gens_ok (mark deb n ids s)"
    using assms by (simp_all add: push_inv_def gens_ok_def mark_sel)
  show "phase_ok n (mark deb n ids s)"
    using p by (cases "phase s") (auto simp: phase_ok_def mark_sel pendingSeq_mark covered_mark)
  show "marker_ok deb n (mark deb n ids s)"
  proof (cases "n \<in> set ids \<and> n \<noteq> 0")
    case False
    then show ?thesis using m by (auto simp: marker_ok_def mark_sel map_of_markPushPending covered_mark pendingSeq_def)
  next
    case True
    let ?s = "mark deb n ids s" and ?q = "pendingSeq n (pending s)"
    let ?m = "upserted (outboxNow (clock s)) (outboxNow (clock s) + (deb * 1000000 + pendingGrace)) (map_of (pending s) n)"
    have old: "covered s ?q (cfg s)" "pushed_seq ?m \<le> ?q" "covered s (pushed_seq ?m) (live s)"
      using m by (auto simp: marker_ok_def pendingSeq_def upserted_def covered_def split: option.split)
    have new: "seq ?m = ?q + 1" by (simp add: pendingSeq_def upserted_def split: option.split)
    have due: "next_attempt_at ?m \<le> clock s + max_wait deb"
      using outboxNow_le [of "clock s"] by (auto simp: upserted_def max_wait_def split: option.split)
    have "marked_cfg ?s (?q + 1) = cfg s" using True by (simp add: mark_def Let_def pendingSeq_mark)
    then have "covered ?s (?q + 1) (cfg s)" using old(1) covered_mark [of ?q n s deb ids] by (auto simp: covered_def le_Suc_eq)
    then show ?thesis
      using True old due covered_mark [of "pushed_seq ?m" n s] by (auto simp: marker_ok_def mark_sel map_of_markPushPending new)
  qed
qed

lemma inv_bump:
  assumes "push_inv deb n s"
  shows "push_inv deb n (bumpDesiredGen s)"
proof (rule push_invI)
  show "phase_ok n (bumpDesiredGen s)"
    using assms by (cases "phase s") (auto simp: push_inv_def phase_ok_def bumpDesiredGen_def covered_def)
qed (use assms in \<open>auto simp: push_inv_def marker_ok_def gens_ok_def bumpDesiredGen_def covered_def le_Suc_eq\<close>)

subsection \<open>Pushes\<close>

lemma pendingSeq_settle: "pendingSeq n (settlePending t i q failed tbl) = pendingSeq n tbl"
  by (simp add: settlePending_def pendingSeq_def map_of_settle_ok map_of_settle_failed split: option.split)

lemma settle_sel:
  "clock (settle env n q failed s) = clock s" "cfg (settle env n q failed s) = cfg s" "live (settle env n q failed s) = live s"
  "desiredGen (settle env n q failed s) = desiredGen s" "appliedGen (settle env n q failed s) = appliedGen s"
  "gen_cfg (settle env n q failed s) = gen_cfg s" "marked_cfg (settle env n q failed s) = marked_cfg s"
  "pendingSeq i (pending (settle env n q failed s)) = pendingSeq i (pending s)"
  by (simp_all add: settle_def pendingSeq_settle)

lemma marker_settled:
  assumes "marker_ok deb n s" "q \<le> pendingSeq n (pending s)" "covered s q (live s)"
  shows "marker_ok deb n (s\<lparr>pending := settle_ok n q (pending s)\<rparr>)"
  using assms by (auto simp: marker_ok_def map_of_settle_ok pendingSeq_def covered_def)

lemma marker_backed_off:
  assumes "marker_ok deb n s"
  shows "marker_ok deb n (s\<lparr>pending := settle_failed (clock s) n (pending s)\<rparr>)"
proof -
  have "outboxNow (clock s) + unat (backoff (Suc k)) \<le> clock s + max_wait deb" for k
    using outboxNow_le [of "clock s"] backoff_unat [of "Suc k"] by (simp add: max_wait_def)
  then show ?thesis using assms by (auto simp: marker_ok_def map_of_settle_failed covered_def)
qed

lemma marker_settle:
  assumes "marker_ok deb n s" "failed \<or> q \<le> pendingSeq n (pending s) \<and> covered s q (live s)"
  shows "marker_ok deb n (settle env n q failed s)"
  using assms marker_settled [of deb n s q] marker_backed_off [of deb n s]
  by (cases failed) (simp_all add: settle_def settlePending_def)

lemma marker_ok_other:
  assumes "marker_ok deb n s" "map_of (pending t) n = map_of (pending s) n" "marked_cfg t = marked_cfg s"
    "live s \<le> live t" "cfg t = cfg s" "clock t = clock s"
  shows "marker_ok deb n t"
  using assms by (auto simp: marker_ok_def covered_def intro: order.trans)

lemma inv_settle_other:
  assumes "push_inv deb n s" "i \<noteq> n"
  shows "push_inv deb n (s\<lparr>pending := settlePending (clock s) i q failed (pending s)\<rparr>)"
proof (rule push_invI)
  let ?t = "s\<lparr>pending := settlePending (clock s) i q failed (pending s)\<rparr>"
  have "map_of (pending ?t) n = map_of (pending s) n"
    using assms(2) by (auto simp: settlePending_def map_of_settle_ok map_of_settle_failed)
  then show "marker_ok deb n ?t" using assms(1) by (intro marker_ok_other [of deb n s ?t]) (simp_all add: push_inv_def)
  have "covered ?t q v = covered s q v" for q v by (simp add: covered_def)
  then show "phase_ok n ?t"
    using assms(1) by (cases "phase s") (simp_all add: push_inv_def phase_ok_def pendingSeq_settle)
qed (use assms(1) in \<open>simp_all add: push_inv_def gens_ok_def\<close>)

lemma covered_phase [simp]: "covered (s\<lparr>phase := p\<rparr>) q v = covered s q v"
  "marker_ok deb n (s\<lparr>phase := p\<rparr>) = marker_ok deb n s" "gens_ok (s\<lparr>phase := p\<rparr>) = gens_ok s"
  by (simp_all add: covered_def marker_ok_def gens_ok_def)

lemma gens_ok_live: "gens_ok s \<Longrightarrow> live s \<le> v \<Longrightarrow> gens_ok (s\<lparr>live := v\<rparr>)"
  by (auto simp: gens_ok_def)

lemma gens_ok_settle [simp]: "gens_ok (settle env n q failed s) = gens_ok s"
  by (simp add: gens_ok_def settle_sel)

lemma inv_push:
  assumes "push_inv deb n s"
  shows "push_inv deb n (pushNodeConfig env n s)"
proof -
  have i: "live s \<le> cfg s" "marker_ok deb n s" "gens_ok s" "phase_ok n s" using assms by (simp_all add: push_inv_def)
  have seqs: "covered s (pendingSeq n (pending s)) (cfg s)"
    using i(2) by (auto simp: marker_ok_def pendingSeq_def covered_def split: option.split)
  show ?thesis
  proof (cases "phase s")
    case (Got_seq a g q)
    then have "covered s q (cfg s)" "gen_cfg s g \<le> cfg s"
      using i(3,4) covered_mono [OF seqs] by (auto simp: phase_ok_def gens_ok_def)
    moreover have "marker_ok deb n (settle env n q True s)" by (rule marker_settle [OF i(2)]) simp
    ultimately show ?thesis using Got_seq i by (simp add: push_inv_def pushNodeConfig_def phase_ok_def settle_sel)
  next
    case (Built a g q v)
    then have v: "live s \<le> v" "v \<le> cfg s" "covered s q v" "gen_cfg s g \<le> v" using i(4) by (auto simp: phase_ok_def)
    have up: "marker_ok deb n (t\<lparr>live := w\<rparr>)" if "marker_ok deb n t" "live t = live s" "live s \<le> w" for t w
      using that by (intro marker_ok_other [OF that(1)]) auto
    have "marker_ok deb n (settle env n q True s)" by (rule marker_settle [OF i(2)]) simp
    then have "marker_ok deb n ((settle env n q True s)\<lparr>live := w\<rparr>)" if "live s \<le> w" for w
      using that by (intro up) (simp_all add: settle_sel)
    note mk = this [OF order.refl] this [OF v(1)] up [OF i(2) refl v(1)]
    have gs: "gens_ok ((settle env n q True s)\<lparr>live := live s\<rparr>)" "gens_ok ((settle env n q True s)\<lparr>live := v\<rparr>)"
      "gens_ok (s\<lparr>live := v\<rparr>)"
      using i(3) v(1) by (auto simp: gens_ok_def settle_sel)
    have "covered (s\<lparr>live := v\<rparr>) q v" using v(3) by (simp add: covered_def)
    then show ?thesis using Built i v mk gs
      by (cases "load_fails env"; cases "load_applied env") (simp_all add: push_inv_def pushNodeConfig_def phase_ok_def settle_sel)
  next
    case (Live a g q)
    then have "marker_ok deb n (settle env n q False s)" using i(4) by (intro marker_settle [OF i(2)]) (simp add: phase_ok_def)
    then show ?thesis using Live i by (simp add: push_inv_def pushNodeConfig_def phase_ok_def settle_sel)
  next
    case (Settled a g)
    have "marker_ok deb n (recordApplied g s)" using i(2) by (intro marker_ok_other [OF i(2)]) (auto simp: recordApplied_def)
    moreover have "gens_ok (recordApplied g s)" using i(3,4) Settled by (auto simp: gens_ok_def recordApplied_def phase_ok_def)
    moreover have "live (recordApplied g s) = live s" "cfg (recordApplied g s) = cfg s"
      "desiredGen (recordApplied g s) = desiredGen s" "gen_cfg (recordApplied g s) = gen_cfg s"
      by (simp_all add: recordApplied_def)
    ultimately show ?thesis using Settled i by (simp add: push_inv_def pushNodeConfig_def phase_ok_def)
  qed (use i in \<open>simp_all add: push_inv_def pushNodeConfig_def phase_ok_def maxPushGenerations_def\<close>)
qed

section \<open>Properties\<close>

text \<open>The abstract view: the version in the database and the version on the node, which only moves forward
  and never past the database.\<close>

inductive delivery_step :: "nat \<times> nat \<Rightarrow> nat \<times> nat \<Rightarrow> bool" where
  commit: "delivery_step (c, l) (Suc c, l)"
| deliver: "l \<le> l' \<Longrightarrow> l' \<le> c \<Longrightarrow> delivery_step (c, l) (c, l')"

lemma deliver_same: "delivery_step\<^sup>*\<^sup>* (c, l) (c', l)" if "c' = c \<or> c' = Suc c"
  using that by (auto intro: r_into_rtranclp commit)

lemma push_live: "push_inv deb n s \<Longrightarrow> live s \<le> live (pushNodeConfig env n s) \<and> cfg (pushNodeConfig env n s) = cfg s"
  by (cases "phase s")
    (simp_all add: push_inv_def phase_ok_def pushNodeConfig_def settle_sel recordApplied_def)

lemma push_inv_step: "push_inv deb n s \<Longrightarrow> push_step deb n s t \<Longrightarrow> push_inv deb n t"
  by (erule push_step.cases)
    (simp_all add: inv_tick inv_change [simplified] inv_mark inv_bump inv_push inv_settle_other)

lemma push_start_inv: "push_start s \<Longrightarrow> push_inv deb n s"
  by (simp add: push_start_def push_inv_def marker_ok_def gens_ok_def phase_ok_def)

interpretation push: simulation push_start "push_step deb n" "push_inv deb n" "\<lambda>s. (cfg s, live s)"
  "\<lambda>(c, l). l \<le> c" delivery_step for deb n
proof
  show "push_inv deb n s \<and> (case (cfg s, live s) of (c, l) \<Rightarrow> l \<le> c)" if "push_start s" for s
    using that push_start_inv [OF that] by (simp add: push_start_def)
  fix s t assume s: "push_inv deb n s" "push_step deb n s t"
  have t: "push_inv deb n t" by (rule push_inv_step [OF s])
  from s(2) have "delivery_step\<^sup>*\<^sup>* (cfg s, live s) (cfg t, live t)"
  proof cases
    case (pushes env)
    then have "live s \<le> live t" "cfg t = cfg s" "live t \<le> cfg t" using push_live [OF s(1)] t by (simp_all add: push_inv_def)
    then show ?thesis by (auto intro: r_into_rtranclp deliver)
  qed (simp_all add: deliver_same mark_sel bumpDesiredGen_def)
  with t show "push_inv deb n t \<and> delivery_step\<^sup>*\<^sup>* (cfg s, live s) (cfg t, live t)" by (rule conjI)
qed

definition fine :: push_env where
  "fine = \<lparr>read_fails = False, build_fails = False, load_fails = False, load_applied = False, settle_fails = False, ctx_done = False\<rparr>"

definition w_push :: push_state where
  "w_push = \<lparr>clock = 0, pending = [], cfg = 0, live = 0, desiredGen = 0, appliedGen = 0, phase = Idle,
     marked_cfg = (\<lambda>_. 0), gen_cfg = (\<lambda>_. 0)\<rparr>"

text \<open>One change with its marker.\<close>

definition w_marked :: push_state where
  "w_marked = mark 0 4 [4] (w_push\<lparr>cfg := cfg w_push + 1\<rparr>)"

lemma w_marked_reachable: "reachable push_start (push_step 0 4) w_marked"
proof (rule reachable_step)
  show "reachable push_start (push_step 0 4) w_push" by (rule reachable_start) (simp add: push_start_def w_push_def)
  show "push_step 0 4 w_push w_marked" unfolding w_marked_def by (rule push_step.change_marked)
qed

lemma w_marked_marker: "\<exists>m. map_of (pending w_marked) 4 = Some m \<and> seq m = 1 \<and> pushed_seq m = 0" "phase w_marked = Idle"
  "cfg w_marked = 1" "clock w_marked = 0"
  by (simp_all add: w_marked_def mark_sel map_of_markPushPending w_push_def upserted_def)





lemma outboxNow_due: "a + second \<le> t \<Longrightarrow> a \<le> outboxNow t"
proof -
  assume "a + second \<le> t"
  moreover have "t mod second < second" by (simp add: second_def)
  ultimately show ?thesis unfolding outboxNow_def by linarith
qed

text \<open>Eight steps of a push that nothing disturbs.\<close>

lemma push_undisturbed:
  assumes "phase s = Idle" "map_of (pending s) n = Some m" "pushed_seq m < seq m"
  shows "(pushNodeConfig fine n ^^ 8) s =
    (recordApplied (desiredGen s) (s\<lparr>live := cfg s, pending := settle_ok n (seq m) (pending s)\<rparr>))\<lparr>phase := Idle\<rparr>"
  using assms
  by (simp add: eval_nat_numeral pushNodeConfig_def fine_def settle_def settlePending_def pendingSeq_def recordApplied_def)

text \<open>C27: a pending push comes due and is delivered. At most the longest backoff, or the debounce window
  and its grace, after any point of the run, the leader's drain picks the node; a push that nothing
  disturbs then leaves the node on the current configuration, with the marker settled.\<close>

theorem push_pending_delivered:
  assumes "reachable push_start (push_step deb n) s" "map_of (pending s) n = Some m" "pushed_seq m < seq m"
    and "n \<in> set enabled" "clock s + max_wait deb + second \<le> t" "phase s = Idle"
  shows "n \<in> set (DrainPendingPushes True enabled t (pending s)) \<and>
    (let s' = (pushNodeConfig fine n ^^ 8) (s\<lparr>clock := t\<rparr>)
     in live s' = cfg s \<and> phase s' = Idle \<and>
        (\<exists>m'. map_of (pending s') n = Some m' \<and> seq m' = seq m \<and> pushed_seq m' = seq m))"
proof -
  have "push_inv deb n s" by (rule push.holds [OF assms(1)])
  then have "next_attempt_at m \<le> clock s + max_wait deb" using assms(2) by (simp add: push_inv_def marker_ok_def)
  moreover have "clock s + max_wait deb \<le> outboxNow t" by (rule outboxNow_due [OF assms(5)])
  ultimately have "next_attempt_at m \<le> outboxNow t" by (rule order.trans)
  then have "marker_due t m" using assms(3) by (simp add: marker_due_def)
  then have "n \<in> set (DrainPendingPushes True enabled t (pending s))"
    using map_of_SomeD [OF assms(2)] assms(4) by (force simp: DrainPendingPushes_def)
  moreover have "(pushNodeConfig fine n ^^ 8) (s\<lparr>clock := t\<rparr>) = (recordApplied (desiredGen s)
      (s\<lparr>clock := t, live := cfg s, pending := settle_ok n (seq m) (pending s)\<rparr>))\<lparr>phase := Idle\<rparr>"
    using push_undisturbed [of "s\<lparr>clock := t\<rparr>" n m] assms(2,3,6) by simp
  ultimately show ?thesis using assms(2,3) by (simp add: Let_def recordApplied_def map_of_settle_ok)
qed

theorem push_pending_delivered_witness:
  "4 \<in> set (DrainPendingPushes True [4] (max_wait 0 + second) (pending w_marked)) \<and>
   live ((pushNodeConfig fine 4 ^^ 8) (w_marked\<lparr>clock := max_wait 0 + second\<rparr>)) = 1"
proof -
  obtain m where m: "map_of (pending w_marked) 4 = Some m" "pushed_seq m < seq m" using w_marked_marker(1) by auto
  from push_pending_delivered [OF w_marked_reachable m, of "[4]" "max_wait 0 + second"] show ?thesis
    using w_marked_marker(2-4) by (simp add: Let_def)
qed

text \<open>C28: the backoff doubles from 30 seconds to 15 minutes. The guard on the number of attempts keeps
  the shift inside 64 bits, so the value is exact for every number of failures.\<close>

theorem backoff_bounds:
  assumes "0 < k"
  shows "sint (backoff k) = min (30000000000 * 2 ^ (k - 1)) 900000000000 \<and>
    30000000000 \<le> sint (backoff k) \<and> sint (backoff k) \<le> 900000000000"
proof -
  have "(1::int) \<le> 2 ^ (k - 1)" by simp
  then show ?thesis unfolding backoff_value [OF assms] by (auto simp: min_def)
qed

theorem backoff_bounds_witness: "sint (backoff 3) = 120000000000 \<and> sint (backoff 70) = 900000000000"
proof -
  have "(2::int) ^ 9 \<le> 2 ^ (70 - 1)" by (intro power_increasing) auto
  then show ?thesis using backoff_bounds [of 3] backoff_bounds [of 70] by simp
qed

end
