(* ===== verification/Quota.thy ===== *)
theory Quota
  imports Transition
begin

text \<open>
  The package limits of a reseller (\<open>internal/quota/quota.go\<close>) and the transactions that check them: a
  new client, a new service, a change of plan (\<open>handlers/admin_clients.go\<close>) and, in \<open>Create\<close>, a new route
  (\<open>checkDomainQuotas\<close> in \<open>internal/domain/routes/lifecycle.go\<close>). Tables are association lists; a
  transaction holds the row lock of the reseller, so check and insert are one step. A limit of 0 is
  no limit. The package of a reseller and the plans are fixed while the steps run. Rows that are written
  without a check (\<open>ensureAdminClient\<close>, \<open>ensureAdminService\<close>, \<open>AssignClient\<close>, the billing API) are not
  steps of this relation.
\<close>

record plan =
  max_domains :: int
  kind :: string

record limits =
  maxClients :: int
  maxServices :: int
  maxDomains :: int
  overselling :: bool

record reseller_plan =
  max_clients :: int
  max_services_total :: int
  max_domains_total :: int

record quota_db =
  q_clients :: "(nat \<times> nat option) list"
  q_services :: "(nat \<times> nat \<times> nat) list"
  q_routes :: "(nat \<times> nat) list"
  q_plans :: "(nat \<times> plan) list"
  q_resellers :: "(nat \<times> nat option \<times> bool) list"
  q_packages :: "(nat \<times> reseller_plan) list"

datatype quota_error = ErrClientQuota | ErrServiceQuota | ErrDomainQuota | ErrMaxDomains | No_row

section \<open>Counts\<close>

definition owned_by :: "nat \<Rightarrow> quota_db \<Rightarrow> nat \<Rightarrow> bool" where
  "owned_by rid db c \<longleftrightarrow> map_of (q_clients db) c = Some (Some rid)"

definition client_count :: "nat \<Rightarrow> quota_db \<Rightarrow> int" where
  "client_count rid db = int (length (filter (\<lambda>(c, r). r = Some rid) (q_clients db)))"

definition service_count :: "nat \<Rightarrow> quota_db \<Rightarrow> int" where
  "service_count rid db = int (length (filter (\<lambda>(s, c, p). owned_by rid db c) (q_services db)))"

definition service_owned :: "nat \<Rightarrow> quota_db \<Rightarrow> nat \<Rightarrow> bool" where
  "service_owned rid db s = (case map_of (q_services db) s of None \<Rightarrow> False | Some (c, p) \<Rightarrow> owned_by rid db c)"

definition route_count :: "nat \<Rightarrow> quota_db \<Rightarrow> int" where
  "route_count rid db = int (length (filter (\<lambda>(r, s). service_owned rid db s) (q_routes db)))"

definition plan_alloc :: "quota_db \<Rightarrow> nat \<Rightarrow> int" where
  "plan_alloc db p =
     (case map_of (q_plans db) p of None \<Rightarrow> 0 | Some x \<Rightarrow> if kind x = ''npm'' then 0 else max_domains x)"

text \<open>\<open>SUM(p.max_domains)\<close> over the services of the reseller that are not on an \<open>npm\<close> plan, of all clients
  or of all but one.\<close>

definition allocated :: "nat \<Rightarrow> quota_db \<Rightarrow> int" where
  "allocated rid db = (\<Sum>(s, c, p) \<leftarrow> filter (\<lambda>(s, c, p). owned_by rid db c) (q_services db). plan_alloc db p)"

definition allocated_others :: "nat \<Rightarrow> nat \<Rightarrow> quota_db \<Rightarrow> int" where
  "allocated_others rid client db =
     (\<Sum>(s, c, p) \<leftarrow> filter (\<lambda>(s, c, p). owned_by rid db c \<and> c \<noteq> client) (q_services db). plan_alloc db p)"

section \<open>Checks\<close>

definition limitsOn :: "quota_db \<Rightarrow> nat \<Rightarrow> limits option" where
  "limitsOn db rid =
     (if rid = 0 then None
      else case map_of (q_resellers db) rid of
        None \<Rightarrow> None
      | Some (None, over) \<Rightarrow> None
      | Some (Some pid, over) \<Rightarrow>
          (case map_of (q_packages db) pid of
             None \<Rightarrow> None
           | Some x \<Rightarrow> Some \<lparr>maxClients = max_clients x, maxServices = max_services_total x,
               maxDomains = max_domains_total x, overselling = over\<rparr>))"

definition CanCreateClient :: "quota_db \<Rightarrow> nat \<Rightarrow> quota_error option" where
  "CanCreateClient db rid =
     (case limitsOn db rid of
        None \<Rightarrow> None
      | Some l \<Rightarrow> if maxClients l \<le> 0 then None else if maxClients l \<le> client_count rid db then Some ErrClientQuota else None)"

definition alloc_check :: "quota_db \<Rightarrow> nat \<Rightarrow> nat \<Rightarrow> limits \<Rightarrow> quota_error option" where
  "alloc_check db rid planID l =
     (if overselling l \<or> maxDomains l \<le> 0 then None
      else case map_of (q_plans db) planID of
        None \<Rightarrow> Some No_row
      | Some x \<Rightarrow>
          (if kind x = ''npm'' then None
           else if max_domains x \<le> 0 then Some ErrDomainQuota
           else if maxDomains l < allocated rid db + max_domains x then Some ErrDomainQuota else None))"

definition CanCreateService :: "quota_db \<Rightarrow> nat \<Rightarrow> nat \<Rightarrow> quota_error option" where
  "CanCreateService db rid planID =
     (case limitsOn db rid of
        None \<Rightarrow> None
      | Some l \<Rightarrow>
          (if 0 < maxServices l \<and> maxServices l \<le> service_count rid db then Some ErrServiceQuota
           else alloc_check db rid planID l))"

definition CanChangeClientPlan :: "quota_db \<Rightarrow> nat \<Rightarrow> nat \<Rightarrow> nat \<Rightarrow> quota_error option" where
  "CanChangeClientPlan db rid client planID =
     (case limitsOn db rid of
        None \<Rightarrow> None
      | Some l \<Rightarrow>
          (if overselling l \<or> maxDomains l \<le> 0 then None
           else case map_of (q_plans db) planID of
             None \<Rightarrow> Some No_row
           | Some x \<Rightarrow>
               (let moving = int (length (filter (\<lambda>(s, c, p). c = client) (q_services db))) in
                if kind x = ''npm'' then None
                else if moving = 0 then None
                else if max_domains x \<le> 0 then Some ErrDomainQuota
                else if maxDomains l < allocated_others rid client db + moving * max_domains x then Some ErrDomainQuota
                else None)))"

definition CanCreateRoute :: "quota_db \<Rightarrow> nat \<Rightarrow> nat \<Rightarrow> quota_error option" where
  "CanCreateRoute db rid serviceID =
     (case limitsOn db rid of
        None \<Rightarrow> None
      | Some l \<Rightarrow>
          (if maxDomains l \<le> 0 then None
           else
             (let count = (if maxDomains l \<le> route_count rid db then Some ErrDomainQuota else None) in
              if overselling l then count
              else case map_of (q_services db) serviceID of
                None \<Rightarrow> Some No_row
              | Some (c, p) \<Rightarrow>
                  (case map_of (q_plans db) p of
                     None \<Rightarrow> Some No_row
                   | Some x \<Rightarrow> if kind x \<noteq> ''npm'' then None else count))))"

text \<open>Only the quota errors refuse a route; a failed lookup is logged and passes.\<close>

definition checkDomainQuotas :: "quota_db \<Rightarrow> nat \<Rightarrow> int \<Rightarrow> nat \<Rightarrow> quota_error option" where
  "checkDomainQuotas db serviceID planMaxDom rid =
     (if 0 < planMaxDom \<and> map_of (q_services db) serviceID = None then Some No_row
      else if 0 < planMaxDom \<and> planMaxDom \<le> int (length (filter (\<lambda>(r, s). s = serviceID) (q_routes db)))
      then Some ErrMaxDomains
      else if rid \<noteq> 0 \<and> CanCreateRoute db rid serviceID = Some ErrDomainQuota then Some ErrDomainQuota
      else None)"

definition ResellerOfClient :: "quota_db \<Rightarrow> nat \<Rightarrow> nat" where
  "ResellerOfClient db c = (case map_of (q_clients db) c of Some (Some rid) \<Rightarrow> rid | _ \<Rightarrow> 0)"

record Usage =
  Clients :: int
  MaxClients :: int
  Services :: int
  MaxServices :: int
  Domains :: int
  MaxDomains :: int
  Overselling :: bool
  Limited :: bool

definition UsageFor :: "quota_db \<Rightarrow> nat \<Rightarrow> Usage" where
  "UsageFor db rid =
     (let l = (case limitsOn db rid of None \<Rightarrow> \<lparr>maxClients = 0, maxServices = 0, maxDomains = 0, overselling = False\<rparr> | Some l \<Rightarrow> l)
      in \<lparr>Clients = client_count rid db, MaxClients = maxClients l, Services = service_count rid db, MaxServices = maxServices l,
          Domains = route_count rid db, MaxDomains = maxDomains l, Overselling = overselling l, Limited = limitsOn db rid \<noteq> None\<rparr>)"

section \<open>Transactions\<close>

definition create_client :: "nat \<Rightarrow> nat option \<Rightarrow> quota_db \<Rightarrow> quota_db option" where
  "create_client c r db =
     (if (case r of None \<Rightarrow> None | Some rid \<Rightarrow> CanCreateClient db rid) \<noteq> None then None
      else Some (db\<lparr>q_clients := (c, r) # q_clients db\<rparr>))"

definition create_service :: "nat \<Rightarrow> nat \<Rightarrow> nat \<Rightarrow> quota_db \<Rightarrow> quota_db option" where
  "create_service s c p db =
     (if map_of (q_clients db) c = None \<or> map_of (q_plans db) p = None then None
      else if ResellerOfClient db c \<noteq> 0 \<and> CanCreateService db (ResellerOfClient db c) p \<noteq> None then None
      else Some (db\<lparr>q_services := (s, c, p) # q_services db\<rparr>))"

definition change_plan :: "nat \<Rightarrow> nat \<Rightarrow> quota_db \<Rightarrow> quota_db option" where
  "change_plan c p db =
     (if map_of (q_plans db) p = None then None
      else if ResellerOfClient db c \<noteq> 0 \<and> CanChangeClientPlan db (ResellerOfClient db c) c p \<noteq> None then None
      else Some (db\<lparr>q_services := map (\<lambda>(s, d, q). (s, d, if d = c then p else q)) (q_services db)\<rparr>))"

definition create_route :: "nat \<Rightarrow> nat \<Rightarrow> quota_db \<Rightarrow> quota_db option" where
  "create_route r s db =
     (case map_of (q_services db) s of
        None \<Rightarrow> None
      | Some (c, p) \<Rightarrow>
          (case map_of (q_plans db) p of
             None \<Rightarrow> None
           | Some x \<Rightarrow>
               (if checkDomainQuotas db s (max_domains x) (ResellerOfClient db c) \<noteq> None then None
                else Some (db\<lparr>q_routes := (r, s) # q_routes db\<rparr>))))"

definition quota_start :: "nat \<Rightarrow> limits \<Rightarrow> quota_db \<Rightarrow> bool" where
  "quota_start rid l db \<longleftrightarrow> q_clients db = [] \<and> q_services db = [] \<and> q_routes db = [] \<and> limitsOn db rid = Some l"

inductive quota_step :: "quota_db \<Rightarrow> quota_db \<Rightarrow> bool" where
  client: "c \<notin> fst ` set (q_clients db) \<Longrightarrow> create_client c r db = Some db' \<Longrightarrow> quota_step db db'"
| service: "s \<notin> fst ` set (q_services db) \<Longrightarrow> create_service s c p db = Some db' \<Longrightarrow> quota_step db db'"
| plan_change: "change_plan c p db = Some db' \<Longrightarrow> quota_step db db'"
| route: "create_route r s db = Some db' \<Longrightarrow> quota_step db db'"
| drop_route: "quota_step db (db\<lparr>q_routes := filter P (q_routes db)\<rparr>)"

section \<open>Lemmas\<close>

definition quota_inv :: "nat \<Rightarrow> limits \<Rightarrow> quota_db \<Rightarrow> bool" where
  "quota_inv rid l db \<longleftrightarrow> limitsOn db rid = Some l \<and>
     (\<forall>(s, c, p) \<in> set (q_services db). c \<in> fst ` set (q_clients db)) \<and>
     (\<forall>(r, s) \<in> set (q_routes db). s \<in> fst ` set (q_services db)) \<and>
     (0 < maxClients l \<longrightarrow> client_count rid db \<le> maxClients l) \<and>
     (0 < maxServices l \<longrightarrow> service_count rid db \<le> maxServices l) \<and>
     (0 < maxDomains l \<and> overselling l \<longrightarrow> route_count rid db \<le> maxDomains l) \<and>
     (0 < maxDomains l \<and> \<not> overselling l \<longrightarrow> allocated rid db \<le> maxDomains l \<and>
       (\<forall>(s, c, p) \<in> set (q_services db). owned_by rid db c \<longrightarrow> 0 \<le> plan_alloc db p))"

lemma limitsOn_tables [simp]:
  "limitsOn (db\<lparr>q_clients := a\<rparr>) rid = limitsOn db rid" "limitsOn (db\<lparr>q_services := b\<rparr>) rid = limitsOn db rid"
  "limitsOn (db\<lparr>q_routes := d\<rparr>) rid = limitsOn db rid"
  by (simp_all add: limitsOn_def split: option.split prod.split)

lemma limitsOn_nonzero: "limitsOn db rid = Some l \<Longrightarrow> rid \<noteq> 0"
  by (cases "rid = 0") (simp_all add: limitsOn_def)

lemma ResellerOfClient_owned: "rid \<noteq> 0 \<Longrightarrow> ResellerOfClient db c = rid \<longleftrightarrow> owned_by rid db c"
  by (auto simp: ResellerOfClient_def owned_by_def split: option.split)

lemma plan_alloc_tables [simp]:
  "plan_alloc (db\<lparr>q_clients := a\<rparr>) = plan_alloc db" "plan_alloc (db\<lparr>q_services := b\<rparr>) = plan_alloc db"
  "plan_alloc (db\<lparr>q_routes := d\<rparr>) = plan_alloc db"
  by (simp_all add: plan_alloc_def fun_eq_iff)

lemma owned_tables [simp]:
  "owned_by rid (db\<lparr>q_services := b\<rparr>) = owned_by rid db" "owned_by rid (db\<lparr>q_routes := d\<rparr>) = owned_by rid db"
  by (simp_all add: owned_by_def fun_eq_iff)

lemma owned_new_client:
  "c \<noteq> x \<Longrightarrow> owned_by rid (db\<lparr>q_clients := (x, r) # q_clients db\<rparr>) c = owned_by rid db c"
  by (simp add: owned_by_def)

lemma inv_client:
  assumes "quota_inv rid l db" "x \<notin> fst ` set (q_clients db)" "create_client x r db = Some db'"
  shows "quota_inv rid l db'"
proof -
  have db': "db' = db\<lparr>q_clients := (x, r) # q_clients db\<rparr>" and ok: "r = Some rid \<Longrightarrow> CanCreateClient db rid = None"
    using assms(3) by (auto simp: create_client_def split: if_split_asm)
  have other: "c \<noteq> x" if "(s, c, p) \<in> set (q_services db)" for s c p using assms(1,2) that by (auto simp: quota_inv_def)
  have own: "filter (\<lambda>(s, c, p). owned_by rid db' c) (q_services db) = filter (\<lambda>(s, c, p). owned_by rid db c) (q_services db)"
    using other by (intro filter_cong) (auto simp: db' owned_new_client)
  have "service_owned rid db' s = service_owned rid db s" for s
    using other map_of_SomeD [of "q_services db" s] by (auto simp: service_owned_def db' owned_new_client split: option.split)
  then have "service_count rid db' = service_count rid db" "allocated rid db' = allocated rid db" "route_count rid db' = route_count rid db"
    using own by (simp_all add: service_count_def allocated_def route_count_def db')
  moreover have "client_count rid db' = client_count rid db + (if r = Some rid then 1 else 0)"
    by (simp add: client_count_def db')
  moreover have "owned_by rid db' c = owned_by rid db c" if "(s, c, p) \<in> set (q_services db)" for s c p
    using other [OF that] by (simp add: db' owned_new_client)
  ultimately show ?thesis using assms(1) ok
    by (auto simp: quota_inv_def db' CanCreateClient_def split: if_split_asm)
qed

lemma inv_route:
  assumes "quota_inv rid l db" "create_route r s db = Some db'"
  shows "quota_inv rid l db'"
proof -
  obtain c p x where sv: "map_of (q_services db) s = Some (c, p)" "map_of (q_plans db) p = Some x"
    and ok: "checkDomainQuotas db s (max_domains x) (ResellerOfClient db c) = None"
    and db': "db' = db\<lparr>q_routes := (r, s) # q_routes db\<rparr>"
    using assms(2) by (auto simp: create_route_def split: option.split_asm if_split_asm)
  have l: "limitsOn db rid = Some l" "rid \<noteq> 0" using assms(1) limitsOn_nonzero by (auto simp: quota_inv_def)
  have same: "service_count rid db' = service_count rid db" "allocated rid db' = allocated rid db" "client_count rid db' = client_count rid db"
    by (simp_all add: service_count_def allocated_def client_count_def db')
  have own: "service_owned rid db' = service_owned rid db"
    by (simp add: service_owned_def db' fun_eq_iff split: option.split prod.split)
  have "route_count rid db < maxDomains l" if "service_owned rid db s" "0 < maxDomains l" "overselling l"
  proof -
    have "ResellerOfClient db c = rid" using that(1) sv(1) l(2) by (simp add: service_owned_def ResellerOfClient_owned)
    then have "CanCreateRoute db rid s \<noteq> Some ErrDomainQuota" using ok l(2) by (auto simp: checkDomainQuotas_def split: if_split_asm)
    then show ?thesis using that(2,3) l(1) by (auto simp: CanCreateRoute_def Let_def split: if_split_asm)
  qed
  moreover have "route_count rid db' = route_count rid db + (if service_owned rid db s then 1 else 0)"
    unfolding route_count_def own by (simp add: db')
  ultimately have "0 < maxDomains l \<and> overselling l \<longrightarrow> route_count rid db' \<le> maxDomains l"
    using assms(1) by (auto simp: quota_inv_def)
  moreover have "s \<in> fst ` set (q_services db)" using map_of_SomeD [OF sv(1)] by (rule rev_image_eqI) simp
  ultimately show ?thesis using assms(1) same by (auto simp: quota_inv_def db')
qed

lemma sum_list_split:
  "(\<Sum>x \<leftarrow> filter P xs. f x) = (\<Sum>x \<leftarrow> filter (\<lambda>x. P x \<and> Q x) xs. f x) + (\<Sum>x \<leftarrow> filter (\<lambda>x. P x \<and> \<not> Q x) xs. (f x :: int))"
  by (induction xs) auto

lemma inv_service:
  assumes "quota_inv rid l db" "s \<notin> fst ` set (q_services db)" "create_service s c p db = Some db'"
  shows "quota_inv rid l db'"
proof -
  have c: "c \<in> fst ` set (q_clients db)" and db': "db' = db\<lparr>q_services := (s, c, p) # q_services db\<rparr>"
    and p: "map_of (q_plans db) p \<noteq> None"
    and ok: "ResellerOfClient db c \<noteq> 0 \<Longrightarrow> CanCreateService db (ResellerOfClient db c) p = None"
    using assms(3) by (auto simp: create_service_def map_of_eq_None_iff split: if_split_asm)
  have l: "limitsOn db rid = Some l" "rid \<noteq> 0" using assms(1) limitsOn_nonzero by (auto simp: quota_inv_def)
  have fresh: "t \<noteq> s" if "(r, t) \<in> set (q_routes db)" for r t using assms(1,2) that by (auto simp: quota_inv_def)
  have "filter (\<lambda>(r, t). service_owned rid db' t) (q_routes db) = filter (\<lambda>(r, t). service_owned rid db t) (q_routes db)"
    using fresh by (intro filter_cong) (auto simp: service_owned_def db' split: option.split)
  then have routes: "route_count rid db' = route_count rid db" by (simp add: route_count_def db')
  have counts: "service_count rid db' = service_count rid db + (if owned_by rid db c then 1 else 0)"
    "allocated rid db' = allocated rid db + (if owned_by rid db c then plan_alloc db p else 0)"
    "client_count rid db' = client_count rid db"
    by (simp_all add: service_count_def allocated_def client_count_def db')
  show ?thesis
  proof (cases "owned_by rid db c")
    case True
    then have "CanCreateService db rid p = None" using ok l(2) ResellerOfClient_owned [of rid db c] by auto
    then have "0 < maxServices l \<Longrightarrow> service_count rid db < maxServices l" and a: "alloc_check db rid p l = None"
      using l(1) by (auto simp: CanCreateService_def split: if_split_asm)
    moreover from a have "0 < maxDomains l \<and> \<not> overselling l \<Longrightarrow>
        0 \<le> plan_alloc db p \<and> allocated rid db + plan_alloc db p \<le> maxDomains l"
      using assms(1) p by (auto simp: alloc_check_def plan_alloc_def quota_inv_def split: if_split_asm option.split_asm)
    ultimately show ?thesis using assms(1) routes counts c True by (auto simp: quota_inv_def db')
  next
    case False
    then show ?thesis using assms(1) routes counts c by (auto simp: quota_inv_def db')
  qed
qed

abbreviation repoint_plan :: "nat \<Rightarrow> nat \<Rightarrow> nat \<times> nat \<times> nat \<Rightarrow> nat \<times> nat \<times> nat" where
  "repoint_plan c p \<equiv> \<lambda>(s, d, q). (s, d, if d = c then p else q)"

lemma filter_repoint: "length (filter (\<lambda>(s, d, q). P d) (map (repoint_plan c p) xs)) = length (filter (\<lambda>(s, d, q). P d) xs)"
  by (induction xs) auto

lemma map_of_repoint_plan: "map_of (map (repoint_plan c p) xs) s = map_option (\<lambda>(d, q). (d, if d = c then p else q)) (map_of xs s)"
  by (induction xs) auto

lemma allocated_repoint:
  assumes "P c"
  shows "(\<Sum>(s, d, q) \<leftarrow> filter (\<lambda>(s, d, q). P d) (map (repoint_plan c p) xs). g q) =
    (\<Sum>(s, d, q) \<leftarrow> filter (\<lambda>(s, d, q). P d \<and> d \<noteq> c) xs. g q) + int (length (filter (\<lambda>(s, d, q). d = c) xs)) * (g p :: int)"
  using assms by (induction xs) (auto simp: algebra_simps)

lemma allocated_repoint_other:
  assumes "\<not> P c"
  shows "filter (\<lambda>(s, d, q). P d) (map (repoint_plan c p) xs) = filter (\<lambda>(s, d, q). P d) xs"
  using assms by (induction xs) auto

lemma allocated_others_le:
  assumes "\<forall>(s, d, q) \<in> set xs. P d \<longrightarrow> 0 \<le> (g q :: int)"
  shows "(\<Sum>(s, d, q) \<leftarrow> filter (\<lambda>(s, d, q). P d \<and> d \<noteq> c) xs. g q) \<le> (\<Sum>(s, d, q) \<leftarrow> filter (\<lambda>(s, d, q). P d) xs. g q)"
  using assms by (induction xs) auto

lemma inv_plan:
  assumes "quota_inv rid l db" "change_plan c p db = Some db'"
  shows "quota_inv rid l db'"
proof -
  have db': "db' = db\<lparr>q_services := map (repoint_plan c p) (q_services db)\<rparr>" and p: "map_of (q_plans db) p \<noteq> None"
    and ok: "ResellerOfClient db c \<noteq> 0 \<Longrightarrow> CanChangeClientPlan db (ResellerOfClient db c) c p = None"
    using assms(2) by (auto simp: change_plan_def split: if_split_asm)
  have l: "limitsOn db rid = Some l" "rid \<noteq> 0" using assms(1) limitsOn_nonzero by (auto simp: quota_inv_def)
  have own: "service_owned rid db' s = service_owned rid db s" for s
    by (auto simp: service_owned_def db' map_of_repoint_plan split: option.split)
  have keys: "fst ` set (q_services db') = fst ` set (q_services db)" by (force simp: db')
  have counts: "service_count rid db' = service_count rid db" "client_count rid db' = client_count rid db"
    "route_count rid db' = route_count rid db"
    using filter_repoint [of "owned_by rid db" c p "q_services db"]
    by (simp_all add: service_count_def client_count_def route_count_def own) (simp_all add: db')
  have al: "allocated rid db' \<le> maxDomains l \<and> (\<forall>(s, d, q) \<in> set (q_services db'). owned_by rid db' d \<longrightarrow> 0 \<le> plan_alloc db' q)"
    if cap: "0 < maxDomains l" "\<not> overselling l"
  proof (cases "owned_by rid db c")
    case False
    then have "allocated rid db' = allocated rid db" by (simp add: allocated_def db' allocated_repoint_other)
    then show ?thesis using assms(1) cap False by (auto simp: quota_inv_def db')
  next
    case True
    let ?n = "int (length (filter (\<lambda>(s, d, q). d = c) (q_services db)))"
    have a: "allocated rid db' = allocated_others rid c db + ?n * plan_alloc db p"
      using allocated_repoint [of "owned_by rid db" c, OF True] by (simp add: allocated_def allocated_others_def db')
    have o: "allocated_others rid c db \<le> maxDomains l"
      using allocated_others_le [of "q_services db" "owned_by rid db" "plan_alloc db" c] assms(1) cap
      by (fastforce simp: allocated_others_def allocated_def quota_inv_def)
    have "CanChangeClientPlan db rid c p = None" using ok True l(2) ResellerOfClient_owned [of rid db c] by auto
    then have n: "?n = 0 \<or> 0 \<le> plan_alloc db p \<and> allocated_others rid c db + ?n * plan_alloc db p \<le> maxDomains l"
      using l(1) cap p o by (auto simp: CanChangeClientPlan_def plan_alloc_def Let_def split: if_split_asm option.split_asm)
    then have "allocated rid db' \<le> maxDomains l" using a o by auto
    moreover have "0 \<le> plan_alloc db q" if "(s, d, q) \<in> set (q_services db')" "owned_by rid db d" for s d q
      using that n assms(1) cap by (fastforce simp: db' quota_inv_def filter_empty_conv split: if_split_asm)
    moreover have "owned_by rid db' = owned_by rid db" "plan_alloc db' = plan_alloc db" by (simp_all add: db')
    ultimately show ?thesis by auto
  qed
  have "\<forall>(s, d, q) \<in> set (q_services db'). d \<in> fst ` set (q_clients db')" using assms(1) by (fastforce simp: db' quota_inv_def)
  moreover have "\<forall>(r, s) \<in> set (q_routes db'). s \<in> fst ` set (q_services db')" using assms(1) unfolding keys by (simp add: db' quota_inv_def)
  ultimately show ?thesis using assms(1) counts al by (simp add: quota_inv_def) (simp add: db')
qed

lemma length_filter_filter: "length (filter Q (filter P xs)) \<le> length (filter Q xs)"
  by (induction xs) auto

lemma inv_drop:
  assumes "quota_inv rid l db"
  shows "quota_inv rid l (db\<lparr>q_routes := filter P (q_routes db)\<rparr>)"
proof -
  let ?d = "db\<lparr>q_routes := filter P (q_routes db)\<rparr>"
  have "service_owned rid ?d = service_owned rid db"
    by (simp add: service_owned_def fun_eq_iff split: option.split prod.split)
  then have "route_count rid ?d \<le> route_count rid db"
    by (simp add: route_count_def length_filter_filter del: filter_filter)
  moreover have "service_count rid ?d = service_count rid db" "client_count rid ?d = client_count rid db" "allocated rid ?d = allocated rid db"
    by (simp_all add: service_count_def client_count_def allocated_def)
  ultimately show ?thesis using assms by (auto simp: quota_inv_def)
qed

lemma quota_inv_reachable:
  assumes "reachable (quota_start rid l) quota_step db"
  shows "quota_inv rid l db"
  using assms
proof (induction rule: invariant_rule)
  case (start db)
  then show ?case
    by (simp add: quota_start_def quota_inv_def client_count_def service_count_def route_count_def allocated_def)
next
  case (step db db')
  from step(2) step(3) show ?case
    by cases (blast intro: inv_client inv_service inv_plan inv_route inv_drop)+
qed

section \<open>Properties\<close>

text \<open>C29: the checks keep the package limits. However many clients, services, routes and plan changes are
  requested through the transactions that check them, and in whatever order, a reseller never has
  more clients or services than the package allows; with overselling never more routes, and without it
  never more allocated domains.\<close>

theorem quota_limits:
  assumes "reachable (quota_start rid l) quota_step db"
  shows "(0 < maxClients l \<longrightarrow> client_count rid db \<le> maxClients l) \<and>
    (0 < maxServices l \<longrightarrow> service_count rid db \<le> maxServices l) \<and>
    (0 < maxDomains l \<and> overselling l \<longrightarrow> route_count rid db \<le> maxDomains l) \<and>
    (0 < maxDomains l \<and> \<not> overselling l \<longrightarrow> allocated rid db \<le> maxDomains l)"
  using quota_inv_reachable [OF assms] by (simp add: quota_inv_def)

definition w_quota :: "bool \<Rightarrow> quota_db" where
  "w_quota over = \<lparr>q_clients = [], q_services = [], q_routes = [],
     q_plans = [(1, \<lparr>max_domains = 2, kind = ''''\<rparr>), (2, \<lparr>max_domains = 100, kind = ''npm''\<rparr>), (3, \<lparr>max_domains = 1, kind = ''''\<rparr>)],
     q_resellers = [(9, Some 5, over)],
     q_packages = [(5, \<lparr>max_clients = 1, max_services_total = 5, max_domains_total = 2\<rparr>)]\<rparr>"

definition w_limits :: "bool \<Rightarrow> limits" where
  "w_limits over = \<lparr>maxClients = 1, maxServices = 5, maxDomains = 2, overselling = over\<rparr>"

definition and_then :: "quota_db option \<Rightarrow> (quota_db \<Rightarrow> quota_db option) \<Rightarrow> quota_db option" where
  "and_then x f = (case x of None \<Rightarrow> None | Some db \<Rightarrow> f db)"

text \<open>A reseller with two hosts on the internal plan takes a service of two domains and fills it.\<close>

definition w_client :: "bool \<Rightarrow> quota_db option" where
  "w_client over = create_client 1 (Some 9) (w_quota over)"

definition w_internal :: "quota_db option" where
  "w_internal = and_then (and_then (and_then (w_client False) (create_service 1 1 2)) (create_route 1 1)) (create_route 2 1)"

definition w_over :: "quota_db option" where
  "w_over = and_then (and_then (and_then w_internal (create_service 2 1 1)) (create_route 3 2)) (create_route 4 2)"

lemma w_quota_reachable: "reachable (quota_start 9 (w_limits over)) quota_step (w_quota over)"
  by (rule reachable_start) (simp add: quota_start_def w_quota_def w_limits_def limitsOn_def)

lemma and_then_Some: "and_then x f = Some db \<Longrightarrow> \<exists>d. x = Some d \<and> f d = Some db"
  by (auto simp: and_then_def split: option.split_asm)

lemma reach_route:
  assumes "\<And>d. x = Some d \<Longrightarrow> reachable S quota_step d" "and_then x (create_route r s) = Some db"
  shows "reachable S quota_step db"
  using and_then_Some [OF assms(2)] assms(1) reachable_step quota_step.route by metis

lemma reach_service:
  assumes "\<And>d. x = Some d \<Longrightarrow> reachable S quota_step d \<and> s \<notin> fst ` set (q_services d)" "and_then x (create_service s c p) = Some db"
  shows "reachable S quota_step db"
  using and_then_Some [OF assms(2)] assms(1) reachable_step quota_step.service by metis

lemma w_client_reachable: "w_client over = Some db \<Longrightarrow> reachable (quota_start 9 (w_limits over)) quota_step db"
  unfolding w_client_def
  by (rule reachable_step [OF w_quota_reachable quota_step.client]) (simp_all add: w_quota_def)

lemmas w_quota_defs = w_client_def w_internal_def w_over_def and_then_def w_quota_def create_client_def create_service_def
  create_route_def CanCreateClient_def CanCreateService_def CanCreateRoute_def alloc_check_def checkDomainQuotas_def
  ResellerOfClient_def limitsOn_def client_count_def service_count_def route_count_def allocated_def plan_alloc_def
  owned_by_def service_owned_def

lemma w_internal_reachable:
  assumes "w_internal = Some db"
  shows "reachable (quota_start 9 (w_limits False)) quota_step db"
  using assms unfolding w_internal_def
  apply (rule reach_route [rotated])
  apply (erule reach_route [rotated])
  apply (erule reach_service [rotated])
  apply (rule conjI, erule w_client_reachable)
  apply (simp add: w_client_def w_quota_def create_client_def split: if_split_asm)
  apply (erule subst, simp)
  done

lemma w_over_reachable:
  assumes "w_over = Some db"
  shows "reachable (quota_start 9 (w_limits False)) quota_step db"
proof -
  have fresh: "2 \<notin> fst ` set (q_services d)" if "w_internal = Some d" for d
    using that by (simp add: w_quota_defs) (erule subst, simp)
  show ?thesis using assms unfolding w_over_def
    apply (rule reach_route [rotated])
    apply (erule reach_route [rotated])
    apply (erule reach_service [rotated])
    apply (rule conjI)
    apply (erule w_internal_reachable)
    apply (erule fresh)
    done
qed

theorem quota_limits_witness:
  "client_count 9 (the (w_client True)) \<le> 1 \<and> client_count 9 (the (w_client True)) = 1 \<and>
   CanCreateClient (the (w_client True)) 9 = Some ErrClientQuota"
proof -
  have "w_client True = Some (the (w_client True))" by (simp add: w_quota_defs)
  from quota_limits [OF w_client_reachable [OF this]] show ?thesis
    by (simp add: w_limits_def) (simp add: w_quota_defs)
qed

text \<open>C30: without overselling the total of routes is not bounded by the package. Routes on \<open>npm\<close> plans are
  counted against the routes that exist, the other services against what is allocated; a reseller who
  fills the package with internal hosts first can then allocate and fill it a second time.\<close>

theorem quota_aggregate_exceeded:
  "\<exists>db. reachable (quota_start 9 (w_limits False)) quota_step db \<and> \<not> overselling (w_limits False) \<and>
     MaxDomains (UsageFor db 9) = 2 \<and> allocated 9 db = 2 \<and> Domains (UsageFor db 9) = 4"
proof -
  have "w_over = Some (the w_over)" by (simp add: w_quota_defs)
  then show ?thesis
    by (intro exI [of _ "the w_over"] conjI w_over_reachable) (simp_all add: w_limits_def UsageFor_def, simp_all add: w_quota_defs)
qed

end
