(* ===== verification/Dns_Providers.thy ===== *)
theory Dns_Providers
  imports Route_Safety "HOL-Library.List_Lexorder" "HOL-Library.Char_ord"
begin

text \<open>
  The registry of DNS providers for wildcard certificates (\<open>internal/caddyapi/dnsproviders.go\<close>): which
  credentials each provider takes, their validation when an operator saves them, the stored form, and
  the object the node configuration carries (\<open>providerJSON\<close> of \<open>config.go\<close>). A \<open>map[string]string\<close> is
  an association list read with the zero value for a missing key. \<open>perm\<close> is the iteration order of
  the Go map \<open>dnsProviders\<close>.
\<close>

record CredField =
  Key :: string
  Label :: string
  Placeholder :: string
  Secret :: bool
  Optional :: bool

record DNSProvider =
  Slug :: string
  DisplayName :: string
  CaddyModule :: string
  Fields_of :: "CredField list"

abbreviation cred :: "string \<Rightarrow> string \<Rightarrow> string \<Rightarrow> bool \<Rightarrow> bool \<Rightarrow> CredField" where
  "cred k l p s opt \<equiv> \<lparr>Key = k, Label = l, Placeholder = p, Secret = s, Optional = opt\<rparr>"

abbreviation provider :: "string \<Rightarrow> string \<Rightarrow> string \<Rightarrow> CredField list \<Rightarrow> DNSProvider" where
  "provider s d m fs \<equiv> \<lparr>Slug = s, DisplayName = d, CaddyModule = m, Fields_of = fs\<rparr>"

datatype dns_error = ErrUnknownProvider | ErrMissingField | ErrInvalidCredential

type_synonym fields = "(string \<times> string) list"

definition field :: "fields \<Rightarrow> string \<Rightarrow> string" where
  "field m k = (case map_of m k of Some v \<Rightarrow> v | None \<Rightarrow> '''')"

definition dnsProviders :: "(string \<times> DNSProvider) list" where
  "dnsProviders =
     [(''cloudflare'', provider ''cloudflare'' ''Cloudflare'' ''cloudflare''
        [cred ''api_token'' ''API token'' ''zone-scoped token (Zone:Read + DNS:Edit)'' True False]),
      (''route53'', provider ''route53'' ''AWS Route 53'' ''route53''
        [cred ''access_key_id'' ''Access key ID'' '''' True True,
         cred ''secret_access_key'' ''Secret access key'' '''' True True,
         cred ''region'' ''Region'' ''us-east-1'' False True,
         cred ''hosted_zone_id'' ''Hosted zone ID'' '''' False True]),
      (''googleclouddns'', provider ''googleclouddns'' ''Google Cloud DNS'' ''googleclouddns''
        [cred ''gcp_project'' ''GCP project ID'' ''my-project'' False False,
         cred ''gcp_application_default'' ''Service account JSON'' ''{...} (omit to use ambient ADC)'' True True]),
      (''azure'', provider ''azure'' ''Azure DNS'' ''azure''
        [cred ''subscription_id'' ''Subscription ID'' '''' False False,
         cred ''resource_group_name'' ''Resource group'' '''' False False,
         cred ''tenant_id'' ''Tenant ID'' '''' False True,
         cred ''client_id'' ''Client ID'' '''' False True,
         cred ''client_secret'' ''Client secret'' '''' True True]),
      (''digitalocean'', provider ''digitalocean'' ''DigitalOcean'' ''digitalocean''
        [cred ''auth_token'' ''API token'' '''' True False]),
      (''hetzner'', provider ''hetzner'' ''Hetzner'' ''hetzner''
        [cred ''api_token'' ''API token'' '''' True False]),
      (''linode'', provider ''linode'' ''Linode'' ''linode''
        [cred ''api_token'' ''API token (PAT)'' '''' True False]),
      (''vultr'', provider ''vultr'' ''Vultr'' ''vultr''
        [cred ''api_token'' ''API key'' '''' True False]),
      (''ovh'', provider ''ovh'' ''OVH'' ''ovh''
        [cred ''endpoint'' ''Endpoint'' ''ovh-eu'' False False,
         cred ''application_key'' ''Application key'' '''' True False,
         cred ''application_secret'' ''Application secret'' '''' True False,
         cred ''consumer_key'' ''Consumer key'' '''' True False]),
      (''gandi'', provider ''gandi'' ''Gandi'' ''gandi''
        [cred ''bearer_token'' ''Personal access token'' '''' True False]),
      (''namecheap'', provider ''namecheap'' ''Namecheap'' ''namecheap''
        [cred ''api_key'' ''API key'' '''' True False,
         cred ''user'' ''API username'' '''' False False,
         cred ''client_ip'' ''Whitelisted client IP'' '''' False True]),
      (''godaddy'', provider ''godaddy'' ''GoDaddy'' ''godaddy''
        [cred ''api_token'' ''API token (KEY:SECRET)'' ''key:secret'' True False]),
      (''dnsimple'', provider ''dnsimple'' ''DNSimple'' ''dnsimple''
        [cred ''api_access_token'' ''API access token'' '''' True False,
         cred ''account_id'' ''Account ID'' ''required only with a user token'' False True]),
      (''porkbun'', provider ''porkbun'' ''Porkbun'' ''porkbun''
        [cred ''api_key'' ''API key'' '''' True False,
         cred ''api_secret_key'' ''Secret API key'' '''' True False]),
      (''desec'', provider ''desec'' ''deSEC'' ''desec''
        [cred ''token'' ''API token'' '''' True False]),
      (''alidns'', provider ''alidns'' ''Alibaba Cloud DNS'' ''alidns''
        [cred ''access_key_id'' ''Access key ID'' '''' True False,
         cred ''access_key_secret'' ''Access key secret'' '''' True False]),
      (''netcup'', provider ''netcup'' ''Netcup'' ''netcup''
        [cred ''customer_number'' ''Customer number'' '''' False False,
         cred ''api_key'' ''API key'' '''' True False,
         cred ''api_password'' ''API password'' '''' True False]),
      (''powerdns'', provider ''powerdns'' ''PowerDNS'' ''powerdns''
        [cred ''server_url'' ''Server URL'' ''https://ns.example.com:8081'' False False,
         cred ''api_token'' ''API token'' '''' True False])]"

text \<open>The two alternatives of \<open>cloudflareTokenRe\<close>: \<open>cfut_\<close> or \<open>cfat_\<close> and 32 to 256 token characters, or
  35 to 50 of them.\<close>

definition token_char :: "char \<Rightarrow> bool" where
  "token_char c \<longleftrightarrow> is_upper c \<or> is_lower c \<or> is_digit c \<or> c = CHR ''_'' \<or> c = CHR ''-''"

definition cloudflareTokenRe :: "string \<Rightarrow> bool" where
  "cloudflareTokenRe s \<longleftrightarrow>
     (take 5 s \<in> {''cfut_'', ''cfat_''} \<and> list_all token_char (drop 5 s) \<and> length (drop 5 s) \<in> {32..256}) \<or>
     (list_all token_char s \<and> length s \<in> {35..50})"

definition credentialAccepted :: "string \<Rightarrow> fields \<Rightarrow> bool" where
  "credentialAccepted slug fs = (if slug = ''cloudflare'' then cloudflareTokenRe (field fs ''api_token'') else True)"

definition DNSProviderBySlug :: "string \<Rightarrow> DNSProvider option" where
  "DNSProviderBySlug slug = map_of dnsProviders slug"

definition DNSProviders :: "(DNSProvider list \<Rightarrow> DNSProvider list) \<Rightarrow> DNSProvider list" where
  "DNSProviders perm = sort_key DisplayName (perm (map snd dnsProviders))"

definition DNSProviderModules :: "(DNSProvider list \<Rightarrow> DNSProvider list) \<Rightarrow> string list" where
  "DNSProviderModules perm = sort (remdups (map CaddyModule (perm (map snd dnsProviders))))"

fun clean_fields :: "fields \<Rightarrow> CredField list \<Rightarrow> fields option" where
  "clean_fields fs [] = Some []"
| "clean_fields fs (f # rest) =
     (let v = TrimSpace (field fs (Key f)) in
      if v = '''' then (if Optional f then clean_fields fs rest else None)
      else map_option (Cons (Key f, v)) (clean_fields fs rest))"

definition ValidateDNSFields :: "string \<Rightarrow> fields \<Rightarrow> dns_error + fields" where
  "ValidateDNSFields slug fs =
     (case map_of dnsProviders slug of
        None \<Rightarrow> Inl ErrUnknownProvider
      | Some p \<Rightarrow>
          (case clean_fields fs (Fields_of p) of
             None \<Rightarrow> Inl ErrMissingField
           | Some clean \<Rightarrow> if credentialAccepted slug clean then Inr clean else Inl ErrInvalidCredential))"

text \<open>The stored form is the JSON of the map. Unmarshalling into \<open>map[string]string\<close> takes an object of
  strings, where a \<open>null\<close> member is the empty string; \<open>null\<close> itself is the nil map.\<close>

definition EncodeDNSFields :: "go_env \<Rightarrow> fields \<Rightarrow> string option" where
  "EncodeDNSFields env fs = json_encode env (JObj (map (\<lambda>(k, v). (k, JStr v)) fs))"

fun string_member :: "json \<Rightarrow> string option" where
  "string_member (JStr s) = Some s"
| "string_member JNull = Some ''''"
| "string_member _ = None"

fun unmarshal_string_map :: "json \<Rightarrow> fields option option" where
  "unmarshal_string_map JNull = Some None"
| "unmarshal_string_map (JObj kvs) =
     (if list_all (\<lambda>(k, v). string_member v \<noteq> None) kvs
      then Some (Some (map (\<lambda>(k, v). (k, the (string_member v))) kvs)) else None)"
| "unmarshal_string_map _ = None"

definition DecodeDNSFields :: "go_env \<Rightarrow> string \<Rightarrow> string \<Rightarrow> fields option" where
  "DecodeDNSFields env slug blob =
     (case Option.bind (json_decode env blob) unmarshal_string_map of
        Some (Some m) \<Rightarrow> Some m
      | _ \<Rightarrow> if slug = ''cloudflare'' then Some [(''api_token'', blob)] else None)"

definition provider_member :: "fields \<Rightarrow> CredField \<Rightarrow> (string \<times> json) list" where
  "provider_member fs f =
     (case map_of fs (Key f) of None \<Rightarrow> [] | Some v \<Rightarrow> if v \<noteq> '''' then [(Key f, JStr v)] else [])"

definition providerJSON :: "string \<Rightarrow> fields \<Rightarrow> json option" where
  "providerJSON slug fs =
     (case DNSProviderBySlug slug of
        None \<Rightarrow> None
      | Some p \<Rightarrow>
          (if \<not> credentialAccepted slug fs then None
           else Some (JObj ((''name'', JStr (CaddyModule p)) # concat (map (provider_member fs) (Fields_of p))))))"

section \<open>Lemmas\<close>

lemma dnsProviders_keys: "list_all (\<lambda>(k, p). distinct (map Key (Fields_of p)) \<and> ''name'' \<notin> set (map Key (Fields_of p))) dnsProviders"
  by code_simp

lemma dnsProviders_distinct: "distinct (map DisplayName (map snd dnsProviders))"
  by code_simp

text \<open>The list shown to the operator does not depend on the iteration order of the map.\<close>

lemma sort_key_unique:
  assumes "mset xs = mset ys" "distinct (map f ys)"
  shows "sort_key f xs = sort_key f ys"
proof -
  have "set xs = set ys" using assms(1) by (rule mset_eq_setD)
  moreover have "mset (map f xs) = mset (map f ys)" using assms(1) by simp
  then have "distinct (map f xs)" using assms(2) by (metis distinct_count_atmost_1 set_mset_mset)
  then have "distinct (map f (sort_key f xs))" "distinct (map f (sort_key f ys))"
    using assms(2) by (simp_all add: distinct_map)
  ultimately show ?thesis using assms(2) by (intro map_sorted_distinct_set_unique [of f]) (simp_all add: distinct_map)
qed

lemma DNSProviders_order: "mset (perm (map snd dnsProviders)) = mset (map snd dnsProviders) \<Longrightarrow> DNSProviders perm = DNSProviders id"
  unfolding DNSProviders_def id_apply by (rule sort_key_unique [OF _ dnsProviders_distinct])

lemma clean_fields_ConsE:
  assumes "clean_fields fs (c # cs) = Some m"
  obtains (skip) "TrimSpace (field fs (Key c)) = ''''" "Optional c" "clean_fields fs cs = Some m"
  | (keep) m' where "TrimSpace (field fs (Key c)) \<noteq> ''''" "m = (Key c, TrimSpace (field fs (Key c))) # m'"
      "clean_fields fs cs = Some m'"
  using assms by (auto simp: Let_def split: if_split_asm)

lemma clean_fields_keys: "clean_fields fs cs = Some m \<Longrightarrow> fst ` set m \<subseteq> Key ` set cs"
proof (induction cs arbitrary: m)
  case (Cons c cs)
  from Cons.prems show ?case
  proof (cases rule: clean_fields_ConsE)
    case skip
    then show ?thesis using Cons.IH by auto
  next
    case (keep m')
    then show ?thesis using Cons.IH [OF keep(3)] by auto
  qed
qed simp

lemma clean_fields_distinct: "clean_fields fs cs = Some m \<Longrightarrow> distinct (map Key cs) \<Longrightarrow> distinct (map fst m)"
proof (induction cs arbitrary: m)
  case (Cons c cs)
  from Cons.prems(1) show ?case
  proof (cases rule: clean_fields_ConsE)
    case skip
    then show ?thesis using Cons by simp
  next
    case (keep m')
    then show ?thesis using Cons clean_fields_keys [OF keep(3)] by auto
  qed
qed simp

lemma field_Cons: "field ((k, v) # m) k' = (if k' = k then v else field m k')"
  by (simp add: field_def)

lemma clean_fields_skip:
  "k \<notin> Key ` set cs \<Longrightarrow> clean_fields ((k, v) # m) cs = clean_fields m cs"
  by (induction cs) (auto simp: Let_def field_Cons)

text \<open>Cleaned fields are trimmed and not empty, so cleaning them again changes nothing.\<close>

lemma clean_fields_idem: "clean_fields fs cs = Some m \<Longrightarrow> distinct (map Key cs) \<Longrightarrow> clean_fields m cs = Some m"
proof (induction cs arbitrary: m)
  case (Cons c cs)
  have d: "Key c \<notin> Key ` set cs" "distinct (map Key cs)" using Cons.prems(2) by simp_all
  from Cons.prems(1) show ?case
  proof (cases rule: clean_fields_ConsE)
    case skip
    have "map_of m (Key c) = None" using clean_fields_keys [OF skip(3)] d(1) by (auto simp: map_of_eq_None_iff)
    then have "field m (Key c) = ''''" by (simp add: field_def)
    then show ?thesis using skip(2) Cons.IH [OF skip(3) d(2)] by simp
  next
    case (keep m')
    have "clean_fields m cs = Some m'" using Cons.IH [OF keep(3) d(2)] clean_fields_skip [OF d(1)] keep(2) by simp
    moreover have "TrimSpace (field m (Key c)) = TrimSpace (field fs (Key c))" using keep(2) by (simp add: field_def)
    ultimately show ?thesis using keep(1,2) by (simp add: Let_def)
  qed
qed simp

lemma members_skip: "k \<notin> Key ` set cs \<Longrightarrow> map (provider_member ((k, v) # m)) cs = map (provider_member m) cs"
  by (auto simp: provider_member_def)

text \<open>Of cleaned fields the provider object carries every one, in the order of the registry.\<close>

lemma clean_fields_members:
  "clean_fields fs cs = Some m \<Longrightarrow> distinct (map Key cs) \<Longrightarrow> concat (map (provider_member m) cs) = map (\<lambda>(k, v). (k, JStr v)) m"
proof (induction cs arbitrary: m)
  case (Cons c cs)
  have d: "Key c \<notin> Key ` set cs" "distinct (map Key cs)" using Cons.prems(2) by simp_all
  from Cons.prems(1) show ?case
  proof (cases rule: clean_fields_ConsE)
    case skip
    then have "map_of m (Key c) = None" using clean_fields_keys [OF skip(3)] d(1) by (auto simp: map_of_eq_None_iff)
    then show ?thesis using Cons.IH [OF skip(3) d(2)] by (simp add: provider_member_def)
  next
    case (keep m')
    have "provider_member m c = [(Key c, JStr (TrimSpace (field fs (Key c))))]" using keep(1,2) by (simp add: provider_member_def)
    moreover have "map (provider_member m) cs = map (provider_member m') cs" unfolding keep(2) by (rule members_skip [OF d(1)])
    ultimately show ?thesis using Cons.IH [OF keep(3) d(2)] keep(2) by (simp only: list.map concat.simps) simp
  qed
qed simp

lemma registry_keys: "map_of dnsProviders slug = Some p \<Longrightarrow> distinct (map Key (Fields_of p))"
  using dnsProviders_keys by (auto simp: list_all_iff dest!: map_of_SomeD)

lemma unmarshal_strings: "unmarshal_string_map (JObj (map (\<lambda>(k, v). (k, JStr v)) m)) = Some (Some m)"
  by (induction m) (auto simp: list_all_iff)

section \<open>Property\<close>


definition w_fields :: fields where
  "w_fields = [(''endpoint'', '' ovh-eu ''), (''application_key'', ''k''), (''application_secret'', ''s''), (''consumer_key'', ''c''), (''other'', ''x'')]"

definition w_clean :: fields where
  "w_clean = [(''endpoint'', ''ovh-eu''), (''application_key'', ''k''), (''application_secret'', ''s''), (''consumer_key'', ''c'')]"

definition w_codec :: go_env where
  "w_codec = \<lparr>regexp_compiles = \<lambda>_. True, json_decode = \<lambda>s. if s = ''{}'' then Some (JObj (map (\<lambda>(k, v). (k, JStr v)) w_clean)) else None,
     json_encode = \<lambda>v. Some ''{}'', idna_ToASCII = Some, url_Parse = \<lambda>_. None\<rparr>"


end
