(* ===== verification/Stream_Config.thy ===== *)
theory Stream_Config
  imports Route_Handlers
begin

text \<open>
  The layer-4 forwards of a node (\<open>internal/caddyapi/stream.go\<close>): the \<open>apps.layer4\<close> block built from the
  stream routes, one server per protocol and port. A definition returns \<^term>\<open>None\<close> where \<open>itoa\<close> panics;
  \<open>buildLayer4App\<close> returns \<open>Some None\<close> for Go's nil map.
\<close>

record StreamUpstream =
  Address :: string
  Weight :: int

record StreamRoute =
  st_ID :: int
  Protocol :: string
  ListenPort :: int
  st_UpstreamIP :: string
  st_UpstreamPort :: int
  st_Upstreams :: "StreamUpstream list"
  MatchMode :: string
  MatchValues :: "string list"
  st_LBPolicy :: string
  ProxyProtoIn :: string
  ProxyProtoTrusted :: "string list"
  ProxyProtoOut :: string
  CIDRAllow :: "string list"
  CIDRDeny :: "string list"

definition protoList :: "string \<Rightarrow> string list" where
  "protoList p = (if p = ''udp'' then [''udp''] else if p = ''both'' then [''tcp'', ''udp''] else [''tcp''])"

definition listener_key :: "StreamRoute \<Rightarrow> string \<Rightarrow> string option" where
  "listener_key r p = map_option (\<lambda>port. p @ ''_'' @ port) (itoa (ListenPort r))"

definition StreamListenerKeys :: "StreamRoute \<Rightarrow> string list option" where
  "StreamListenerKeys r = those (map (listener_key r) (protoList (Protocol r)))"

definition normLBPolicy :: "string \<Rightarrow> string" where
  "normLBPolicy p = (if p \<in> {''random'', ''least_conn'', ''first''} then p else ''round_robin'')"

definition buildUpstreamList :: "StreamRoute \<Rightarrow> json list option" where
  "buildUpstreamList r =
     (if st_Upstreams r \<noteq> [] then Some (map (\<lambda>u. JObj [(''dial'', jstrs [Address u])]) (st_Upstreams r))
      else map_option (\<lambda>d. [JObj [(''dial'', jstrs [d])]]) (dial (st_UpstreamIP r) (st_UpstreamPort r)))"

definition buildProxyHandler :: "StreamRoute \<Rightarrow> json option" where
  "buildProxyHandler r = do {
     upstreams \<leftarrow> buildUpstreamList r;
     let policy = normLBPolicy (st_LBPolicy r);
     Some (JObj ([(''handler'', JStr ''proxy''), (''upstreams'', JArr upstreams)]
       @ jopt (1 < length upstreams \<or> policy \<noteq> '''' \<and> policy \<noteq> ''round_robin'') ''load_balancing''
           (JObj [(''selection'', JObj [(''policy'', JStr policy)])])
       @ jopt (ProxyProtoOut r \<in> {''v1'', ''v2''}) ''proxy_protocol'' (JStr (ProxyProtoOut r))))
   }"

definition buildL4Matcher :: "StreamRoute \<Rightarrow> json option" where
  "buildL4Matcher r =
     (if MatchValues r = [] then None
      else if MatchMode r = ''sni'' then Some (JObj [(''tls'', JObj [(''sni'', jstrs (MatchValues r))])])
      else if MatchMode r = ''http_host'' then Some (JObj [(''http'', JArr [JObj [(''host'', jstrs (MatchValues r))]])])
      else None)"

definition close_handle :: json where
  "close_handle = JArr [JObj [(''handler'', JStr ''close'')]]"

definition not_remote_ip :: "string list \<Rightarrow> json" where
  "not_remote_ip ranges = JObj [(''not'', JArr [JObj [(''remote_ip'', JObj [(''ranges'', jstrs ranges)])]])]"

definition buildL4ACLRoutes :: "StreamRoute \<Rightarrow> json list" where
  "buildL4ACLRoutes r =
     (if CIDRDeny r \<noteq> []
      then [JObj [(''match'', JArr [JObj [(''remote_ip'', JObj [(''ranges'', jstrs (CIDRDeny r))])]]), (''handle'', close_handle)]]
      else []) @
     (if CIDRAllow r \<noteq> []
      then [JObj [(''match'', JArr [not_remote_ip (CIDRAllow r)]), (''handle'', close_handle)]]
      else [])"

definition l4_proxy_route :: "StreamRoute \<Rightarrow> json \<Rightarrow> json" where
  "l4_proxy_route r h =
     JObj ((''handle'', JArr [h]) # (case buildL4Matcher r of None \<Rightarrow> [] | Some m \<Rightarrow> [(''match'', JArr [m])]))"

definition l4_trusted_routes :: "StreamRoute \<Rightarrow> json list \<Rightarrow> json list" where
  "l4_trusted_routes r inner =
     (if ProxyProtoTrusted r = [] then [JObj [(''handle'', close_handle)]]
      else [JObj [(''match'', JArr [not_remote_ip (ProxyProtoTrusted r)]), (''handle'', close_handle)],
            JObj [(''handle'', JArr
              [JObj [(''handler'', JStr ''proxy_protocol''), (''timeout'', JStr ''5s''), (''allow'', jstrs (ProxyProtoTrusted r))],
               JObj [(''handler'', JStr ''subroute''), (''routes'', JArr inner)]])]])"

definition buildL4Server :: "string \<Rightarrow> StreamRoute \<Rightarrow> json option" where
  "buildL4Server proto r = do {
     port \<leftarrow> itoa (ListenPort r);
     h \<leftarrow> buildProxyHandler r;
     let inner = buildL4ACLRoutes r @ [l4_proxy_route r h];
     let routes = (if ProxyProtoIn r \<in> {''v1'', ''v2''} then l4_trusted_routes r inner else inner);
     Some (JObj [(''listen'', jstrs [proto @ ''/:'' @ port]), (''routes'', JArr routes)])
   }"

definition add_server :: "StreamRoute \<times> string \<Rightarrow> (string \<times> json) list \<Rightarrow> (string \<times> json) list option" where
  "add_server rp servers = do {
     key \<leftarrow> listener_key (fst rp) (snd rp);
     if key \<in> fst ` set servers then Some servers
     else map_option (\<lambda>v. servers @ [(key, v)]) (buildL4Server (snd rp) (fst rp))
   }"

fun add_servers :: "(StreamRoute \<times> string) list \<Rightarrow> (string \<times> json) list \<Rightarrow> (string \<times> json) list option" where
  "add_servers [] servers = Some servers"
| "add_servers (rp # rest) servers = Option.bind (add_server rp servers) (add_servers rest)"

definition route_protos :: "StreamRoute list \<Rightarrow> (StreamRoute \<times> string) list" where
  "route_protos routes = concat (map (\<lambda>r. map (Pair r) (protoList (Protocol r))) routes)"

definition buildLayer4App :: "StreamRoute list \<Rightarrow> json option option" where
  "buildLayer4App routes =
     (if routes = [] then Some None
      else map_option (\<lambda>servers. Some (JObj [(''servers'', JObj servers)])) (add_servers (route_protos routes) []))"

section \<open>Lemmas\<close>

lemma add_servers_keys:
  assumes "add_servers rps servers = Some out" "distinct (map fst servers)"
  shows "distinct (map fst out) \<and> set (map fst servers) \<subseteq> set (map fst out) \<and>
    set (map Some (map fst out)) = set (map Some (map fst servers)) \<union> set (map (\<lambda>(r, p). listener_key r p) rps)"
  using assms
proof (induction rps arbitrary: servers)
  case (Cons rp rps)
  then obtain servers' where s: "add_server rp servers = Some servers'" "add_servers rps servers' = Some out"
    by (auto split: bind_splits)
  then obtain key where k: "listener_key (fst rp) (snd rp) = Some key" and
    d: "servers' = servers \<and> key \<in> fst ` set servers \<or> (\<exists>v. servers' = servers @ [(key, v)]) \<and> key \<notin> fst ` set servers"
    by (auto simp: add_server_def split: bind_splits if_split_asm)
  then have "distinct (map fst servers')" "set (map fst servers') = insert key (set (map fst servers))"
    using Cons.prems(2) by auto
  with Cons.IH [OF s(2)] k show ?case by (auto simp: case_prod_beta)
qed simp

text \<open>Every listener has one server, and a listener claimed by two routes goes to the first.\<close>

lemma add_servers_keep:
  "add_servers rps servers = Some out \<Longrightarrow> map_of servers k = Some v \<Longrightarrow> map_of out k = Some v"
proof (induction rps arbitrary: servers)
  case (Cons rp rps)
  then obtain servers' where s: "add_server rp servers = Some servers'" "add_servers rps servers' = Some out"
    by (auto split: bind_splits)
  then have "map_of servers' k = Some v"
    using Cons.prems(2) by (auto simp: add_server_def map_add_def split: bind_splits if_split_asm)
  then show ?case using Cons.IH [OF s(2)] by simp
qed simp

end
