(* ===== verification/Node_Config.thy ===== *)
theory Node_Config
  imports Dns_Providers Stream_Config Route_Order Route_Builder "HOL-Library.AList"
begin

text \<open>
  The configuration of a node (\<open>internal/caddyapi/config.go\<close>): \<open>BuildNodeConfig\<close> turns the routes and the
  settings of a node into the JSON document that is posted to Caddy. Conditional map entries are
  \<^const>\<open>jopt\<close>; \<^term>\<open>None\<close> is a panic of \<open>itoa\<close>. \<open>pd\<close> is \<open>pem.Decode\<close>: the type and the bytes of the first
  block and what follows it. Record fields that would clash with those of a route carry the prefix
  \<open>ns\<close>.
\<close>

record WildcardPolicy =
  Zone :: string
  Provider :: string
  Fields_val :: fields

record WstunnelRoute =
  NodeID :: int
  Hostname :: string
  ws_Port :: int

record ManualCertPEM =
  CertPEM :: string
  KeyPEM :: string

record NodeSettings =
  ACMEEmail :: string
  ACMEStaging :: bool
  ACMECaURL :: string
  ACMEEabKID :: string
  ACMEEabHMAC :: string
  AskURL :: string
  PanelRoute :: "route option"
  AdminListen :: string
  ns_CacheModuleAvailable :: bool
  Layer4ModuleAvailable :: bool
  StreamRoutes :: "StreamRoute list"
  ns_RateLimitModuleAvailable :: bool
  ns_WAFModuleAvailable :: bool
  ns_WAFFailOpen :: bool
  ns_GeoModuleAvailable :: bool
  DNS01ModuleAvailable :: bool
  WildcardPolicies :: "WildcardPolicy list"
  ns_ErrorBranding :: ErrorBrandingRec
  Wstunnel :: "WstunnelRoute option"
  AccessLogURL :: string
  MTLSFailOpen :: bool
  PQCurveAvailable :: bool
  ProxyProtocolIn :: bool
  ProxyProtocolAllow :: string
  ProxyProtocolTimeoutMs :: int
  TrustCloudflareIP :: bool
  CloudflareRanges :: "string list"
  ManualCerts :: "ManualCertPEM list"

type_synonym pem_decoder = "string \<Rightarrow> ((string \<times> string) \<times> string) option"

section \<open>Wildcard zones\<close>

definition dnsZones :: "NodeSettings \<Rightarrow> string list" where
  "dnsZones s =
     (if \<not> DNS01ModuleAvailable s then []
      else map Zone (filter (\<lambda>wp. providerJSON (Provider wp) (Fields_val wp) \<noteq> None) (WildcardPolicies s)))"

definition with_wildcard_host :: "string list \<Rightarrow> route \<Rightarrow> route" where
  "with_wildcard_host zones r =
     (if WildcardZone r = '''' \<or> WildcardZone r \<notin> set zones \<or> RequireClientCert r \<or> TLSPQOnly r then r
      else let h = ''*.'' @ WildcardZone r in if h \<in> set (Hosts r) then r else r\<lparr>Hosts := Hosts r @ [h]\<rparr>)"

definition withWildcardHosts :: "route list \<Rightarrow> string list \<Rightarrow> route list" where
  "withWildcardHosts routes zones = (if zones = [] then routes else map (with_wildcard_host zones) routes)"

section \<open>Certificate issuers\<close>

definition letsencrypt_staging :: string where
  "letsencrypt_staging = ''https://acme-staging-v02.api.letsencrypt.org/directory''"

definition applyACMECA :: "(string \<times> json) list \<Rightarrow> NodeSettings \<Rightarrow> (string \<times> json) list" where
  "applyACMECA issuer s =
     (let caURL = ToLower (TrimSpace (ACMECaURL s)) in
      if caURL = '''' \<or> caURL = ''letsencrypt'' then issuer
      else if caURL = ''zerossl'' then
        (let issuer = AList.update ''ca'' (JStr ''https://acme.zerossl.com/v2/DV90'') issuer in
         if ACMEEabKID s \<noteq> '''' \<and> ACMEEabHMAC s \<noteq> ''''
         then AList.update ''external_account''
           (JObj [(''key_id'', JStr (ACMEEabKID s)), (''mac_key'', JStr (ACMEEabHMAC s))]) issuer
         else issuer)
      else AList.update ''ca'' (JStr (ACMECaURL s)) issuer)"

definition with_staging :: "NodeSettings \<Rightarrow> (string \<times> json) list \<Rightarrow> (string \<times> json) list" where
  "with_staging s issuer = (if ACMEStaging s then AList.update ''ca'' (JStr letsencrypt_staging) issuer else issuer)"

definition acmeIssuer :: "NodeSettings \<Rightarrow> (string \<times> json) list" where
  "acmeIssuer s = with_staging s (applyACMECA [(''module'', JStr ''acme''), (''email'', JStr (ACMEEmail s))] s)"

definition dnsIssuer :: "NodeSettings \<Rightarrow> json \<Rightarrow> (string \<times> json) list" where
  "dnsIssuer s prov =
     with_staging s (applyACMECA
       [(''module'', JStr ''acme''), (''email'', JStr (ACMEEmail s)),
        (''challenges'', JObj [(''dns'', JObj [(''provider'', prov)])])] s)"

definition wildcard_policy :: "NodeSettings \<Rightarrow> WildcardPolicy \<Rightarrow> json list" where
  "wildcard_policy s wp =
     (case providerJSON (Provider wp) (Fields_val wp) of
        None \<Rightarrow> []
      | Some prov \<Rightarrow> [JObj [(''subjects'', jstrs [''*.'' @ Zone wp, Zone wp]), (''issuers'', JArr [JObj (dnsIssuer s prov)])]])"

fun dedup_from :: "string set \<Rightarrow> string list \<Rightarrow> string list" where
  "dedup_from seen [] = []"
| "dedup_from seen (h # hs) =
     (if h = '''' \<or> h \<in> seen then dedup_from seen hs else h # dedup_from (insert h seen) hs)"

definition pqSubjects :: "route list \<Rightarrow> bool \<Rightarrow> string list" where
  "pqSubjects routes pqAvailable =
     (if \<not> pqAvailable then [] else dedup_from {} (concat (map Hosts (filter TLSPQOnly routes))))"

definition tls_policies :: "NodeSettings \<Rightarrow> route list \<Rightarrow> json list" where
  "tls_policies s routes =
     (if DNS01ModuleAvailable s then concat (map (wildcard_policy s) (WildcardPolicies s)) else []) @
     (let subs = pqSubjects routes (PQCurveAvailable s) in
      if subs \<noteq> [] then
        [JObj [(''subjects'', jstrs subs), (''on_demand'', JBool True),
               (''issuers'', JArr [JObj (AList.update ''challenges''
                  (JObj [(''tls-alpn'', JObj [(''disabled'', JBool True)])]) (acmeIssuer s))])]]
      else []) @
     [JObj [(''on_demand'', JBool True), (''issuers'', JArr [JObj (acmeIssuer s)])]]"

definition load_pem_entry :: "ManualCertPEM \<Rightarrow> json list" where
  "load_pem_entry c =
     (if TrimSpace (CertPEM c) = '''' \<or> TrimSpace (KeyPEM c) = '''' then []
      else [JObj [(''certificate'', JStr (CertPEM c)), (''key'', JStr (KeyPEM c))]])"

definition buildLoadPEM :: "ManualCertPEM list \<Rightarrow> json list" where
  "buildLoadPEM certs = concat (map load_pem_entry certs)"

definition tls_certificates :: "NodeSettings \<Rightarrow> (string \<times> json) list" where
  "tls_certificates s =
     jopt (buildLoadPEM (ManualCerts s) \<noteq> []) ''load_pem'' (JArr (buildLoadPEM (ManualCerts s))) @
     jopt (dnsZones s \<noteq> []) ''automate'' (jstrs (concat (map (\<lambda>z. [''*.'' @ z, z]) (dnsZones s))))"

definition tlsApp :: "NodeSettings \<Rightarrow> route list \<Rightarrow> json" where
  "tlsApp s routes =
     JObj ((''automation'', JObj
         [(''on_demand'', JObj [(''permission'', JObj [(''module'', JStr ''http''), (''endpoint'', JStr (AskURL s))])]),
          (''policies'', JArr (tls_policies s routes))])
       # jopt (tls_certificates s \<noteq> []) ''certificates'' (JObj (tls_certificates s)))"

section \<open>Trust anchors\<close>

text \<open>\<open>base64.StdEncoding.EncodeToString\<close>.\<close>

definition b64_char :: "nat \<Rightarrow> char" where
  "b64_char n =
     (if n < 26 then char_of (65 + n) else if n < 52 then char_of (71 + n) else if n < 62 then char_of (n - 4)
      else if n = 62 then CHR ''+'' else CHR ''/'')"

fun base64_std :: "string \<Rightarrow> string" where
  "base64_std [] = []"
| "base64_std [a] = (let n = byte a * 16 in [b64_char (n div 64), b64_char (n mod 64), CHR ''='', CHR ''=''])"
| "base64_std [a, b] =
     (let n = (byte a * 256 + byte b) * 4 in
      [b64_char (n div 4096), b64_char (n div 64 mod 64), b64_char (n mod 64), CHR ''=''])"
| "base64_std (a # b # c # rest) =
     (let n = byte a * 65536 + byte b * 256 + byte c in
      [b64_char (n div 262144), b64_char (n div 4096 mod 64), b64_char (n div 64 mod 64), b64_char (n mod 64)] @ base64_std rest)"

text \<open>The loop over \<open>pem.Decode\<close>; every block takes at least one byte, so the length of the input is
  enough fuel.\<close>

fun pem_certs :: "pem_decoder \<Rightarrow> nat \<Rightarrow> string \<Rightarrow> string list" where
  "pem_certs pd 0 rest = []"
| "pem_certs pd (Suc fuel) rest =
     (case pd rest of
        None \<Rightarrow> []
      | Some ((typ, bytes), left) \<Rightarrow>
          (if typ \<noteq> ''CERTIFICATE'' then pem_certs pd fuel left else base64_std bytes # pem_certs pd fuel left))"

definition pemCertsToBase64DER :: "pem_decoder \<Rightarrow> string \<Rightarrow> string list" where
  "pemCertsToBase64DER pd bundle = pem_certs pd (Suc (length bundle)) bundle"

definition MTLSCAUsable :: "pem_decoder \<Rightarrow> string \<Rightarrow> bool" where
  "MTLSCAUsable pd bundle \<longleftrightarrow> pemCertsToBase64DER pd bundle \<noteq> []"

section \<open>Connection policies\<close>

record hostConnPolicy =
  caPEM :: string
  pq :: bool

text \<open>The merge of the first loop. Updating an association list appends a new key at the end, so the keys
  are Go's slice \<open>hosts\<close> and the pairs its map \<open>merged\<close>.\<close>

definition merge_host :: "string \<Rightarrow> bool \<Rightarrow> string \<Rightarrow> (string \<times> hostConnPolicy) list \<Rightarrow> (string \<times> hostConnPolicy) list" where
  "merge_host ca q h merged =
     (let cur = (case map_of merged h of Some p \<Rightarrow> p | None \<Rightarrow> \<lparr>caPEM = '''', pq = False\<rparr>) in
      AList.update h \<lparr>caPEM = (if caPEM cur = '''' then ca else caPEM cur), pq = pq cur \<or> q\<rparr> merged)"

definition route_ca :: "pem_decoder \<Rightarrow> route \<Rightarrow> string" where
  "route_ca pd r = (if RequireClientCert r \<and> MTLSCAUsable pd (MTLSCACertPEM r) then MTLSCACertPEM r else '''')"

definition merge_route :: "pem_decoder \<Rightarrow> bool \<Rightarrow> route \<Rightarrow> (string \<times> hostConnPolicy) list \<Rightarrow> (string \<times> hostConnPolicy) list" where
  "merge_route pd pqAvailable r merged =
     (let ca = route_ca pd r; q = (TLSPQOnly r \<and> pqAvailable) in
      if ca = '''' \<and> \<not> q then merged else fold (merge_host ca q) (Hosts r) merged)"

definition merged_policies :: "pem_decoder \<Rightarrow> bool \<Rightarrow> route list \<Rightarrow> (string \<times> hostConnPolicy) list" where
  "merged_policies pd pqAvailable routes = fold (merge_route pd pqAvailable) routes []"

text \<open>The second loop: a host with the policy of its predecessor joins its entry.\<close>

definition add_sni :: "string \<times> hostConnPolicy \<Rightarrow> (hostConnPolicy \<times> string list) list \<Rightarrow> (hostConnPolicy \<times> string list) list" where
  "add_sni hp out =
     (if out \<noteq> [] \<and> fst (last out) = snd hp then butlast out @ [(snd hp, snd (last out) @ [fst hp])]
      else out @ [(snd hp, [fst hp])])"

definition sni_groups :: "(string \<times> hostConnPolicy) list \<Rightarrow> (hostConnPolicy \<times> string list) list" where
  "sni_groups merged = fold add_sni merged []"

definition client_auth :: "pem_decoder \<Rightarrow> bool \<Rightarrow> string \<Rightarrow> json" where
  "client_auth pd failOpen ca =
     JObj [(''ca'', JObj [(''provider'', JStr ''inline''), (''trusted_ca_certs'', jstrs (pemCertsToBase64DER pd ca))]),
           (''mode'', JStr (if failOpen then ''verify_if_given'' else ''require_and_verify''))]"

definition conn_policy :: "pem_decoder \<Rightarrow> bool \<Rightarrow> hostConnPolicy \<times> string list \<Rightarrow> json" where
  "conn_policy pd failOpen = (\<lambda>(p, hs).
     JObj ((''match'', JObj [(''sni'', jstrs hs)])
       # jopt (caPEM p \<noteq> '''') ''client_authentication'' (client_auth pd failOpen (caPEM p))
       @ jopt (pq p) ''curves'' (jstrs [''x25519mlkem768''])
       @ jopt (pq p) ''protocol_min'' (JStr ''tls1.3'')))"

definition buildConnPolicies :: "pem_decoder \<Rightarrow> route list \<Rightarrow> bool \<Rightarrow> bool \<Rightarrow> json list" where
  "buildConnPolicies pd routes failOpen pqAvailable =
     (let out = map (conn_policy pd failOpen) (sni_groups (merged_policies pd pqAvailable routes)) in
      if out \<noteq> [] then out @ [JObj []] else [])"

definition hasClientAuth :: "json list \<Rightarrow> bool" where
  "hasClientAuth pols = list_ex (\<lambda>p. jget p ''client_authentication'' \<noteq> None) pols"

definition CaddySupportsPQCurve :: "string \<Rightarrow> bool" where
  "CaddySupportsPQCurve version =
     (let v = TrimPrefix (TrimPrefix (TrimSpace version) ''v'') ''V'';
          v = (case IndexAny v (''-+ '' @ [CHR 0x09]) of Some i \<Rightarrow> take i v | None \<Rightarrow> v)
      in case Split v (CHR ''.'') of
           a # b # _ \<Rightarrow>
             (case (Atoi a, Atoi b) of
                (Some major, Some minor) \<Rightarrow> 2 < major \<or> major = 2 \<and> 10 \<le> minor
              | _ \<Rightarrow> False)
         | _ \<Rightarrow> False)"

section \<open>The server\<close>

definition adminListenOr :: "string \<Rightarrow> string" where
  "adminListenOr listen = (if listen = '''' then ''0.0.0.0:2019'' else listen)"

definition EmptyNodeConfig :: "string \<Rightarrow> json" where
  "EmptyNodeConfig adminListen = JObj [(''admin'', JObj [(''listen'', JStr (adminListenOr adminListen))])]"

definition buildProxyProtocolWrappers :: "NodeSettings \<Rightarrow> json option option" where
  "buildProxyProtocolWrappers s =
     (if \<not> ProxyProtocolIn s then Some None
      else do {
        timeout \<leftarrow> msDur (ProxyProtocolTimeoutMs s) 5000;
        let allow = splitCIDRList (ProxyProtocolAllow s) False;
        Some (Some (JArr
          [JObj ([(''wrapper'', JStr ''proxy_protocol''), (''timeout'', JStr timeout)] @ jopt (allow \<noteq> []) ''allow'' (jstrs allow)),
           JObj [(''wrapper'', JStr ''tls'')]]))
      })"

definition buildWstunnelCaddyRoute :: "WstunnelRoute \<Rightarrow> json" where
  "buildWstunnelCaddyRoute wr =
     JObj [(''@id'', JStr (''hpg_wstunnel_'' @ Itoa (NodeID wr))),
           (''match'', JArr [JObj [(''host'', jstrs [Hostname wr]), (''path'', jstrs [''/wg-tunnel*''])]]),
           (''handle'', JArr [JObj
              [(''handler'', JStr ''reverse_proxy''),
               (''upstreams'', JArr [JObj [(''dial'', JStr (''host.docker.internal:'' @ Itoa (ws_Port wr)))]])]])]"

text \<open>The capabilities of the node, written onto a route before it is built.\<close>

definition with_modules :: "NodeSettings \<Rightarrow> route \<Rightarrow> route" where
  "with_modules s r = r\<lparr>CacheModuleAvailable := ns_CacheModuleAvailable s,
     RateLimitModuleAvailable := ns_RateLimitModuleAvailable s, WAFModuleAvailable := ns_WAFModuleAvailable s,
     WAFFailOpen := ns_WAFFailOpen s, GeoModuleAvailable := ns_GeoModuleAvailable s\<rparr>"

definition wstunnel_routes :: "NodeSettings \<Rightarrow> json list" where
  "wstunnel_routes s =
     (case Wstunnel s of
        None \<Rightarrow> []
      | Some wr \<Rightarrow> if Hostname wr \<noteq> '''' \<and> 0 < ws_Port wr then [buildWstunnelCaddyRoute wr] else [])"

definition node_routes :: "go_env \<Rightarrow> NodeSettings \<Rightarrow> route list \<Rightarrow> json list option" where
  "node_routes env s routes = do {
     panel \<leftarrow> (case PanelRoute s of None \<Rightarrow> Some [] | Some pr \<Rightarrow> map_option (\<lambda>j. [j]) (BuildRoute env (with_modules s pr)));
     rs \<leftarrow> those (map (\<lambda>r. BuildRoute env (with_modules s r)) routes);
     Some (panel @ wstunnel_routes s @ rs)
   }"

definition srv0 :: "pem_decoder \<Rightarrow> NodeSettings \<Rightarrow> route list \<Rightarrow> json list \<Rightarrow> json option" where
  "srv0 pd s routes out = do {
     wrappers \<leftarrow> buildProxyProtocolWrappers s;
     let pols = buildConnPolicies pd routes (MTLSFailOpen s) (PQCurveAvailable s);
     let cf = (TrustCloudflareIP s \<and> CloudflareRanges s \<noteq> []);
     Some (JObj ([(''listen'', jstrs ['':80'', '':443'', ''[::]:80'', ''[::]:443'']), (''routes'', JArr out),
        (''protocols'', jstrs [''h1'', ''h2'']), (''metrics'', JObj []),
        (''errors'', JObj [(''routes'', JArr (buildErrorRoutes (ns_ErrorBranding s)))])]
       @ jopt (AccessLogURL s \<noteq> '''') ''logs'' (JObj [])
       @ jopt (pols \<noteq> []) ''tls_connection_policies'' (JArr pols)
       @ jopt (pols \<noteq> [] \<and> hasClientAuth pols) ''strict_sni_host'' (JBool True)
       @ (case wrappers of None \<Rightarrow> [] | Some lw \<Rightarrow> [(''listener_wrappers'', lw)])
       @ jopt cf ''trusted_proxies'' (JObj [(''source'', JStr ''static''), (''ranges'', jstrs (CloudflareRanges s))])
       @ jopt cf ''client_ip_headers'' (jstrs [''CF-Connecting-IP''])))
   }"

section \<open>The document\<close>

definition caches :: "go_env \<Rightarrow> route \<Rightarrow> bool" where
  "caches env r \<longleftrightarrow> CacheEnabled r \<and> CachePublic r \<and> \<not> RouteAuthGated env r"

definition cacheNeeded :: "go_env \<Rightarrow> NodeSettings \<Rightarrow> route list \<Rightarrow> bool" where
  "cacheNeeded env s routes \<longleftrightarrow> ns_CacheModuleAvailable s \<and>
     ((case PanelRoute s of Some pr \<Rightarrow> caches env pr | None \<Rightarrow> False) \<or> list_ex (caches env) routes)"

definition cache_app :: json where
  "cache_app =
     JObj [(''ttl'', JStr ''60s''), (''stale'', JStr ''0s''), (''default_cache_control'', JStr ''no-store''),
       (''allowed_http_verbs'', jstrs [''GET'', ''HEAD'']),
       (''key'', JObj [(''headers'', jstrs [''Cookie'', ''Authorization''])]),
       (''timeout'', JObj [(''backend'', JStr ''60s''), (''cache'', JStr ''10ms'')]),
       (''api'', JObj [(''basepath'', JStr ''/souin-api''), (''souin'', JObj [(''basepath'', JStr ''/souin'')])])]"

definition access_logging :: json where
  "access_logging =
     JObj [(''logs'', JObj [(''hpg_access'', JObj
       [(''encoder'', JObj [(''format'', JStr ''json'')]), (''include'', JArr [JStr ''http.log.access'']),
        (''writer'', JObj [(''output'', JStr ''file''), (''filename'', JStr ''/var/log/caddy/access.log''),
           (''roll'', JBool True), (''roll_size_mb'', JNum 20), (''roll_keep'', JNum 3), (''roll_keep_days'', JNum 7)])])])]"

definition layer4_entry :: "NodeSettings \<Rightarrow> (string \<times> json) list option" where
  "layer4_entry s =
     (if Layer4ModuleAvailable s \<and> StreamRoutes s \<noteq> []
      then map_option (\<lambda>l4. case l4 of None \<Rightarrow> [] | Some v \<Rightarrow> [(''layer4'', v)]) (buildLayer4App (StreamRoutes s))
      else Some [])"

definition node_document :: "go_env \<Rightarrow> pem_decoder \<Rightarrow> NodeSettings \<Rightarrow> route list \<Rightarrow> json option" where
  "node_document env pd s routes = do {
     out \<leftarrow> node_routes env s routes;
     server \<leftarrow> srv0 pd s routes out;
     l4 \<leftarrow> layer4_entry s;
     let apps = [(''http'', JObj [(''servers'', JObj [(''srv0'', server)])]), (''tls'', tlsApp s routes)]
       @ l4 @ jopt (cacheNeeded env s routes) ''cache'' cache_app;
     Some (JObj ([(''admin'', JObj [(''listen'', JStr (adminListenOr (AdminListen s)))]), (''apps'', JObj apps)]
       @ jopt (AccessLogURL s \<noteq> '''') ''logging'' access_logging))
   }"

definition BuildNodeConfig ::
  "((string \<times> nat list) list \<Rightarrow> (string \<times> nat list) list) \<Rightarrow> (nat list \<Rightarrow> nat list) \<Rightarrow>
   go_env \<Rightarrow> pem_decoder \<Rightarrow> route list \<Rightarrow> NodeSettings \<Rightarrow> json option" where
  "BuildNodeConfig host_perm group_perm env pd routes s =
     Option.bind (SortRoutesForEmission host_perm group_perm env (withWildcardHosts routes (dnsZones s))) (node_document env pd s)"

end
