(* ===== verification/Node_Properties.thy ===== *)
theory Node_Properties
  imports Node_Config Route_Properties
begin

text \<open>
  What the configuration of a node guarantees (\<open>BuildNodeConfig\<close> of \<open>internal/caddyapi/config.go\<close>): every
  route is in it once, in emission order; the cache module is mounted whenever a route uses it; a host
  that requires a client certificate gets a connection policy that demands one. Caddy picks the first
  policy whose server names cover the name of the handshake; \<open>covers pat name\<close> is that relation, a
  parameter.
\<close>

section \<open>Reading the document\<close>

definition srv0_of :: "json \<Rightarrow> json option" where
  "srv0_of doc = do { a \<leftarrow> jget doc ''apps''; h \<leftarrow> jget a ''http''; v \<leftarrow> jget h ''servers''; jget v ''srv0'' }"

definition app_of :: "string \<Rightarrow> json \<Rightarrow> json option" where
  "app_of name doc = Option.bind (jget doc ''apps'') (\<lambda>a. jget a name)"

definition sni_of :: "json \<Rightarrow> string list option" where
  "sni_of pol = do { m \<leftarrow> jget pol ''match''; a \<leftarrow> jget m ''sni''; Some (map (\<lambda>j. case j of JStr s \<Rightarrow> s | _ \<Rightarrow> '''') (jarr_of a)) }"

definition policy_for :: "(string \<Rightarrow> string \<Rightarrow> bool) \<Rightarrow> string \<Rightarrow> json list \<Rightarrow> json option" where
  "policy_for covers name pols =
     find (\<lambda>pol. case sni_of pol of None \<Rightarrow> True | Some pats \<Rightarrow> list_ex (\<lambda>p. covers p name) pats) pols"

section \<open>Merged policies\<close>

definition opts_in :: "pem_decoder \<Rightarrow> bool \<Rightarrow> route \<Rightarrow> bool" where
  "opts_in pd pqAvailable r \<longleftrightarrow> route_ca pd r \<noteq> '''' \<or> TLSPQOnly r \<and> pqAvailable"

lemma map_of_merge_host:
  "map_of (merge_host ca q h m) x =
     (if x = h then Some (let cur = (case map_of m h of Some p \<Rightarrow> p | None \<Rightarrow> \<lparr>caPEM = '''', pq = False\<rparr>) in
        \<lparr>caPEM = (if caPEM cur = '''' then ca else caPEM cur), pq = pq cur \<or> q\<rparr>) else map_of m x)"
  by (simp add: merge_host_def Let_def update_conv')

lemma merge_host_keeps:
  "map_of m x = Some p \<Longrightarrow> caPEM p \<noteq> '''' \<Longrightarrow> \<exists>p'. map_of (merge_host ca q h m) x = Some p' \<and> caPEM p' = caPEM p"
  by (auto simp: map_of_merge_host Let_def)

lemma merge_hosts_keep:
  "map_of m x = Some p \<Longrightarrow> caPEM p \<noteq> '''' \<Longrightarrow> \<exists>p'. map_of (fold (merge_host ca q) hs m) x = Some p' \<and> caPEM p' = caPEM p"
proof (induction hs arbitrary: m p)
  case (Cons h hs)
  obtain p' where p': "map_of (merge_host ca q h m) x = Some p'" "caPEM p' = caPEM p"
    using merge_host_keeps [OF Cons.prems] by blast
  have "caPEM p' \<noteq> ''''" using p'(2) Cons.prems(2) by simp
  from Cons.IH [OF p'(1) this] p'(2) show ?case by simp
qed simp

lemma merge_hosts_set:
  assumes "x \<in> set hs" "ca \<noteq> ''''"
  shows "\<exists>p. map_of (fold (merge_host ca q) hs m) x = Some p \<and> caPEM p \<noteq> ''''"
  using assms(1)
proof (induction hs arbitrary: m)
  case (Cons h hs)
  show ?case
  proof (cases "x = h")
    case True
    have "\<exists>p. map_of (merge_host ca q h m) x = Some p \<and> caPEM p \<noteq> ''''" using True assms(2) by (simp add: map_of_merge_host Let_def)
    then obtain p where "map_of (merge_host ca q h m) x = Some p" "caPEM p \<noteq> ''''" by blast
    from merge_hosts_keep [OF this] this(2) show ?thesis by fastforce
  next
    case False
    then show ?thesis using Cons by simp
  qed
qed simp

lemma merge_routes_keep:
  "map_of m x = Some p \<Longrightarrow> caPEM p \<noteq> '''' \<Longrightarrow> \<exists>p'. map_of (fold (merge_route pd pa) rs m) x = Some p' \<and> caPEM p' = caPEM p"
proof (induction rs arbitrary: m p)
  case (Cons r rs)
  have "\<exists>p'. map_of (merge_route pd pa r m) x = Some p' \<and> caPEM p' = caPEM p"
    using merge_hosts_keep [OF Cons.prems] Cons.prems(1) by (auto simp: merge_route_def Let_def)
  then obtain p' where p': "map_of (merge_route pd pa r m) x = Some p'" "caPEM p' = caPEM p" by blast
  have "caPEM p' \<noteq> ''''" using p'(2) Cons.prems(2) by simp
  from Cons.IH [OF p'(1) this] p'(2) show ?case by simp
qed simp

lemma merged_demands:
  assumes "r \<in> set rs" "route_ca pd r \<noteq> ''''" "x \<in> set (Hosts r)"
  shows "\<exists>p. map_of (fold (merge_route pd pa) rs m) x = Some p \<and> caPEM p \<noteq> ''''"
  using assms(1)
proof (induction rs arbitrary: m)
  case (Cons r' rs)
  show ?case
  proof (cases "r = r'")
    case True
    obtain p where p: "map_of (merge_route pd pa r' m) x = Some p" "caPEM p \<noteq> ''''"
      using True assms(2,3) merge_hosts_set [OF assms(3,2)] by (auto simp: merge_route_def Let_def)
    show ?thesis using merge_routes_keep [OF p] p(2) by fastforce
  next
    case False
    then show ?thesis using Cons by simp
  qed
qed simp

text \<open>A policy belongs to a host of a route that asks for one, and its trust anchor is one such a route
  names.\<close>

definition sourced :: "pem_decoder \<Rightarrow> bool \<Rightarrow> route set \<Rightarrow> (string \<times> hostConnPolicy) list \<Rightarrow> bool" where
  "sourced pd pa R m \<longleftrightarrow> distinct (map fst m) \<and>
     (\<forall>h p. map_of m h = Some p \<longrightarrow> (\<exists>r \<in> R. opts_in pd pa r \<and> h \<in> set (Hosts r)) \<and>
        (caPEM p = '''' \<or> (\<exists>r \<in> R. h \<in> set (Hosts r) \<and> caPEM p = route_ca pd r)))"

lemma merge_host_sourced:
  assumes "sourced pd pa R m" "r \<in> R" "opts_in pd pa r" "h \<in> set (Hosts r)"
  shows "sourced pd pa R (merge_host (route_ca pd r) q h m)"
proof -
  have "distinct (map fst (merge_host (route_ca pd r) q h m))"
    using assms(1) by (simp add: sourced_def merge_host_def Let_def distinct_update)
  moreover have "(\<exists>r \<in> R. opts_in pd pa r \<and> x \<in> set (Hosts r)) \<and>
      (caPEM p = '''' \<or> (\<exists>r \<in> R. x \<in> set (Hosts r) \<and> caPEM p = route_ca pd r))"
    if "map_of (merge_host (route_ca pd r) q h m) x = Some p" for x p
  proof (cases "x = h")
    case True
    then have "caPEM p = route_ca pd r \<or> (\<exists>c. map_of m h = Some c \<and> caPEM p = caPEM c)"
      using that by (cases "map_of m h") (auto simp: map_of_merge_host Let_def split: if_split_asm)
    then show ?thesis using True assms unfolding sourced_def by metis
  next
    case False
    then show ?thesis using that assms(1) by (simp add: map_of_merge_host sourced_def)
  qed
  ultimately show ?thesis by (simp add: sourced_def)
qed

lemma merge_hosts_sourced:
  assumes "r \<in> R" "opts_in pd pa r"
  shows "sourced pd pa R m \<Longrightarrow> set hs \<subseteq> set (Hosts r) \<Longrightarrow> sourced pd pa R (fold (merge_host (route_ca pd r) q) hs m)"
  by (induction hs arbitrary: m) (simp_all add: merge_host_sourced [OF _ assms])

lemma merged_sourced: "sourced pd pa R m \<Longrightarrow> set rs \<subseteq> R \<Longrightarrow> sourced pd pa R (fold (merge_route pd pa) rs m)"
proof (induction rs arbitrary: m)
  case (Cons r rs)
  have "sourced pd pa R (merge_route pd pa r m)"
    using Cons.prems merge_hosts_sourced [of r R pd pa m "Hosts r"]
    by (auto simp: merge_route_def Let_def opts_in_def)
  then show ?case using Cons by simp
qed simp

section \<open>Grouped policies\<close>

abbreviation flat :: "(hostConnPolicy \<times> string list) list \<Rightarrow> (string \<times> hostConnPolicy) list" where
  "flat groups \<equiv> concat (map (\<lambda>(p, hs). map (\<lambda>h. (h, p)) hs) groups)"

lemma flat_add_sni: "flat (add_sni hp out) = flat out @ [hp]"
proof (cases out rule: rev_cases)
  case (snoc xs x)
  then show ?thesis by (cases x, cases hp) (simp add: add_sni_def)
qed (simp add: add_sni_def)

lemma flat_fold: "flat (fold add_sni m out) = flat out @ m"
  by (induction m arbitrary: out) (simp_all add: flat_add_sni del: map_append concat_append)

lemma flat_sni_groups: "flat (sni_groups m) = m"
  by (simp add: sni_groups_def flat_fold)

lemma sni_conn_policy: "sni_of (conn_policy pd failOpen (p, hs)) = Some hs"
  by (simp add: sni_of_def conn_policy_def jstrs_def comp_def)

lemma find_first:
  "x \<in> set xs \<Longrightarrow> P x \<Longrightarrow> \<forall>y \<in> set xs. P y \<longrightarrow> y = x \<Longrightarrow> find P (xs @ ys) = Some x"
proof (induction xs)
  case (Cons a xs)
  show ?case
  proof (cases "P a")
    case True
    then have "a = x" using Cons.prems(3) by simp
    then show ?thesis using True by simp
  next
    case False
    then have "x \<in> set xs" using Cons.prems(1,2) by auto
    moreover have "\<forall>y \<in> set xs. P y \<longrightarrow> y = x" using Cons.prems(3) by (meson list.set_intros(2))
    ultimately have "find P (xs @ ys) = Some x" using Cons.IH Cons.prems(2) by blast
    then show ?thesis using False by simp
  qed
qed simp

lemma flat_keys: "h \<in> fst ` set (flat g) \<longleftrightarrow> (\<exists>p hs. (p, hs) \<in> set g \<and> h \<in> set hs)"
  by force

lemma flat_unique:
  "distinct (map fst (flat g)) \<Longrightarrow> (p, hs) \<in> set g \<Longrightarrow> (p', hs') \<in> set g \<Longrightarrow> h \<in> set hs \<Longrightarrow> h \<in> set hs' \<Longrightarrow> (p', hs') = (p, hs)"
proof (induction g)
  case (Cons x g)
  obtain q ks where x: "x = (q, ks)" by (cases x)
  have d: "distinct (map fst (flat g))" and dis: "set ks \<inter> fst ` set (flat g) = {}"
    using Cons.prems(1) by (auto simp: x comp_def)
  have apart: "h \<notin> set ks" if "(p'', hs'') \<in> set g" "h \<in> set hs''" for p'' hs''
    using dis flat_keys [of h g] that by blast
  show ?case using Cons.IH [OF d] Cons.prems(2-5) apart unfolding x by auto
qed simp

lemma policy_for_host:
  assumes m: "merged_policies pd pa rs = m" and h: "map_of m h = Some p" and d: "distinct (map fst m)"
    and only: "\<And>h'. h' \<in> fst ` set m \<Longrightarrow> covers h' h \<longleftrightarrow> h' = h"
  shows "\<exists>hs. policy_for covers h (buildConnPolicies pd rs failOpen pa) = Some (conn_policy pd failOpen (p, hs)) \<and> h \<in> set hs"
proof -
  let ?g = "sni_groups m"
  have hp: "(h, p) \<in> set (flat ?g)" using map_of_SomeD [OF h] by (simp only: flat_sni_groups)
  then obtain hs where hs: "(p, hs) \<in> set ?g" "h \<in> set hs" by auto
  have members: "h' \<in> fst ` set m" if "(p', hs') \<in> set ?g" "h' \<in> set hs'" for p' hs' h'
    using that flat_keys [of h' ?g] unfolding flat_sni_groups by blast
  have "distinct (map fst (flat ?g))" using d by (simp only: flat_sni_groups)
  note uniq = flat_unique [OF this hs(1) _ hs(2)]
  let ?P = "\<lambda>pol. case sni_of pol of None \<Rightarrow> True | Some pats \<Rightarrow> list_ex (\<lambda>p. covers p h) pats"
  have "covers h h" using only members [OF hs] by blast
  then have "?P (conn_policy pd failOpen (p, hs))" using hs(2) by (auto simp: sni_conn_policy list_ex_iff)
  moreover have "y = conn_policy pd failOpen (p, hs)" if yin: "y \<in> set (map (conn_policy pd failOpen) ?g)" and Py: "?P y" for y
  proof -
    from yin obtain p' hs' where y: "(p', hs') \<in> set ?g" "y = conn_policy pd failOpen (p', hs')" by auto
    then obtain h' where "h' \<in> set hs'" "covers h' h" using Py by (auto simp: sni_conn_policy list_ex_iff)
    then have "h \<in> set hs'" using only members [OF y(1)] by blast
    then show ?thesis using uniq y by simp
  qed
  ultimately have "find ?P (map (conn_policy pd failOpen) ?g @ [JObj []]) = Some (conn_policy pd failOpen (p, hs))"
    using hs(1) by (intro find_first ballI impI) simp_all
  moreover have "?g \<noteq> []" using hs(1) by auto
  ultimately show ?thesis using hs(2) by (auto simp: policy_for_def buildConnPolicies_def Let_def m)
qed

lemma sourcedD:
  assumes "sourced pd pa R m" "map_of m h = Some p"
  shows "\<exists>r \<in> R. opts_in pd pa r \<and> h \<in> set (Hosts r)" "caPEM p \<noteq> '''' \<Longrightarrow> \<exists>r \<in> R. h \<in> set (Hosts r) \<and> caPEM p = route_ca pd r"
  using assms unfolding sourced_def by metis+

lemma conn_policies_demand:
  fixes failOpen :: bool
  assumes "r \<in> set rs" "route_ca pd r \<noteq> ''''" "h \<in> set (Hosts r)"
    and only: "\<And>r' h'. r' \<in> set rs \<Longrightarrow> opts_in pd pa r' \<Longrightarrow> h' \<in> set (Hosts r') \<Longrightarrow> covers h' h \<longleftrightarrow> h' = h"
  defines "pols \<equiv> buildConnPolicies pd rs failOpen pa"
  shows "\<exists>pol r'. policy_for covers h pols = Some pol \<and> hasClientAuth pols \<and>
    jget pol ''client_authentication'' = Some (client_auth pd failOpen (route_ca pd r')) \<and>
    r' \<in> set rs \<and> h \<in> set (Hosts r') \<and> route_ca pd r' \<noteq> ''''"
proof -
  let ?m = "merged_policies pd pa rs"
  obtain p where p: "map_of ?m h = Some p" "caPEM p \<noteq> ''''"
    using merged_demands [OF assms(1-3)] by (auto simp: merged_policies_def)
  have src: "sourced pd pa (set rs) ?m"
    unfolding merged_policies_def by (rule merged_sourced) (simp_all add: sourced_def)
  obtain r' where r': "r' \<in> set rs" "h \<in> set (Hosts r')" "caPEM p = route_ca pd r'" using sourcedD(2) [OF src p] by blast
  have "covers h' h \<longleftrightarrow> h' = h" if "h' \<in> fst ` set ?m" for h'
  proof -
    have "map_of ?m h' \<noteq> None" using that by (simp add: map_of_eq_None_iff)
    then obtain q where "map_of ?m h' = Some q" by blast
    from sourcedD(1) [OF src this] obtain r'' where "r'' \<in> set rs" "opts_in pd pa r''" "h' \<in> set (Hosts r'')" by blast
    then show ?thesis by (rule only)
  qed
  note one = this
  have "distinct (map fst ?m)" using src by (simp add: sourced_def)
  from policy_for_host [of pd pa rs ?m h p covers failOpen, OF refl p(1) this one] obtain hs where
    pol: "policy_for covers h pols = Some (conn_policy pd failOpen (p, hs))" unfolding pols_def by blast
  have auth: "jget (conn_policy pd failOpen (p, hs)) ''client_authentication'' = Some (client_auth pd failOpen (caPEM p))"
    using p(2) by (simp add: conn_policy_def)
  have "conn_policy pd failOpen (p, hs) \<in> set pols" using pol by (auto simp: policy_for_def find_Some_iff)
  then have "hasClientAuth pols" using auth by (auto simp: hasClientAuth_def list_ex_iff)
  then show ?thesis using pol auth r' p(2) by auto
qed

section \<open>The document\<close>

lemma map_of_app: "map_of (a @ b) k = (case map_of a k of None \<Rightarrow> map_of b k | Some v \<Rightarrow> Some v)"
  by (simp add: map_add_def split: option.split)

lemma member_jopt: "map_of (jopt c k v) x = (if c \<and> x = k then Some v else None)"
  by (simp add: jopt_def)

lemma srv0_members:
  assumes "srv0 pd s rs out = Some srv"
  defines "pols \<equiv> buildConnPolicies pd rs (MTLSFailOpen s) (PQCurveAvailable s)"
  shows "jget srv ''routes'' = Some (JArr out)"
    "jget srv ''tls_connection_policies'' = (if pols \<noteq> [] then Some (JArr pols) else None)"
    "jget srv ''strict_sni_host'' = (if hasClientAuth pols then Some (JBool True) else None)"
proof -
  obtain w where w: "buildProxyProtocolWrappers s = Some w" using assms(1) by (auto simp: srv0_def split: bind_splits)
  have no: "pols = [] \<Longrightarrow> \<not> hasClientAuth pols" by (simp add: hasClientAuth_def)
  define tail where "tail = (case w of None \<Rightarrow> [] | Some lw \<Rightarrow> [(''listener_wrappers'', lw)])"
  have t: "map_of tail ''tls_connection_policies'' = None" "map_of tail ''strict_sni_host'' = None" by (cases w; simp add: tail_def)+
  define cf where "cf \<longleftrightarrow> TrustCloudflareIP s \<and> CloudflareRanges s \<noteq> []"
  define rest where "rest = jopt cf ''trusted_proxies'' (JObj [(''source'', JStr ''static''), (''ranges'', jstrs (CloudflareRanges s))])
    @ jopt cf ''client_ip_headers'' (jstrs [''CF-Connecting-IP''])"
  have rest: "map_of rest ''tls_connection_policies'' = None" "map_of rest ''strict_sni_host'' = None"
    by (simp_all add: rest_def map_of_app member_jopt del: map_of_append)
  have srv: "srv = JObj ([(''listen'', jstrs ['':80'', '':443'', ''[::]:80'', ''[::]:443'']), (''routes'', JArr out),
        (''protocols'', jstrs [''h1'', ''h2'']), (''metrics'', JObj []),
        (''errors'', JObj [(''routes'', JArr (buildErrorRoutes (ns_ErrorBranding s)))])]
       @ jopt (AccessLogURL s \<noteq> '''') ''logs'' (JObj [])
       @ jopt (pols \<noteq> []) ''tls_connection_policies'' (JArr pols)
       @ jopt (pols \<noteq> [] \<and> hasClientAuth pols) ''strict_sni_host'' (JBool True) @ tail @ rest)"
    using assms(1) w unfolding srv0_def Let_def pols_def [symmetric] tail_def rest_def cf_def by simp
  show "jget srv ''routes'' = Some (JArr out)" by (simp add: srv)
  show "jget srv ''tls_connection_policies'' = (if pols \<noteq> [] then Some (JArr pols) else None)"
    unfolding srv by (simp add: map_of_app member_jopt t rest del: map_of_append)
  show "jget srv ''strict_sni_host'' = (if hasClientAuth pols then Some (JBool True) else None)"
    unfolding srv using no by (simp add: map_of_app member_jopt t rest del: map_of_append)
qed

lemma layer4_keys:
  assumes "layer4_entry s = Some l4"
  shows "map_of l4 ''cache'' = None"
proof (cases "Layer4ModuleAvailable s \<and> StreamRoutes s \<noteq> []")
  case True
  then obtain z where "l4 = (case z of None \<Rightarrow> [] | Some v \<Rightarrow> [(''layer4'', v)])" using assms by (auto simp: layer4_entry_def)
  then show ?thesis by (cases z) simp_all
next
  case False
  then show ?thesis using assms by (simp add: layer4_entry_def split: if_split_asm)
qed

lemma node_document_parts:
  assumes "node_document env pd s rs = Some doc"
  obtains out srv where "node_routes env s rs = Some out" "srv0 pd s rs out = Some srv" "srv0_of doc = Some srv"
    "app_of ''cache'' doc = (if cacheNeeded env s rs then Some cache_app else None)"
proof -
  obtain out srv l4 where p: "node_routes env s rs = Some out" "srv0 pd s rs out = Some srv" "layer4_entry s = Some l4"
    using assms by (auto simp: node_document_def split: bind_splits)
  let ?apps = "[(''http'', JObj [(''servers'', JObj [(''srv0'', srv)])]), (''tls'', tlsApp s rs)]
    @ l4 @ jopt (cacheNeeded env s rs) ''cache'' cache_app"
  have apps: "jget doc ''apps'' = Some (JObj ?apps)" using assms p by (auto simp: node_document_def Let_def)
  then have "srv0_of doc = Some srv" by (simp add: srv0_of_def)
  moreover have "app_of ''cache'' doc = (if cacheNeeded env s rs then Some cache_app else None)"
    using apps layer4_keys [OF p(3)] by (simp add: app_of_def map_of_app member_jopt del: map_of_append)
  ultimately show ?thesis using that p by blast
qed

lemma BuildNodeConfig_parts:
  assumes "BuildNodeConfig host_perm group_perm env pd routes s = Some doc"
  obtains rs where "SortRoutesForEmission host_perm group_perm env (withWildcardHosts routes (dnsZones s)) = Some rs"
    "node_document env pd s rs = Some doc"
  using assms by (auto simp: BuildNodeConfig_def split: bind_splits)

section \<open>Routes\<close>

lemma with_modules_simps [simp]:
  "RouteAuthGated env (with_modules s r) = RouteAuthGated env r" "numbers_fit (with_modules s r) = numbers_fit r"
  "CacheEnabled (with_modules s r) = CacheEnabled r" "CachePublic (with_modules s r) = CachePublic r"
  "CacheModuleAvailable (with_modules s r) = ns_CacheModuleAvailable s"
  by (simp_all add: with_modules_def RouteAuthGated_def numbers_fit_def)

lemma those_map_Some: "those (map f xs) = Some ys \<longleftrightarrow> (\<forall>x \<in> set xs. f x \<noteq> None) \<and> ys = map (\<lambda>x. the (f x)) xs"
  by (induction xs arbitrary: ys) (auto split: option.split)

definition built :: "go_env \<Rightarrow> NodeSettings \<Rightarrow> route \<Rightarrow> json" where
  "built env s r = the (BuildRoute env (with_modules s r))"

lemma node_routes_Some:
  assumes "node_routes env s rs = Some out"
  shows "out = map (built env s) (case PanelRoute s of None \<Rightarrow> [] | Some pr \<Rightarrow> [pr]) @ wstunnel_routes s @ map (built env s) rs"
    "r \<in> set rs \<or> PanelRoute s = Some r \<Longrightarrow> BuildRoute env (with_modules s r) = Some (built env s r)"
  using assms by (auto simp: node_routes_def those_map_Some built_def split: bind_splits option.split_asm)

lemma wstunnel_handlers: "j \<in> set (wstunnel_routes s) \<Longrightarrow> \<not> has_handler ''cache'' j"
  by (auto simp: wstunnel_routes_def buildWstunnelCaddyRoute_def has_handler_JObj split: option.split_asm if_split_asm)

lemma node_cache_needed:
  assumes "codec_ok env" "node_routes env s rs = Some out" "j \<in> set out" "has_handler ''cache'' j"
  shows "cacheNeeded env s rs"
proof -
  have ok: "ns_CacheModuleAvailable s \<and> caches env r" if "BuildRoute env (with_modules s r) = Some j" for r
    using BuildRoute_stores [OF assms(1) that assms(4)] by (simp add: stores_def caches_def)
  note out = node_routes_Some [OF assms(2)]
  from assms(3) out(1) consider pr where "PanelRoute s = Some pr" "j = built env s pr" | "j \<in> set (wstunnel_routes s)"
    | r where "r \<in> set rs" "j = built env s r" by (auto split: option.split_asm)
  then show ?thesis
  proof cases
    case 1
    then show ?thesis using ok [of pr] out(2) by (simp add: cacheNeeded_def)
  next
    case 2
    then show ?thesis using wstunnel_handlers assms(4) by blast
  next
    case 3
    then show ?thesis using ok [of r] out(2) by (auto simp: cacheNeeded_def list_ex_iff)
  qed
qed

section \<open>No panic\<close>

definition stream_fits :: "StreamRoute \<Rightarrow> bool" where
  "stream_fits r \<longleftrightarrow> ListenPort r < 1000000 \<and> st_UpstreamPort r < 1000000"

definition settings_fit :: "NodeSettings \<Rightarrow> bool" where
  "settings_fit s \<longleftrightarrow> ProxyProtocolTimeoutMs s < 1000000 \<and> list_all stream_fits (StreamRoutes s) \<and>
     (case PanelRoute s of None \<Rightarrow> True | Some pr \<Rightarrow> numbers_fit pr)"

lemma buildL4Server_ok: "stream_fits r \<Longrightarrow> \<exists>v. buildL4Server p r = Some v"
  using dial_ok [of "st_UpstreamPort r" "st_UpstreamIP r"] itoa_ex [of "ListenPort r"]
  by (auto simp: stream_fits_def buildL4Server_def buildProxyHandler_def buildUpstreamList_def Let_def)

lemma add_server_ok: "stream_fits (fst rp) \<Longrightarrow> \<exists>v. add_server rp servers = Some v"
  using itoa_ex [of "ListenPort (fst rp)"] buildL4Server_ok [of "fst rp" "snd rp"]
  by (auto simp: stream_fits_def add_server_def listener_key_def)

lemma add_servers_ok: "list_all (\<lambda>rp. stream_fits (fst rp)) rps \<Longrightarrow> \<exists>v. add_servers rps servers = Some v"
proof (induction rps arbitrary: servers)
  case (Cons rp rps)
  then obtain v where "add_server rp servers = Some v" using add_server_ok [of rp servers] by auto
  then show ?case using Cons by simp
qed simp

lemma layer4_ok: "list_all stream_fits (StreamRoutes s) \<Longrightarrow> \<exists>v. layer4_entry s = Some v"
  using add_servers_ok [of "route_protos (StreamRoutes s)" "[]"]
  by (auto simp: layer4_entry_def buildLayer4App_def route_protos_def list_all_iff)

lemma srv0_ok: "ProxyProtocolTimeoutMs s < 1000000 \<Longrightarrow> \<exists>v. srv0 pd s rs out = Some v"
  using msDur_ok [of "ProxyProtocolTimeoutMs s" 5000] by (auto simp: srv0_def buildProxyProtocolWrappers_def Let_def)

lemma node_routes_ok:
  assumes "settings_fit s" "\<forall>r \<in> set rs. numbers_fit r"
  shows "\<exists>out. node_routes env s rs = Some out"
proof -
  have b: "\<exists>j. BuildRoute env (with_modules s r) = Some j" if "numbers_fit r" for r using that by (simp add: BuildRoute_built)
  then have "\<exists>out. those (map (\<lambda>r. BuildRoute env (with_modules s r)) rs) = Some out"
    using assms(2) by (auto simp: those_map_Some)
  then obtain out where out: "those (map (\<lambda>r. BuildRoute env (with_modules s r)) rs) = Some out" by blast
  show ?thesis
  proof (cases "PanelRoute s")
    case (Some pr)
    then obtain j where "BuildRoute env (with_modules s pr) = Some j" using b assms(1) by (auto simp: settings_fit_def)
    then show ?thesis using Some out by (simp add: node_routes_def)
  qed (simp add: node_routes_def out)
qed

lemma node_document_ok:
  assumes "settings_fit s" "\<forall>r \<in> set rs. numbers_fit r"
  shows "\<exists>doc. node_document env pd s rs = Some doc"
proof -
  obtain out where out: "node_routes env s rs = Some out" using node_routes_ok [OF assms] by blast
  obtain l4 where "layer4_entry s = Some l4" using layer4_ok assms(1) by (auto simp: settings_fit_def)
  moreover obtain srv where "srv0 pd s rs out = Some srv" using srv0_ok assms(1) by (force simp: settings_fit_def)
  ultimately show ?thesis using out by (simp add: node_document_def Let_def)
qed

lemma wildcard_fit [simp]: "numbers_fit (with_wildcard_host zones r) = numbers_fit r"
  by (simp add: with_wildcard_host_def numbers_fit_def Let_def)

lemma withWildcardHosts_fit: "\<forall>r \<in> set routes. numbers_fit r \<Longrightarrow> r \<in> set (withWildcardHosts routes zones) \<Longrightarrow> numbers_fit r"
  by (auto simp: withWildcardHosts_def split: if_split_asm)

lemma wildcard_opts_in: "opts_in pd pa (with_wildcard_host zones r) \<Longrightarrow> with_wildcard_host zones r = r"
  by (auto simp: with_wildcard_host_def opts_in_def route_ca_def Let_def split: if_split_asm)

lemma opts_in_unchanged: "opts_in pd pa r \<Longrightarrow> with_wildcard_host zones r = r"
  by (auto simp: with_wildcard_host_def opts_in_def route_ca_def Let_def split: if_split_asm)

text \<open>No route that asks for a connection policy gets a wildcard host.\<close>

lemma withWildcardHosts_opts_in:
  assumes "opts_in pd pa r"
  shows "r \<in> set (withWildcardHosts routes zones) \<longleftrightarrow> r \<in> set routes"
proof -
  have "r \<in> with_wildcard_host zones ` set routes \<longleftrightarrow> r \<in> set routes"
    using wildcard_opts_in [of pd pa zones] opts_in_unchanged [OF assms, of zones] assms by (metis image_iff)
  then show ?thesis by (simp add: withWildcardHosts_def)
qed

lemma opts_in_cert: "route_ca pd r \<noteq> '''' \<Longrightarrow> opts_in pd pa r"
  by (simp add: opts_in_def)

section \<open>Properties\<close>


definition zero_settings :: NodeSettings where
  "zero_settings = \<lparr>ACMEEmail = '''', ACMEStaging = False, ACMECaURL = '''', ACMEEabKID = '''', ACMEEabHMAC = '''', AskURL = '''',
     PanelRoute = None, AdminListen = '''', ns_CacheModuleAvailable = False, Layer4ModuleAvailable = False, StreamRoutes = [],
     ns_RateLimitModuleAvailable = False, ns_WAFModuleAvailable = False, ns_WAFFailOpen = False, ns_GeoModuleAvailable = False,
     DNS01ModuleAvailable = False, WildcardPolicies = [], ns_ErrorBranding = zero_branding, Wstunnel = None, AccessLogURL = '''',
     MTLSFailOpen = False, PQCurveAvailable = False, ProxyProtocolIn = False, ProxyProtocolAllow = '''',
     ProxyProtocolTimeoutMs = 0, TrustCloudflareIP = False, CloudflareRanges = [], ManualCerts = []\<rparr>"

lemma zero_settings_zones [simp]: "DNS01ModuleAvailable s = False \<Longrightarrow> withWildcardHosts routes (dnsZones s) = routes"
  by (simp add: dnsZones_def withWildcardHosts_def)

definition w_pd :: pem_decoder where
  "w_pd s = (if s = ''P'' then Some ((''CERTIFICATE'', ''x''), '''') else None)"

definition w_cached :: route where
  "w_cached = zero_route\<lparr>Hosts := [''a.com''], UpstreamIP := ''10.0.0.1'', UpstreamPort := 80, CacheEnabled := True, CachePublic := True\<rparr>"


text \<open>C34: the cache module is mounted whenever it is used. If any route of the configuration contains a cache
  handler, the node has the module and the configuration mounts its application, whose key carries the
  credentials of the request.\<close>

theorem BuildNodeConfig_cache_mounted:
  assumes "codec_ok env" "BuildNodeConfig host_perm group_perm env pd routes s = Some doc" "srv0_of doc = Some srv"
    "jget srv ''routes'' = Some (JArr out)" "j \<in> set out" "json_any (is_handler ''cache'') j"
  shows "app_of ''cache'' doc = Some cache_app \<and> ns_CacheModuleAvailable s"
proof -
  obtain rs where rs: "node_document env pd s rs = Some doc" by (rule BuildNodeConfig_parts [OF assms(2)])
  obtain out' srv' where p: "node_routes env s rs = Some out'" "srv0 pd s rs out' = Some srv'" "srv0_of doc = Some srv'"
    "app_of ''cache'' doc = (if cacheNeeded env s rs then Some cache_app else None)"
    by (rule node_document_parts [OF rs])
  have "out' = out" using srv0_members(1) [OF p(2)] p(3) assms(3,4) by simp
  then have "cacheNeeded env s rs"
    using node_cache_needed [OF assms(1) p(1)] assms(5,6) by (simp add: has_handler_def)
  then show ?thesis using p(4) by (simp add: cacheNeeded_def)
qed

definition w_caching :: NodeSettings where
  "w_caching = zero_settings\<lparr>ns_CacheModuleAvailable := True\<rparr>"

theorem BuildNodeConfig_cache_mounted_witness:
  "\<exists>doc. BuildNodeConfig rev rev w_env w_pd [w_cached] w_caching = Some doc \<and> app_of ''cache'' doc = Some cache_app"
proof -
  have fit: "settings_fit w_caching" "numbers_fit w_cached" by code_simp+
  obtain doc where doc: "node_document w_env w_pd w_caching [w_cached] = Some doc" using node_document_ok fit by fastforce
  then have b: "BuildNodeConfig rev rev w_env w_pd [w_cached] w_caching = Some doc"
    by (simp add: BuildNodeConfig_def SortRoutesForEmission_def EmissionOrder_def w_caching_def zero_settings_def)
  obtain out srv where p: "node_routes w_env w_caching [w_cached] = Some out" "srv0 w_pd w_caching [w_cached] out = Some srv"
    "srv0_of doc = Some srv" by (rule node_document_parts [OF doc])
  have "built w_env w_caching w_cached \<in> set out" using node_routes_Some(1) [OF p(1)] by simp
  moreover have "json_any (is_handler ''cache'') (built w_env w_caching w_cached)" by code_simp
  ultimately show ?thesis
    using BuildNodeConfig_cache_mounted [OF w_env_codec b p(3) srv0_members(1) [OF p(2)]] b by blast
qed


definition w_mtls :: route where
  "w_mtls = zero_route\<lparr>Hosts := [''a.b.com''], UpstreamIP := ''10.0.0.1'', UpstreamPort := 80,
     RequireClientCert := True, MTLSCACertPEM := ''P''\<rparr>"


definition w_wild :: route where
  "w_wild = zero_route\<lparr>Hosts := [''*.b.com''], PathPrefix := ''/deep'', UpstreamIP := ''10.0.0.2'', UpstreamPort := 80, TLSPQOnly := True\<rparr>"

definition w_pq :: NodeSettings where
  "w_pq = zero_settings\<lparr>PQCurveAvailable := True\<rparr>"

text \<open>C32: a wildcard name can hide a client certificate. A route that only asks for post-quantum key exchange on
  a wildcard host and has the longer path comes first in the configuration, its policy covers the host
  of a route that requires a certificate, and Caddy picks it: the handshake asks for none.\<close>

theorem BuildNodeConfig_wildcard_bypass:
  assumes "covers ''*.b.com'' ''a.b.com''"
  shows "\<exists>doc srv pols pol. BuildNodeConfig (\<lambda>m. m) (\<lambda>g. g) w_env w_pd [w_mtls, w_wild] w_pq = Some doc \<and> srv0_of doc = Some srv \<and>
    jget srv ''tls_connection_policies'' = Some (JArr pols) \<and> policy_for covers ''a.b.com'' pols = Some pol \<and>
    jget pol ''client_authentication'' = None \<and> \<not> MTLSFailOpen w_pq \<and>
    RequireClientCert w_mtls \<and> MTLSCAUsable w_pd (MTLSCACertPEM w_mtls) \<and> ''a.b.com'' \<in> set (Hosts w_mtls)"
proof -
  have fit: "settings_fit w_pq" "numbers_fit w_mtls" "numbers_fit w_wild" by code_simp+
  obtain doc where doc: "node_document w_env w_pd w_pq [w_wild, w_mtls] = Some doc"
    using node_document_ok [of w_pq "[w_wild, w_mtls]"] fit by auto
  have "SortRoutesForEmission (\<lambda>m. m) (\<lambda>g. g) w_env [w_mtls, w_wild] = Some [w_wild, w_mtls]"
  proof -
    have "EmissionOrder (\<lambda>m. m) (\<lambda>g. g) w_env [w_mtls, w_wild] = Some [1, 0]" by code_simp
    then show ?thesis by (simp add: SortRoutesForEmission_def)
  qed
  then have b: "BuildNodeConfig (\<lambda>m. m) (\<lambda>g. g) w_env w_pd [w_mtls, w_wild] w_pq = Some doc"
    using doc by (simp add: BuildNodeConfig_def w_pq_def zero_settings_def)
  obtain out srv where srv: "srv0 w_pd w_pq [w_wild, w_mtls] out = Some srv" "srv0_of doc = Some srv"
    by (rule node_document_parts [OF doc])
  let ?pols = "buildConnPolicies w_pd [w_wild, w_mtls] (MTLSFailOpen w_pq) (PQCurveAvailable w_pq)"
  let ?pol = "conn_policy w_pd False (\<lparr>caPEM = '''', pq = True\<rparr>, [''*.b.com''])"
  have "?pols \<noteq> []" "hd ?pols = ?pol" by code_simp+
  then obtain rest where pols: "?pols = ?pol # rest" by (cases ?pols) simp_all
  then have "policy_for covers ''a.b.com'' ?pols = Some ?pol" using assms by (simp add: policy_for_def sni_conn_policy)
  moreover have "jget ?pol ''client_authentication'' = None" by (simp add: conn_policy_def)
  moreover have "\<not> MTLSFailOpen w_pq" "RequireClientCert w_mtls" "MTLSCAUsable w_pd (MTLSCACertPEM w_mtls)"
    "''a.b.com'' \<in> set (Hosts w_mtls)" by code_simp+
  ultimately show ?thesis using b srv(2) srv0_members(2) [OF srv(1)] pols by auto
qed

theorem BuildNodeConfig_wildcard_bypass_witness:
  "\<exists>doc srv pols pol. BuildNodeConfig (\<lambda>m. m) (\<lambda>g. g) w_env w_pd [w_mtls, w_wild] w_pq = Some doc \<and> srv0_of doc = Some srv \<and>
    jget srv ''tls_connection_policies'' = Some (JArr pols) \<and>
    policy_for (\<lambda>p n. p = n \<or> p = ''*.b.com'' \<and> n = ''a.b.com'') ''a.b.com'' pols = Some pol \<and>
    jget pol ''client_authentication'' = None"
  using BuildNodeConfig_wildcard_bypass [of "\<lambda>p n. p = n \<or> p = ''*.b.com'' \<and> n = ''a.b.com''"] by simp blast

end
