(* ===== verification/Admin_Scope.thy ===== *)
theory Admin_Scope
  imports Main
begin

text \<open>
  Which clients an administrator may see and change (\<open>internal/adminscope/service.go\<close>). The tables are
  association lists by primary key: users with their reseller, role and \<open>is_restricted\<close>, resellers with
  their status, clients with their reseller, tunnel peers and services with their client, routes with
  their service, and the rows of \<open>admin_client_scope\<close>. Every query of the source is a definition; a
  lookup that finds no user where the source needs one is an error. \<open>policy\<close> is what the queries
  promise together.
\<close>

record user_row =
  u_reseller :: "nat option"
  u_role :: string
  u_restricted :: bool

record scope_db =
  s_users :: "(nat \<times> user_row) list"
  s_resellers :: "(nat \<times> string) list"
  s_clients :: "(nat \<times> nat option) list"
  s_scope :: "(nat \<times> nat) list"
  s_peers :: "(nat \<times> nat) list"
  s_services :: "(nat \<times> nat) list"
  s_routes :: "(nat \<times> nat) list"

record scopeMode =
  m_all :: bool
  m_resellerID :: int
  m_denied :: bool

datatype scope_error = No_user

abbreviation mode_all :: scopeMode where "mode_all \<equiv> \<lparr>m_all = True, m_resellerID = 0, m_denied = False\<rparr>"
abbreviation mode_denied :: scopeMode where "mode_denied \<equiv> \<lparr>m_all = False, m_resellerID = 0, m_denied = True\<rparr>"
abbreviation mode_reseller :: "int \<Rightarrow> scopeMode" where "mode_reseller r \<equiv> \<lparr>m_all = False, m_resellerID = r, m_denied = False\<rparr>"

section \<open>Mode\<close>

definition userReseller :: "scope_db \<Rightarrow> nat \<Rightarrow> int \<times> bool" where
  "userReseller db a =
     (case map_of (s_users db) a of
        None \<Rightarrow> (0, False)
      | Some u \<Rightarrow>
          (case u_reseller u of
             None \<Rightarrow> if u_role u = ''reseller'' then (-1, False) else (0, False)
           | Some r \<Rightarrow>
               (case map_of (s_resellers db) r of
                  None \<Rightarrow> (int r, False)
                | Some status \<Rightarrow> (int r, status = ''active''))))"

definition restricted_mode :: "scope_db \<Rightarrow> nat \<Rightarrow> scope_error + scopeMode" where
  "restricted_mode db a =
     (case map_of (s_users db) a of
        None \<Rightarrow> Inl No_user
      | Some u \<Rightarrow> Inr (if u_restricted u then mode_reseller 0 else mode_all))"

definition resolveMode :: "scope_db \<Rightarrow> nat \<Rightarrow> scope_error + scopeMode" where
  "resolveMode db a =
     (if map_option u_role (map_of (s_users db) a) = Some ''super_admin'' then Inr mode_all
      else case userReseller db a of
        (rid, active) \<Rightarrow>
          if rid \<noteq> 0 then Inr (if \<not> active then mode_denied else mode_reseller rid)
          else restricted_mode db a)"

section \<open>Queries\<close>

definition owned :: "scope_db \<Rightarrow> int \<Rightarrow> nat \<Rightarrow> bool" where
  "owned db rid c \<longleftrightarrow> map_option (map_option int) (map_of (s_clients db) c) = Some (Some rid)"

definition assigned :: "scope_db \<Rightarrow> nat \<Rightarrow> nat \<Rightarrow> bool" where
  "assigned db a c \<longleftrightarrow> list_ex (\<lambda>(x, y). x = a \<and> y = c) (s_scope db)"

text \<open>The three \<open>CanAccess\<close> queries share their frame: the mode decides, and \<open>q\<close> is the count that is asked of
  a client of the reseller or of the assignments.\<close>

definition access :: "scope_db \<Rightarrow> nat \<Rightarrow> ((nat \<Rightarrow> bool) \<Rightarrow> bool) \<Rightarrow> scope_error + bool" where
  "access db a q =
     (case resolveMode db a of
        Inl e \<Rightarrow> Inl e
      | Inr m \<Rightarrow>
          Inr (if m_all m then True else if m_denied m then False
               else if m_resellerID m \<noteq> 0 then q (owned db (m_resellerID m)) else q (assigned db a)))"

definition CanAccessClient :: "scope_db \<Rightarrow> nat \<Rightarrow> nat \<Rightarrow> scope_error + bool" where
  "CanAccessClient db a c = access db a (\<lambda>ok. ok c)"

definition CanAccessPeer :: "scope_db \<Rightarrow> nat \<Rightarrow> nat \<Rightarrow> scope_error + bool" where
  "CanAccessPeer db a p = access db a (\<lambda>ok. list_ex (\<lambda>(x, c). x = p \<and> ok c) (s_peers db))"

definition CanAccessRoute :: "scope_db \<Rightarrow> nat \<Rightarrow> nat \<Rightarrow> scope_error + bool" where
  "CanAccessRoute db a r =
     access db a (\<lambda>ok. list_ex (\<lambda>(x, s). x = r \<and> list_ex (\<lambda>(y, c). y = s \<and> ok c) (s_services db)) (s_routes db))"

definition AssignedClientIDs :: "scope_db \<Rightarrow> nat \<Rightarrow> nat list" where
  "AssignedClientIDs db a = sort (map snd (filter (\<lambda>(x, c). x = a) (s_scope db)))"

definition resellerClientIDs :: "scope_db \<Rightarrow> int \<Rightarrow> nat list" where
  "resellerClientIDs db rid = sort (map fst (filter (\<lambda>(c, r). map_option int r = Some rid) (s_clients db)))"

definition ScopeFilter :: "scope_db \<Rightarrow> nat \<Rightarrow> scope_error + (nat list \<times> bool)" where
  "ScopeFilter db a =
     (if a = 0 then Inr ([], True)
      else case resolveMode db a of
        Inl e \<Rightarrow> Inl e
      | Inr m \<Rightarrow>
          Inr (if m_all m then ([], True) else if m_denied m then ([], False)
               else if m_resellerID m \<noteq> 0 then (resellerClientIDs db (m_resellerID m), False)
               else (AssignedClientIDs db a, False)))"

section \<open>Changes\<close>

text \<open>\<open>INSERT IGNORE\<close> keeps a row that is there.\<close>

definition Assign :: "nat \<Rightarrow> nat \<Rightarrow> scope_db \<Rightarrow> scope_db" where
  "Assign a c db = (if (a, c) \<in> set (s_scope db) then db else db\<lparr>s_scope := s_scope db @ [(a, c)]\<rparr>)"

definition Unassign :: "nat \<Rightarrow> nat \<Rightarrow> scope_db \<Rightarrow> scope_db" where
  "Unassign a c db = db\<lparr>s_scope := filter (\<lambda>x. x \<noteq> (a, c)) (s_scope db)\<rparr>"

definition ClearConfinementTx :: "nat \<Rightarrow> scope_db \<Rightarrow> scope_db \<times> bool" where
  "ClearConfinementTx a db =
     (if a = 0 then (db, False)
      else (db\<lparr>s_users := map (\<lambda>(x, u). (x, if x = a then u\<lparr>u_restricted := False, u_reseller := None\<rparr> else u)) (s_users db),
               s_scope := filter (\<lambda>(x, c). x \<noteq> a) (s_scope db)\<rparr>,
            list_ex (\<lambda>(x, u). x = a \<and> (u_restricted u \<or> u_reseller u \<noteq> None)) (s_users db) \<or>
            list_ex (\<lambda>(x, c). x = a) (s_scope db)))"

section \<open>The policy\<close>

datatype policy = Everything | Only "nat set"

fun permits :: "policy \<Rightarrow> nat \<Rightarrow> bool" where
  "permits Everything c \<longleftrightarrow> True"
| "permits (Only cs) c \<longleftrightarrow> c \<in> cs"

definition clients_of :: "scope_db \<Rightarrow> nat \<Rightarrow> nat set" where
  "clients_of db r = {c. map_of (s_clients db) c = Some (Some r)}"

definition policy_of :: "scope_db \<Rightarrow> nat \<Rightarrow> policy option" where
  "policy_of db a =
     map_option (\<lambda>u.
       if u_role u = ''super_admin'' then Everything
       else case u_reseller u of
         Some r \<Rightarrow> Only (if map_of (s_resellers db) r = Some ''active'' then clients_of db r else {})
       | None \<Rightarrow>
           (if u_role u = ''reseller'' then Only {}
            else if u_restricted u then Only {c. (a, c) \<in> set (s_scope db)}
            else Everything)) (map_of (s_users db) a)"

text \<open>Identifiers are assigned from 1, and keys are unique.\<close>

definition scope_wf :: "scope_db \<Rightarrow> bool" where
  "scope_wf db \<longleftrightarrow> distinct (map fst (s_clients db)) \<and> list_all (\<lambda>(a, u). u_reseller u \<noteq> Some 0) (s_users db)"

section \<open>Lemmas\<close>

lemma owned_clients: "owned db (int r) = (\<lambda>c. c \<in> clients_of db r)"
  by (auto simp: owned_def clients_of_def fun_eq_iff)

lemma assigned_set: "assigned db a = (\<lambda>c. (a, c) \<in> set (s_scope db))"
  by (auto simp: assigned_def list_ex_iff fun_eq_iff)

lemma reseller_positive: "scope_wf db \<Longrightarrow> map_of (s_users db) a = Some u \<Longrightarrow> u_reseller u = Some r \<Longrightarrow> 0 < r"
  by (fastforce simp: scope_wf_def list_all_iff dest: map_of_SomeD)

lemma resolveMode_policy:
  assumes "scope_wf db"
  shows "resolveMode db a =
    (case map_of (s_users db) a of
       None \<Rightarrow> Inl No_user
     | Some u \<Rightarrow>
         Inr (if u_role u = ''super_admin'' then mode_all
              else case u_reseller u of
                Some r \<Rightarrow> if map_of (s_resellers db) r = Some ''active'' then mode_reseller (int r) else mode_denied
              | None \<Rightarrow> if u_role u = ''reseller'' then mode_denied else if u_restricted u then mode_reseller 0 else mode_all))"
proof (cases "map_of (s_users db) a")
  case None
  then show ?thesis by (simp add: resolveMode_def userReseller_def restricted_mode_def)
next
  case (Some u)
  show ?thesis
  proof (cases "u_reseller u")
    case None
    with Some show ?thesis by (simp add: resolveMode_def userReseller_def restricted_mode_def)
  next
    case (Some r)
    then have "0 < r" using reseller_positive [OF assms \<open>map_of (s_users db) a = Some u\<close>] by simp
    with Some \<open>map_of (s_users db) a = Some u\<close> show ?thesis
      by (cases "map_of (s_resellers db) r") (simp_all add: resolveMode_def userReseller_def)
  qed
qed

lemma access_policy:
  assumes "scope_wf db" "\<not> q (\<lambda>c. False)"
  shows "access db a q =
    (case policy_of db a of None \<Rightarrow> Inl No_user | Some p \<Rightarrow> Inr (p = Everything \<or> p \<noteq> Everything \<and> q (permits p)))"
proof (cases "map_of (s_users db) a")
  case (Some u)
  have "permits (Only cs) = (\<lambda>c. c \<in> cs)" for cs by (simp add: fun_eq_iff)
  then show ?thesis using Some assms(2) reseller_positive [OF assms(1) Some]
    by (cases "u_reseller u") (simp_all add: access_def resolveMode_policy [OF assms(1)] policy_of_def owned_clients assigned_set)
qed (simp add: access_def resolveMode_policy [OF assms(1)] policy_of_def)

lemma resellerClientIDs_set:
  "distinct (map fst (s_clients db)) \<Longrightarrow> set (resellerClientIDs db (int r)) = clients_of db r"
  by (force simp: resellerClientIDs_def clients_of_def)

lemma AssignedClientIDs_set: "set (AssignedClientIDs db a) = {c. (a, c) \<in> set (s_scope db)}"
  by (force simp: AssignedClientIDs_def)

lemma ScopeFilter_policy:
  assumes "scope_wf db" "policy_of db a = Some p" "0 < a"
  shows "\<exists>ids all. ScopeFilter db a = Inr (ids, all) \<and> (all \<longleftrightarrow> p = Everything) \<and> (\<not> all \<longrightarrow> p = Only (set ids))"
proof -
  obtain u where u: "map_of (s_users db) a = Some u" using assms(2) by (auto simp: policy_of_def)
  have d: "distinct (map fst (s_clients db))" using assms(1) by (simp add: scope_wf_def)
  show ?thesis
    using assms(2,3) u reseller_positive [OF assms(1) u] resellerClientIDs_set [OF d] AssignedClientIDs_set [of db a]
    by (cases "u_reseller u"; cases "u_role u = ''super_admin''"; cases "u_role u = ''reseller''"; cases "u_restricted u")
      (auto simp: ScopeFilter_def resolveMode_policy [OF assms(1)] policy_of_def)
qed

text \<open>Administrators of two resellers never share a client.\<close>

lemma resellers_apart: "r \<noteq> r' \<Longrightarrow> clients_of db r \<inter> clients_of db r' = {}"
  by (auto simp: clients_of_def)

lemma ClearConfinement_policy:
  assumes "map_of (s_users db) a = Some u" "u_role u \<noteq> ''reseller''" "0 < a"
  shows "policy_of (fst (ClearConfinementTx a db)) a = Some Everything"
proof -
  have upd: "map_of (map (\<lambda>(x, u). (x, if x = a then f u else u)) xs) a = map_option f (map_of xs a)"
    for f and xs :: "(nat \<times> user_row) list"
    by (induction xs) auto
  have "map_of (s_users (fst (ClearConfinementTx a db))) a = Some (u\<lparr>u_restricted := False, u_reseller := None\<rparr>)"
    using assms(1,3) upd [of "\<lambda>u. u\<lparr>u_restricted := False, u_reseller := None\<rparr>" "s_users db"] by (simp add: ClearConfinementTx_def)
  then show ?thesis using assms(2) by (simp add: policy_of_def)
qed

section \<open>Properties\<close>

text \<open>C38: the queries of an administrator implement one policy. The check of a client, of a tunnel peer and of
  a route and the filter of a list all permit exactly the clients of the policy: everything for a super
  admin and an unrestricted admin, the clients of an active reseller for its staff, nothing for the
  staff of a suspended or missing reseller, and the assigned clients for a restricted admin; an unknown
  user is refused.\<close>

theorem admin_scope_refines:
  assumes "scope_wf db" "0 < a"
  shows "case policy_of db a of
      None \<Rightarrow> CanAccessClient db a c = Inl No_user \<and> CanAccessPeer db a x = Inl No_user \<and>
        CanAccessRoute db a r = Inl No_user \<and> ScopeFilter db a = Inl No_user
    | Some p \<Rightarrow> CanAccessClient db a c = Inr (permits p c) \<and>
        CanAccessPeer db a x = Inr (p = Everything \<or> (\<exists>c. (x, c) \<in> set (s_peers db) \<and> permits p c)) \<and>
        CanAccessRoute db a r =
          Inr (p = Everything \<or> (\<exists>s c. (r, s) \<in> set (s_routes db) \<and> (s, c) \<in> set (s_services db) \<and> permits p c)) \<and>
        (\<exists>ids all. ScopeFilter db a = Inr (ids, all) \<and> (all \<longleftrightarrow> p = Everything) \<and> (\<not> all \<longrightarrow> p = Only (set ids)))"
proof (cases "policy_of db a")
  case None
  then have "resolveMode db a = Inl No_user" by (simp add: policy_of_def resolveMode_policy [OF assms(1)])
  then show ?thesis using None assms(2)
    by (simp add: CanAccessClient_def CanAccessPeer_def CanAccessRoute_def ScopeFilter_def access_def)
next
  case (Some p)
  have "CanAccessClient db a c = Inr (permits p c)"
    unfolding CanAccessClient_def by (subst access_policy [OF assms(1)]) (auto simp: Some)
  moreover have "CanAccessPeer db a x = Inr (p = Everything \<or> (\<exists>c. (x, c) \<in> set (s_peers db) \<and> permits p c))"
    unfolding CanAccessPeer_def by (subst access_policy [OF assms(1)]) (auto simp: Some list_ex_iff)
  moreover have "CanAccessRoute db a r =
      Inr (p = Everything \<or> (\<exists>s c. (r, s) \<in> set (s_routes db) \<and> (s, c) \<in> set (s_services db) \<and> permits p c))"
    unfolding CanAccessRoute_def by (subst access_policy [OF assms(1)]) (auto simp: Some list_ex_iff)
  ultimately show ?thesis using ScopeFilter_policy [OF assms(1) Some assms(2)] Some by simp
qed

definition w_scope :: scope_db where
  "w_scope = \<lparr>s_users = [(3, \<lparr>u_reseller = Some 7, u_role = ''admin'', u_restricted = False\<rparr>),
       (2, \<lparr>u_reseller = Some 8, u_role = ''admin'', u_restricted = False\<rparr>)],
     s_resellers = [(7, ''active''), (8, ''suspended'')], s_clients = [(10, Some 7), (11, Some 8)], s_scope = [(2, 11)],
     s_peers = [(20, 11)], s_services = [(30, 10)], s_routes = [(40, 30)]\<rparr>"

theorem admin_scope_refines_witness:
  "CanAccessRoute w_scope 3 40 = Inr True \<and> CanAccessClient w_scope 3 11 = Inr False \<and> CanAccessPeer w_scope 2 20 = Inr False"
proof -
  have wf: "scope_wf w_scope" by code_simp
  have p: "policy_of w_scope 3 = Some (Only (clients_of w_scope 7))" "policy_of w_scope 2 = Some (Only {})"
    by (simp_all add: policy_of_def w_scope_def)
  show ?thesis
    using admin_scope_refines [OF wf, of 3 11 20 40] admin_scope_refines [OF wf, of 2 11 20 40]
    by (simp add: p) (simp add: w_scope_def clients_of_def)
qed

end
