(* ===== verification/Node_Join.thy ===== *)
theory Node_Join
  imports Go_Strings Transition
begin

text \<open>
  Joining a node with a one-time token: \<open>internal/nodejoin/service.go\<close>, the address allocation of
  \<open>internal/wireguard/keys.go\<close> and the node name check of \<open>internal/security/nodename.go\<close>. Several joins
  may run at once; a request is a thread whose \<open>phase\<close> says how far \<open>Redeem\<close> has come, and every
  database statement is one step. Parameters: \<open>sha\<close> is the hexadecimal SHA-256; the random bytes of a
  token (already encoded) and the key pair of a node are arguments. The times are those of the
  database. The public address and the preshared key of a node, the best-effort link from a token to its
  node and the reply to the node are not modelled;
  \<open>joined\<close> records which token a node came from.
\<close>

record token_row =
  t_id :: nat
  t_prefix :: string
  t_hash :: string
  t_group :: nat
  t_max_routes :: int
  t_priority :: int
  t_name_hint :: string
  t_used :: bool
  t_expires :: nat

record node_row =
  n_name :: string
  n_api_url :: string
  n_public_hostname :: string
  n_group :: nat
  n_max_routes :: int
  n_priority :: int
  n_enabled :: bool
  n_wg_ip :: string
  n_wg_key :: string
  n_fingerprint :: string

record MintOpts =
  NodeGroupID :: nat
  MaxRoutes :: int
  Priority :: int
  NameHint :: string

record resolved =
  r_id :: nat
  r_group :: nat
  r_max_routes :: int
  r_priority :: int
  r_name_hint :: string

datatype join_error = Group_required | Bad_name_hint | Bad_token_format | Token_too_short | Token_invalid

definition TokenTTL :: nat where
  "TokenTTL = 1800"

definition maxIPAllocAttempts :: nat where
  "maxIPAllocAttempts = 5"

section \<open>Node names\<close>

definition name_start :: "char \<Rightarrow> bool" where
  "name_start c \<longleftrightarrow> is_lower c \<or> is_upper c \<or> is_digit c"

definition name_char :: "char \<Rightarrow> bool" where
  "name_char c \<longleftrightarrow> name_start c \<or> c \<in> set ''._-''"

definition ValidNodeName :: "string \<Rightarrow> bool" where
  "ValidNodeName s = (case s of [] \<Rightarrow> False | c # cs \<Rightarrow> name_start c \<and> list_all name_char cs \<and> length cs \<le> 62)"

section \<open>Addresses\<close>

definition subnetPrefix :: "string \<Rightarrow> string option" where
  "subnetPrefix cidr =
     (case IndexByte cidr (CHR ''/'') of
        None \<Rightarrow> None
      | Some slash \<Rightarrow>
          (let ip = take slash cidr in
           case LastIndexByte ip (CHR ''.'') of None \<Rightarrow> None | Some k \<Rightarrow> Some (take k ip)))"

text \<open>The first address \<open>.2\<close> to \<open>.254\<close> that is neither the control plane's nor a node's.\<close>

definition AllocateNodeIP :: "string \<Rightarrow> string \<Rightarrow> string list \<Rightarrow> string option" where
  "AllocateNodeIP subnet controlIP taken =
     (case subnetPrefix subnet of
        None \<Rightarrow> None
      | Some pre \<Rightarrow>
          find (\<lambda>ip. ip \<noteq> controlIP \<and> ip \<notin> set taken) (map (\<lambda>i. pre @ ''.'' @ nat_dec i) [2..<255]))"

section \<open>Tokens\<close>

definition token_of :: "(string \<Rightarrow> string) \<Rightarrow> nat \<Rightarrow> nat \<Rightarrow> string \<Rightarrow> MintOpts \<Rightarrow> join_error + token_row" where
  "token_of sha now i plain opts =
     (if NodeGroupID opts = 0 then Inl Group_required
      else if NameHint opts \<noteq> '''' \<and> \<not> ValidNodeName (NameHint opts) then Inl Bad_name_hint
      else Inr \<lparr>t_id = i, t_prefix = take 12 plain, t_hash = sha plain, t_group = NodeGroupID opts,
        t_max_routes = (if MaxRoutes opts \<le> 0 then 1000 else MaxRoutes opts),
        t_priority = (if Priority opts = 0 then 100 else Priority opts),
        t_name_hint = NameHint opts, t_used = False, t_expires = now + TokenTTL\<rparr>)"

definition parseToken :: "(string \<Rightarrow> string) \<Rightarrow> string \<Rightarrow> join_error + (string \<times> string)" where
  "parseToken sha s =
     (if \<not> HasPrefix s ''hpg_join_'' then Inl Bad_token_format
      else let plain = TrimPrefix s ''hpg_join_'' in
        if length plain < 12 then Inl Token_too_short else Inr (take 12 plain, sha plain))"

definition claimable :: "nat \<Rightarrow> string \<times> string \<Rightarrow> token_row \<Rightarrow> bool" where
  "claimable now ph t \<longleftrightarrow> t_prefix t = fst ph \<and> t_hash t = snd ph \<and> \<not> t_used t \<and> now < t_expires t"

definition claimToken :: "(string \<Rightarrow> string) \<Rightarrow> nat \<Rightarrow> string \<Rightarrow> token_row list \<Rightarrow> (join_error + resolved) \<times> token_row list" where
  "claimToken sha now s ts =
     (case parseToken sha s of
        Inl e \<Rightarrow> (Inl e, ts)
      | Inr ph \<Rightarrow>
          (let n = length (filter (claimable now ph) ts);
               ts' = map (\<lambda>t. if claimable now ph t then t\<lparr>t_used := True\<rparr> else t) ts
           in if n \<noteq> 1 then (Inl Token_invalid, ts')
              else case find (\<lambda>t. t_prefix t = fst ph \<and> t_hash t = snd ph) ts' of
                None \<Rightarrow> (Inl Token_invalid, ts')
              | Some t \<Rightarrow>
                  (Inr \<lparr>r_id = t_id t, r_group = t_group t, r_max_routes = t_max_routes t, r_priority = t_priority t,
                     r_name_hint = t_name_hint t\<rparr>, ts')))"

definition unclaimToken :: "nat \<Rightarrow> token_row list \<Rightarrow> token_row list" where
  "unclaimToken i ts = map (\<lambda>t. if t_id t = i then t\<lparr>t_used := False\<rparr> else t) ts"

section \<open>Redeeming\<close>

datatype join_phase =
    Idle
  | Claimed resolved string
  | Allocated resolved string string nat string
  | Joined
  | Failed

record join_state =
  j_now :: nat
  j_tokens :: "token_row list"
  j_nodes :: "node_row list"
  j_phase :: "nat \<Rightarrow> join_phase"
  joined :: "nat list"

definition node_name :: "resolved \<Rightarrow> string \<Rightarrow> string" where
  "node_name r ip =
     (if ValidNodeName (r_name_hint r) then r_name_hint r else ''node-'' @ ReplaceByte ip (CHR ''.'') ''-'')"

definition new_node :: "resolved \<Rightarrow> string \<Rightarrow> string \<Rightarrow> string \<Rightarrow> node_row" where
  "new_node r publicHostname key ip =
     \<lparr>n_name = node_name r ip, n_api_url = ''http://'' @ ip @ '':2019'', n_public_hostname = publicHostname,
      n_group = r_group r, n_max_routes = r_max_routes r, n_priority = r_priority r, n_enabled = False,
      n_wg_ip = ip, n_wg_key = key, n_fingerprint = take 16 key\<rparr>"

text \<open>The unique keys on the address and on the public key.\<close>

definition duplicate_node :: "node_row list \<Rightarrow> string \<Rightarrow> string \<Rightarrow> bool" where
  "duplicate_node ns key ip = list_ex (\<lambda>n. n_wg_ip n = ip \<or> n_wg_key n = key) ns"

text \<open>One round of the loop, up to the insert. An empty public host name becomes the name of the first
  round.\<close>

definition allocate :: "string \<Rightarrow> string \<Rightarrow> nat \<Rightarrow> nat \<Rightarrow> resolved \<Rightarrow> string \<Rightarrow> string \<Rightarrow> join_state \<Rightarrow> join_state" where
  "allocate subnet controlIP i attempt r publicHostname key s =
     (case AllocateNodeIP subnet controlIP (map n_wg_ip (j_nodes s)) of
        None \<Rightarrow> s\<lparr>j_phase := (j_phase s)(i := Failed)\<rparr>
      | Some ip \<Rightarrow>
          s\<lparr>j_phase := (j_phase s)(i := Allocated r
             (if publicHostname = '''' then node_name r ip else publicHostname) key attempt ip)\<rparr>)"

definition insert_node ::
  "string \<Rightarrow> string \<Rightarrow> nat \<Rightarrow> resolved \<Rightarrow> string \<Rightarrow> string \<Rightarrow> nat \<Rightarrow> string \<Rightarrow> join_state \<Rightarrow> join_state" where
  "insert_node subnet controlIP i r publicHostname key attempt ip s =
     (if duplicate_node (j_nodes s) key ip
      then (if attempt < maxIPAllocAttempts then allocate subnet controlIP i (Suc attempt) r publicHostname key s
            else s\<lparr>j_phase := (j_phase s)(i := Failed)\<rparr>)
      else s\<lparr>j_nodes := j_nodes s @ [new_node r publicHostname key ip], j_phase := (j_phase s)(i := Joined),
              joined := joined s @ [r_id r]\<rparr>)"

inductive join_step :: "(string \<Rightarrow> string) \<Rightarrow> string \<Rightarrow> string \<Rightarrow> join_state \<Rightarrow> join_state \<Rightarrow> bool"
  for sha subnet controlIP where
  mint: "token_of sha (j_now s) i plain opts = Inr t \<Longrightarrow> i \<notin> t_id ` set (j_tokens s) \<Longrightarrow> sha plain \<notin> t_hash ` set (j_tokens s) \<Longrightarrow>
    i \<notin> set (joined s) \<Longrightarrow> join_step sha subnet controlIP s (s\<lparr>j_tokens := j_tokens s @ [t]\<rparr>)"
| claim: "j_phase s i = Idle \<Longrightarrow> claimToken sha (j_now s) tok (j_tokens s) = (res, ts) \<Longrightarrow>
    join_step sha subnet controlIP s
      (s\<lparr>j_tokens := ts, j_phase := (j_phase s)(i := (case res of Inl e \<Rightarrow> Failed | Inr r \<Rightarrow> Claimed r host))\<rparr>)"
| abort: "j_phase s i = Claimed r host \<Longrightarrow>
    join_step sha subnet controlIP s (s\<lparr>j_tokens := unclaimToken (r_id r) (j_tokens s), j_phase := (j_phase s)(i := Failed)\<rparr>)"
| alloc: "j_phase s i = Claimed r host \<Longrightarrow> join_step sha subnet controlIP s (allocate subnet controlIP i 1 r host key s)"
| ins: "j_phase s i = Allocated r host key attempt ip \<Longrightarrow>
    join_step sha subnet controlIP s (insert_node subnet controlIP i r host key attempt ip s)"
| insert_error: "j_phase s i = Allocated r host key attempt ip \<Longrightarrow>
    join_step sha subnet controlIP s (s\<lparr>j_phase := (j_phase s)(i := Failed)\<rparr>)"
| tick: "join_step sha subnet controlIP s (s\<lparr>j_now := j_now s + d\<rparr>)"

definition join_start :: "join_state \<Rightarrow> bool" where
  "join_start s \<longleftrightarrow> j_tokens s = [] \<and> j_nodes s = [] \<and> joined s = [] \<and> (\<forall>i. j_phase s i = Idle)"

section \<open>Lemmas\<close>

fun holds_token :: "join_phase \<Rightarrow> nat \<Rightarrow> bool" where
  "holds_token (Claimed r host) t \<longleftrightarrow> r_id r = t"
| "holds_token (Allocated r host key attempt ip) t \<longleftrightarrow> r_id r = t"
| "holds_token _ t \<longleftrightarrow> False"

definition spent :: "token_row list \<Rightarrow> nat \<Rightarrow> bool" where
  "spent ts i \<longleftrightarrow> i \<in> set (map t_id ts) \<and> (\<forall>t \<in> set ts. t_id t = i \<longrightarrow> t_used t)"

definition join_inv :: "join_state \<Rightarrow> bool" where
  "join_inv s \<longleftrightarrow> distinct (map t_id (j_tokens s)) \<and> distinct (map t_hash (j_tokens s)) \<and> distinct (joined s) \<and>
     distinct (map n_wg_ip (j_nodes s)) \<and> distinct (map n_wg_key (j_nodes s)) \<and> (\<forall>n \<in> set (j_nodes s). \<not> n_enabled n) \<and>
     (\<forall>t \<in> set (joined s). spent (j_tokens s) t) \<and>
     (\<forall>i t. holds_token (j_phase s i) t \<longrightarrow> spent (j_tokens s) t \<and> t \<notin> set (joined s) \<and> (\<forall>k. holds_token (j_phase s k) t \<longrightarrow> k = i))"

abbreviation mark_used :: "nat \<Rightarrow> string \<times> string \<Rightarrow> token_row list \<Rightarrow> token_row list" where
  "mark_used now ph \<equiv> map (\<lambda>t. if claimable now ph t then t\<lparr>t_used := True\<rparr> else t)"

lemma mark_used_ids: "map t_id (mark_used now ph ts) = map t_id ts" "map t_hash (mark_used now ph ts) = map t_hash ts"
  by simp_all

lemma mark_used_spent: "spent ts i \<Longrightarrow> spent (mark_used now ph ts) i"
  unfolding spent_def mark_used_ids by auto

lemma claimToken_tokens:
  "snd (claimToken sha now tok ts) = (case parseToken sha tok of Inl e \<Rightarrow> ts | Inr ph \<Rightarrow> mark_used now ph ts)"
  by (simp add: claimToken_def Let_def split: sum.split option.split)

lemma claimToken_ids: "map t_id (snd (claimToken sha now tok ts)) = map t_id ts" "map t_hash (snd (claimToken sha now tok ts)) = map t_hash ts"
  unfolding claimToken_tokens by (simp_all split: sum.split)

lemma claimToken_spent: "spent ts i \<Longrightarrow> spent (snd (claimToken sha now tok ts)) i"
  unfolding claimToken_tokens using mark_used_spent by (cases "parseToken sha tok") simp_all

text \<open>A successful claim turns an unspent token into a spent one.\<close>

lemma claimToken_ok:
  assumes "claimToken sha now tok ts = (Inr r, ts')" "distinct (map t_id ts)" "distinct (map t_hash ts)"
  shows "spent ts' (r_id r)" "\<not> spent ts (r_id r)"
proof -
  obtain ph where ph: "parseToken sha tok = Inr ph" using assms(1) by (auto simp: claimToken_def split: sum.split_asm)
  let ?f = "\<lambda>t. if claimable now ph t then t\<lparr>t_used := True\<rparr> else t"
  have ts': "ts' = mark_used now ph ts" using claimToken_tokens [of sha now tok ts] assms(1) ph by simp
  have n: "length (filter (claimable now ph) ts) = 1"
    using assms(1) ph by (simp add: claimToken_def Let_def split: if_split_asm)
  obtain t where t: "find (\<lambda>t. t_prefix t = fst ph \<and> t_hash t = snd ph) ts' = Some t" "r_id r = t_id t"
    using assms(1) ph n ts' by (auto simp: claimToken_def Let_def split: option.split_asm)
  obtain c where c: "c \<in> set ts" "claimable now ph c" using n by (metis One_nat_def filter_empty_conv length_0_conv zero_neq_one)
  from t(1) have tm: "t \<in> set ts'" "t_hash t = snd ph" by (auto simp: find_Some_iff)
  then obtain t0 where t0: "t0 \<in> set ts" "t = ?f t0" using ts' by auto
  have "t_hash t0 = t_hash c" using t0 tm(2) c(2) by (auto simp: claimable_def split: if_split_asm)
  then have "t0 = c" using assms(3) t0(1) c(1) by (auto simp: distinct_map dest: inj_onD)
  then have "r_id r = t_id c" using t(2) t0 by (auto split: if_split_asm)
  moreover have "x = c" if "x \<in> set ts" "t_id x = t_id c" for x using that assms(2) c(1) by (auto simp: distinct_map dest: inj_onD)
  ultimately show "spent ts' (r_id r)" "\<not> spent ts (r_id r)"
    using c unfolding ts' spent_def mark_used_ids by (auto simp: claimable_def split: if_split_asm)
qed

lemma unclaim_ids [simp]: "map t_id (unclaimToken i ts) = map t_id ts" "map t_hash (unclaimToken i ts) = map t_hash ts"
  by (auto simp: unclaimToken_def)

lemma unclaim_spent: "k \<noteq> i \<Longrightarrow> spent (unclaimToken i ts) k = spent ts k"
  unfolding spent_def unclaim_ids by (auto simp: unclaimToken_def split: if_split_asm)

lemma join_invD:
  assumes "join_inv s" "holds_token (j_phase s i) t"
  shows "spent (j_tokens s) t" "t \<notin> set (joined s)" "holds_token (j_phase s k) t \<Longrightarrow> k = i"
  using assms unfolding join_inv_def by blast+

lemma inv_holders:
  assumes "join_inv s"
    "\<And>k t. holds_token (p k) t \<Longrightarrow> spent (j_tokens s) t \<and> t \<notin> set (joined s) \<and> (\<forall>m. holds_token (p m) t \<longrightarrow> m = k)"
  shows "join_inv (s\<lparr>j_phase := p\<rparr>)"
  using assms unfolding join_inv_def by simp

text \<open>A request that goes on, or gives up, keeps the invariant.\<close>

lemma inv_phase:
  assumes "join_inv s" "\<And>t. holds_token p t \<Longrightarrow> holds_token (j_phase s i) t"
  shows "join_inv (s\<lparr>j_phase := (j_phase s)(i := p)\<rparr>)"
proof -
  have "spent (j_tokens s) t \<and> t \<notin> set (joined s) \<and> (\<forall>m. holds_token (((j_phase s)(i := p)) m) t \<longrightarrow> m = k)"
    if "holds_token (((j_phase s)(i := p)) k) t" for k t
  proof -
    have old: "holds_token (j_phase s m) t" if "holds_token (((j_phase s)(i := p)) m) t" for m
      using that assms(2) by (cases "m = i") simp_all
    show ?thesis using join_invD [OF assms(1) old [OF that]] old by blast
  qed
  then show ?thesis by (intro inv_holders [OF assms(1)])
qed

lemma inv_allocate:
  assumes "join_inv s" "\<And>t. r_id r = t \<Longrightarrow> holds_token (j_phase s i) t"
  shows "join_inv (allocate subnet controlIP i attempt r host key s)"
  using assms(2) by (auto simp: allocate_def split: option.split intro!: inv_phase [OF assms(1)])

lemma inv_mint:
  assumes "join_inv s" "token_of sha now i plain opts = Inr t" "i \<notin> t_id ` set (j_tokens s)" "sha plain \<notin> t_hash ` set (j_tokens s)"
  shows "join_inv (s\<lparr>j_tokens := j_tokens s @ [t]\<rparr>)"
proof -
  have t: "t_id t = i" "t_hash t = sha plain" using assms(2) by (auto simp: token_of_def split: if_split_asm)
  have "spent (j_tokens s @ [t]) k" if "spent (j_tokens s) k" for k using that assms(3) t(1) by (auto simp: spent_def)
  then show ?thesis using assms(1,3,4) t unfolding join_inv_def by simp
qed

lemma inv_claim:
  assumes "join_inv s" "j_phase s i = Idle" "claimToken sha now tok (j_tokens s) = (res, ts)"
  shows "join_inv (s\<lparr>j_tokens := ts, j_phase := (j_phase s)(i := (case res of Inl e \<Rightarrow> Failed | Inr r \<Rightarrow> Claimed r host))\<rparr>)"
proof -
  note ids = claimToken_ids [of sha now tok "j_tokens s", unfolded assms(3), simplified]
  have sp: "spent ts t" if "spent (j_tokens s) t" for t using claimToken_spent [OF that, of sha now tok] assms(3) by simp
  have base: "join_inv (s\<lparr>j_tokens := ts\<rparr>)" using assms(1) sp ids unfolding join_inv_def by simp
  show ?thesis
  proof (cases res)
    case (Inl e)
    then show ?thesis using inv_phase [OF base, of Failed i] by simp
  next
    case (Inr r)
    have d: "distinct (map t_id (j_tokens s))" "distinct (map t_hash (j_tokens s))" using assms(1) unfolding join_inv_def by blast+
    have "claimToken sha now tok (j_tokens s) = (Inr r, ts)" using assms(3) Inr by simp
    note ok = claimToken_ok [OF this d]
    have fresh: "r_id r \<notin> set (joined s)" "\<not> holds_token (j_phase s k) (r_id r)" for k
      using assms(1) ok(2) unfolding join_inv_def by blast+
    have "spent ts t \<and> t \<notin> set (joined s) \<and> (\<forall>m. holds_token (((j_phase s)(i := Claimed r host)) m) t \<longrightarrow> m = k)"
      if h: "holds_token (((j_phase s)(i := Claimed r host)) k) t" for k t
    proof (cases "k = i")
      case True
      then have "t = r_id r" using h by simp
      then show ?thesis using ok(1) fresh True by (metis fun_upd_apply)
    next
      case False
      then have hk: "holds_token (j_phase s k) t" using h by simp
      then have "t \<noteq> r_id r" using fresh(2) by blast
      then have "m = k" if "holds_token (((j_phase s)(i := Claimed r host)) m) t" for m
        using that join_invD(3) [OF assms(1) hk, of m] by (cases "m = i") simp_all
      then show ?thesis using sp [OF join_invD(1) [OF assms(1) hk]] join_invD(2) [OF assms(1) hk] by blast
    qed
    note H = this
    have sel: "spent ts = spent (j_tokens (s\<lparr>j_tokens := ts\<rparr>))" "joined s = joined (s\<lparr>j_tokens := ts\<rparr>)" by simp_all
    have "join_inv (s\<lparr>j_tokens := ts\<rparr>\<lparr>j_phase := (j_phase s)(i := Claimed r host)\<rparr>)"
      by (rule inv_holders [OF base H [unfolded sel]])
    then show ?thesis using Inr by simp
  qed
qed

lemma inv_abort:
  assumes "join_inv s" "j_phase s i = Claimed r host"
  shows "join_inv (s\<lparr>j_tokens := unclaimToken (r_id r) (j_tokens s), j_phase := (j_phase s)(i := Failed)\<rparr>)"
proof -
  have mine: "r_id r \<notin> set (joined s)" "holds_token (j_phase s k) (r_id r) \<Longrightarrow> k = i" for k
    using join_invD [OF assms(1), of i "r_id r"] assms(2) by auto
  have "join_inv (s\<lparr>j_phase := (j_phase s)(i := Failed)\<rparr>)" using inv_phase [OF assms(1), of Failed i] by simp
  moreover have "t \<noteq> r_id r" if "holds_token (((j_phase s)(i := Failed)) k) t" for k t
    using that mine(2) by (cases "k = i") auto
  moreover have "t \<noteq> r_id r" if "t \<in> set (joined s)" for t using that mine(1) by blast
  ultimately show ?thesis by (simp add: join_inv_def unclaim_spent)
qed

lemma inv_insert:
  assumes "join_inv s" "j_phase s i = Allocated r host key attempt ip"
  shows "join_inv (insert_node subnet controlIP i r host key attempt ip s)"
proof (cases "duplicate_node (j_nodes s) key ip")
  case True
  then show ?thesis using inv_allocate [OF assms(1)] inv_phase [OF assms(1), of Failed i] assms(2) by (simp add: insert_node_def)
next
  case False
  have h: "holds_token (j_phase s i) (r_id r)" using assms(2) by simp
  have "join_inv (s\<lparr>j_phase := (j_phase s)(i := Joined)\<rparr>)" using inv_phase [OF assms(1), of Joined i] by simp
  moreover have "t \<noteq> r_id r" if "holds_token (((j_phase s)(i := Joined)) k) t" for k t
    using that join_invD(3) [OF assms(1) h, of k] by (cases "k = i") auto
  ultimately show ?thesis using False join_invD(1,2) [OF assms(1) h]
    by (auto simp: join_inv_def insert_node_def duplicate_node_def list_ex_iff new_node_def)
qed

lemma join_inv_reachable:
  assumes "reachable join_start (join_step sha subnet controlIP) s"
  shows "join_inv s"
  using assms
proof (induction rule: invariant_rule)
  case (start s)
  then show ?case by (simp add: join_start_def join_inv_def)
next
  case (step s t)
  from step(2) show ?case
  proof cases
    case (alloc i r host key)
    then show ?thesis using inv_allocate [OF step(3), of r i] by simp
  next
    case (insert_error i r host key attempt ip)
    then show ?thesis using inv_phase [OF step(3), of Failed i] by simp
  next
    case (tick d)
    then show ?thesis using step(3) by (simp add: join_inv_def)
  qed (use step(3) in \<open>simp_all add: inv_mint inv_claim inv_abort inv_insert inv_phase\<close>)
qed

section \<open>Properties\<close>


definition w_opts :: MintOpts where
  "w_opts = \<lparr>NodeGroupID = 1, MaxRoutes = 0, Priority = 0, NameHint = ''''\<rparr>"

definition w_token :: token_row where
  "w_token = \<lparr>t_id = 7, t_prefix = ''abcdefghijkl'', t_hash = ''abcdefghijklm'', t_group = 1, t_max_routes = 1000, t_priority = 100,
     t_name_hint = '''', t_used = False, t_expires = 1800\<rparr>"

definition w_join :: join_state where
  "w_join = \<lparr>j_now = 0, j_tokens = [], j_nodes = [], j_phase = (\<lambda>i. Idle), joined = []\<rparr>"

definition w_resolved :: resolved where
  "w_resolved = \<lparr>r_id = 7, r_group = 1, r_max_routes = 1000, r_priority = 100, r_name_hint = ''''\<rparr>"

definition w_claimed :: join_state where
  "w_claimed = w_join\<lparr>j_tokens := [w_token\<lparr>t_used := True\<rparr>], j_phase := (\<lambda>i. Idle)(0 := Claimed w_resolved '''')\<rparr>"

lemma w_claimed_reachable: "reachable join_start (join_step id subnet controlIP) w_claimed"
proof -
  have "reachable join_start (join_step id subnet controlIP) w_join"
    by (rule reachable_start) (simp add: join_start_def w_join_def)
  moreover have "token_of id (j_now w_join) 7 ''abcdefghijklm'' w_opts = Inr w_token" by code_simp
  then have "join_step id subnet controlIP w_join (w_join\<lparr>j_tokens := j_tokens w_join @ [w_token]\<rparr>)"
    by (rule join_step.mint) (simp_all add: w_join_def)
  ultimately have "reachable join_start (join_step id subnet controlIP) (w_join\<lparr>j_tokens := j_tokens w_join @ [w_token]\<rparr>)"
    by (rule reachable_step)
  then have r: "reachable join_start (join_step id subnet controlIP) (w_join\<lparr>j_tokens := [w_token]\<rparr>)" by (simp add: w_join_def)
  have "claimToken id 0 ''hpg_join_abcdefghijklm'' [w_token] = (Inr w_resolved, [w_token\<lparr>t_used := True\<rparr>])" by code_simp
  then have "join_step id subnet controlIP (w_join\<lparr>j_tokens := [w_token]\<rparr>) w_claimed"
    using join_step.claim [of "w_join\<lparr>j_tokens := [w_token]\<rparr>" 0 id "''hpg_join_abcdefghijklm''" "Inr w_resolved"
        "[w_token\<lparr>t_used := True\<rparr>]" subnet controlIP "''''"]
    by (simp add: w_join_def w_claimed_def)
  with r show ?thesis by (rule reachable_step)
qed

lemma w_alloc: "AllocateNodeIP ''10.66.0.0/24'' ''10.66.0.1'' [] = Some ''10.66.0.2''"
proof -
  have "subnetPrefix ''10.66.0.0/24'' = Some ''10.66.0''" "nat_dec 2 = ''2''" by code_simp+
  moreover have "[2..<255] = 2 # [3..<255]" by (subst upt_conv_Cons) simp_all
  ultimately show ?thesis by (simp add: AllocateNodeIP_def)
qed

definition w_allocated :: join_state where
  "w_allocated = w_claimed\<lparr>j_phase := (\<lambda>i. Idle)(0 := Allocated w_resolved ''node-10-66-0-2'' ''k'' 1 ''10.66.0.2'')\<rparr>"

lemma w_allocated_reachable: "reachable join_start (join_step id ''10.66.0.0/24'' ''10.66.0.1'') w_allocated"
proof -
  have "node_name w_resolved ''10.66.0.2'' = ''node-10-66-0-2''" by code_simp
  moreover have "j_nodes w_claimed = []" "j_phase w_claimed = (\<lambda>i. Idle)(0 := Claimed w_resolved '''')"
    by (simp_all add: w_claimed_def w_join_def)
  ultimately have "allocate ''10.66.0.0/24'' ''10.66.0.1'' 0 1 w_resolved '''' ''k'' w_claimed = w_allocated"
    by (simp add: allocate_def w_alloc w_allocated_def)
  moreover have "j_phase w_claimed 0 = Claimed w_resolved ''''" by (simp add: w_claimed_def)
  ultimately have "join_step id ''10.66.0.0/24'' ''10.66.0.1'' w_claimed w_allocated" using join_step.alloc by metis
  with w_claimed_reachable show ?thesis by (rule reachable_step)
qed

definition w_joined :: join_state where
  "w_joined = w_allocated\<lparr>j_nodes := [new_node w_resolved ''node-10-66-0-2'' ''k'' ''10.66.0.2''], j_phase := (\<lambda>i. Idle)(0 := Joined),
     joined := [7]\<rparr>"


text \<open>C40: a join that fails after the claim can burn its token. When the insert of the
  node fails, or no address is left, the request ends without giving the token back: the token is spent, no node joined with it and no
  request holds it.\<close>

theorem join_token_burned:
  "\<exists>s. reachable join_start (join_step id ''10.66.0.0/24'' ''10.66.0.1'') s \<and> spent (j_tokens s) 7 \<and> joined s = [] \<and>
     (\<forall>i t. \<not> holds_token (j_phase s i) t)"
proof -
  let ?s = "w_allocated\<lparr>j_phase := (j_phase w_allocated)(0 := Failed)\<rparr>"
  have "j_phase w_allocated 0 = Allocated w_resolved ''node-10-66-0-2'' ''k'' 1 ''10.66.0.2''" by (simp add: w_allocated_def)
  then have "join_step id ''10.66.0.0/24'' ''10.66.0.1'' w_allocated ?s" by (rule join_step.insert_error)
  with w_allocated_reachable have "reachable join_start (join_step id ''10.66.0.0/24'' ''10.66.0.1'') ?s" by (rule reachable_step)
  moreover have "spent (j_tokens ?s) 7" "joined ?s = []" "\<forall>i t. \<not> holds_token (j_phase ?s i) t"
    by (simp_all add: w_allocated_def w_claimed_def w_join_def w_token_def spent_def)
  ultimately show ?thesis by blast
qed

end
