(* ===== verification/Idempotency.thy ===== *)
theory Idempotency
  imports Go_Strings Transition
begin

text \<open>
  Repeated API requests (\<open>internal/httpserver/middleware/idempotency.go\<close>): a request with an
  \<open>Idempotency-Key\<close> reserves a row before its handler runs, and a repetition gets the recorded answer.
  Requests run side by side; every statement on the table is one step, and a request is a thread whose
  \<open>stage\<close> says how far it has come. A statement has a \<open>fate\<close>: it may be applied and acknowledged, applied
  with the acknowledgement lost, or not applied. The clock is the one of the database; \<open>sha\<close> is SHA-256
  in hexadecimal, of which nothing is assumed. A handler is taken to end before its reservation of 24
  hours does: time does not pass the end of a reservation whose handler still runs. Two logs serve the
  statements only: \<open>applied\<close> has the runs whose handler did not report a failure, with the time they were
  reserved, and \<open>delivered\<close> the responses that were recorded and sent, with that time.
\<close>

type_synonym headers = "(string \<times> string) list"

record request =
  q_method :: string
  q_key :: string
  q_caller :: "nat option"
  q_path :: string
  q_body :: "string option"

record captureWriter =
  cw_hdr :: headers
  cw_buf :: string
  cw_status :: int

datatype idem_status = Pending | Done | Unresolved

type_synonym stored_response = "int \<times> string \<times> headers option"

record idem_row =
  i_method :: string
  i_path :: string
  i_body_hash :: string
  i_state :: idem_status
  i_operation :: string
  i_lease :: "nat option"
  i_expires :: nat
  i_response :: "stored_response option"

datatype answer =
    Pass_through
  | Key_too_long
  | Body_unreadable
  | Store_unavailable
  | Key_reused
  | In_progress
  | Unresolved_operation string
  | Replay "stored_response option"
  | Fresh captureWriter
  | No_answer

datatype fate = Acked | Lost | Failed

datatype stage =
    Waiting
  | Duplicate request string
  | Expired request string
  | Running request string nat
  | Answered answer

type_synonym idem_key = "string \<times> nat option"

type_synonym idem_table = "idem_key \<rightharpoonup> idem_row"

record idem_state =
  d_now :: nat
  d_rows :: idem_table
  d_stage :: "nat \<Rightarrow> stage"
  applied :: "(idem_key \<times> nat) list"
  delivered :: "(request \<times> captureWriter \<times> nat) list"

definition idempotencyTTL :: nat where
  "idempotencyTTL = 86400"

definition idemLease :: nat where
  "idemLease = 120"

definition replayHeaders :: "string list" where
  "replayHeaders = [''Content-Type'', ''Location'', ''X-Operation-Id'']"

definition mutatingMethod :: "string \<Rightarrow> bool" where
  "mutatingMethod m \<longleftrightarrow> m \<in> {''POST'', ''PUT'', ''PATCH'', ''DELETE''}"

section \<open>Statements\<close>

text \<open>What precedes the reservation: the requests that are not deduplicated, and the refused ones.\<close>

definition admit :: "bool \<Rightarrow> request \<Rightarrow> answer option" where
  "admit has_db q =
     (let key = TrimSpace (q_key q) in
      if \<not> mutatingMethod (q_method q) then Some Pass_through
      else if key = '''' then Some Pass_through
      else if 128 < length key then Some Key_too_long
      else if q_caller q = None then Some Pass_through
      else if \<not> has_db then Some Pass_through
      else if q_body q = None then Some Body_unreadable
      else None)"

definition key_hash :: "(string \<Rightarrow> string) \<Rightarrow> request \<Rightarrow> idem_key" where
  "key_hash sha q = (sha (TrimSpace (q_key q)), q_caller q)"

definition body_hash :: "(string \<Rightarrow> string) \<Rightarrow> request \<Rightarrow> string" where
  "body_hash sha q = (case q_body q of Some b \<Rightarrow> sha b | None \<Rightarrow> '''')"

definition reserved_row :: "(string \<Rightarrow> string) \<Rightarrow> nat \<Rightarrow> request \<Rightarrow> string \<Rightarrow> idem_row" where
  "reserved_row sha now q op =
     \<lparr>i_method = q_method q, i_path = q_path q, i_body_hash = body_hash sha q, i_state = Pending, i_operation = op,
      i_lease = Some (now + idemLease), i_expires = now + idempotencyTTL, i_response = None\<rparr>"

text \<open>The stage after a statement that takes the row: the handler runs only when it was acknowledged.\<close>

definition take_row :: "(string \<Rightarrow> string) \<Rightarrow> fate \<Rightarrow> nat \<Rightarrow> request \<Rightarrow> string \<Rightarrow> idem_table \<Rightarrow> idem_table \<times> stage" where
  "take_row sha f now q op rows =
     ((if f = Failed then rows else rows(key_hash sha q \<mapsto> reserved_row sha now q op)),
      (if f = Acked then Running q op now else Answered Store_unavailable))"

definition reserve :: "(string \<Rightarrow> string) \<Rightarrow> fate \<Rightarrow> nat \<Rightarrow> request \<Rightarrow> string \<Rightarrow> idem_table \<Rightarrow> idem_table \<times> stage" where
  "reserve sha f now q op rows =
     (case rows (key_hash sha q) of
        Some r \<Rightarrow> (rows, if f = Acked then Duplicate q op else Answered Store_unavailable)
      | None \<Rightarrow> take_row sha f now q op rows)"

definition inspect :: "(string \<Rightarrow> string) \<Rightarrow> fate \<Rightarrow> nat \<Rightarrow> request \<Rightarrow> string \<Rightarrow> idem_table \<Rightarrow> stage" where
  "inspect sha f now q op rows =
     (if f \<noteq> Acked then Answered Store_unavailable
      else case rows (key_hash sha q) of
        None \<Rightarrow> Expired q op
      | Some r \<Rightarrow>
          (if i_expires r \<le> now then Expired q op
           else if i_method r \<noteq> q_method q \<or> i_path r \<noteq> q_path q \<or> i_body_hash r \<noteq> body_hash sha q then Answered Key_reused
           else if i_state r = Pending \<and> (case i_lease r of Some l \<Rightarrow> now < l | None \<Rightarrow> False) then Answered In_progress
           else if i_state r \<noteq> Done then Answered (Unresolved_operation (i_operation r))
           else Answered (Replay (i_response r))))"

definition reclaim :: "(string \<Rightarrow> string) \<Rightarrow> fate \<Rightarrow> nat \<Rightarrow> request \<Rightarrow> string \<Rightarrow> idem_table \<Rightarrow> idem_table \<times> stage" where
  "reclaim sha f now q op rows =
     (let taken = (rows, if f = Acked then Answered In_progress else Answered Store_unavailable) in
      case rows (key_hash sha q) of
        Some r \<Rightarrow> (if i_expires r \<le> now then take_row sha f now q op rows else taken)
      | None \<Rightarrow> taken)"

definition cacheable :: "int \<Rightarrow> bool" where
  "cacheable status \<longleftrightarrow> \<not> (status < 200 \<or> 300 \<le> status \<and> status \<noteq> 409)"

definition captureHeaders :: "headers \<Rightarrow> headers option" where
  "captureHeaders hdr =
     (let out = [(k, v). k \<leftarrow> replayHeaders, v \<leftarrow> (case map_of hdr k of Some v \<Rightarrow> [v] | None \<Rightarrow> []), v \<noteq> ''''] in
      if out = [] then None else Some out)"

definition stored :: "captureWriter \<Rightarrow> stored_response" where
  "stored cw = (cw_status cw, cw_buf cw, captureHeaders (cw_hdr cw))"

text \<open>A statement \<open>upd\<close> on the row of a key, restricted to \<open>state = pending\<close>.\<close>

definition on_pending :: "(idem_row \<Rightarrow> idem_row option) \<Rightarrow> idem_key \<Rightarrow> fate \<Rightarrow> idem_table \<Rightarrow> idem_table" where
  "on_pending upd k f rows =
     (case rows k of
        Some r \<Rightarrow> if f \<noteq> Failed \<and> i_state r = Pending then rows(k := upd r) else rows
      | None \<Rightarrow> rows)"

definition pending :: "idem_key \<Rightarrow> idem_table \<Rightarrow> bool" where
  "pending k rows = (case rows k of Some r \<Rightarrow> i_state r = Pending | None \<Rightarrow> False)"

definition finalized :: "nat \<Rightarrow> captureWriter \<Rightarrow> idem_row \<Rightarrow> idem_row" where
  "finalized now cw r =
     r\<lparr>i_state := Done, i_lease := None, i_response := Some (stored cw), i_expires := now + idempotencyTTL\<rparr>"

text \<open>\<open>finalizeIdem\<close> with the fates of its attempts, one per round of its loop; the Boolean is success.\<close>

fun finalizeIdem :: "nat \<Rightarrow> idem_key \<Rightarrow> captureWriter \<Rightarrow> fate list \<Rightarrow> idem_table \<Rightarrow> idem_table \<times> bool" where
  "finalizeIdem now k cw [] rows = (rows, False)"
| "finalizeIdem now k cw (f # fs) rows =
     (let rows' = on_pending (\<lambda>r. Some (finalized now cw r)) k f rows in
      if f = Acked then (rows', pending k rows) else finalizeIdem now k cw fs rows')"

definition markIdemUnresolved :: "idem_key \<Rightarrow> fate \<Rightarrow> idem_table \<Rightarrow> idem_table" where
  "markIdemUnresolved = on_pending (\<lambda>r. Some (r\<lparr>i_state := Unresolved, i_lease := None\<rparr>))"

definition drop_pending :: "idem_key \<Rightarrow> fate \<Rightarrow> idem_table \<Rightarrow> idem_table" where
  "drop_pending = on_pending (\<lambda>_. None)"

definition finish :: "(string \<Rightarrow> string) \<Rightarrow> fate \<times> fate \<times> fate \<Rightarrow> nat \<Rightarrow> request \<Rightarrow> string \<Rightarrow> captureWriter \<Rightarrow> idem_table \<Rightarrow> idem_table \<times> answer" where
  "finish sha fs now q op cw rows =
     (case fs of (f1, f2, f3) \<Rightarrow>
      let k = key_hash sha q in
      if \<not> cacheable (cw_status cw) then (drop_pending k f1 rows, Fresh cw)
      else let (rows', ok) = finalizeIdem now k cw [f1, f2] rows in
      if ok then (rows', Fresh cw) else (markIdemUnresolved k f3 rows', Unresolved_operation op))"

definition IdempotencyPurgeExpired :: "nat \<Rightarrow> idem_table \<Rightarrow> idem_table" where
  "IdempotencyPurgeExpired now rows =
     (\<lambda>k. case rows k of Some r \<Rightarrow> if i_expires r < now then None else Some r | None \<Rightarrow> None)"

section \<open>Interleaving\<close>

definition set_stage :: "nat \<Rightarrow> idem_table \<times> stage \<Rightarrow> idem_state \<Rightarrow> idem_state" where
  "set_stage i res s = s\<lparr>d_rows := fst res, d_stage := (d_stage s)(i := snd res)\<rparr>"

definition log_run :: "(string \<Rightarrow> string) \<Rightarrow> request \<Rightarrow> nat \<Rightarrow> captureWriter \<Rightarrow> answer \<Rightarrow> idem_state \<Rightarrow> idem_state" where
  "log_run sha q t cw a s =
     (if cacheable (cw_status cw)
      then s\<lparr>applied := (key_hash sha q, t) # applied s,
             delivered := (if a = Fresh cw then [(q, cw, d_now s)] else []) @ delivered s\<rparr>
      else s)"

inductive idem_step :: "(string \<Rightarrow> string) \<Rightarrow> idem_state \<Rightarrow> idem_state \<Rightarrow> bool" for sha where
  pass: "d_stage s i = Waiting \<Longrightarrow> admit db q = Some a \<Longrightarrow> idem_step sha s (set_stage i (d_rows s, Answered a) s)"
| reserving: "d_stage s i = Waiting \<Longrightarrow> admit True q = None \<Longrightarrow>
    idem_step sha s (set_stage i (reserve sha f (d_now s) q op (d_rows s)) s)"
| inspecting: "d_stage s i = Duplicate q op \<Longrightarrow>
    idem_step sha s (set_stage i (d_rows s, inspect sha f (d_now s) q op (d_rows s)) s)"
| reclaiming: "d_stage s i = Expired q op \<Longrightarrow>
    idem_step sha s (set_stage i (reclaim sha f (d_now s) q op (d_rows s)) s)"
| finishing: "d_stage s i = Running q op t \<Longrightarrow> finish sha fs (d_now s) q op cw (d_rows s) = (rows', a) \<Longrightarrow>
    idem_step sha s (log_run sha q t cw a (set_stage i (rows', Answered a) s))"
| crash: "d_stage s i = Running q op t \<Longrightarrow>
    idem_step sha s ((set_stage i (d_rows s, Answered No_answer) s)\<lparr>applied := (key_hash sha q, t) # applied s\<rparr>)"
| purge: "idem_step sha s (s\<lparr>d_rows := IdempotencyPurgeExpired (d_now s) (d_rows s)\<rparr>)"
| tick: "(\<And>i q op t. d_stage s i = Running q op t \<Longrightarrow> d_now s + d < t + idempotencyTTL) \<Longrightarrow>
    idem_step sha s (s\<lparr>d_now := d_now s + d\<rparr>)"

definition idem_start :: "idem_state \<Rightarrow> bool" where
  "idem_start s \<longleftrightarrow> d_rows s = Map.empty \<and> (\<forall>i. d_stage s i = Waiting) \<and> applied s = [] \<and> delivered s = []"

section \<open>Invariant\<close>

text \<open>\<open>protected\<close> lists the keys with the time up to which a repetition must not run again.\<close>

definition protected_until :: "(string \<Rightarrow> string) \<Rightarrow> idem_state \<Rightarrow> (idem_key \<times> nat) set" where
  "protected_until sha s =
     (\<lambda>(k, t). (k, t + idempotencyTTL)) ` set (applied s) \<union>
     (\<lambda>(q, cw, t). (key_hash sha q, t + idempotencyTTL)) ` set (delivered s)"

definition for_request :: "(string \<Rightarrow> string) \<Rightarrow> request \<Rightarrow> idem_row \<Rightarrow> bool" where
  "for_request sha q r \<longleftrightarrow> i_method r = q_method q \<and> i_path r = q_path q \<and> i_body_hash r = body_hash sha q"

definition run_ok :: "(string \<Rightarrow> string) \<Rightarrow> nat \<Rightarrow> idem_table \<Rightarrow> (idem_key \<times> nat) set \<Rightarrow> request \<Rightarrow> nat \<Rightarrow> bool" where
  "run_ok sha now rows prot q t \<longleftrightarrow>
     t \<le> now \<and> now < t + idempotencyTTL \<and>
     (\<exists>r. rows (key_hash sha q) = Some r \<and> i_state r = Pending \<and> i_expires r = t + idempotencyTTL \<and> for_request sha q r) \<and>
     (\<forall>e. (key_hash sha q, e) \<in> prot \<longrightarrow> e \<le> t)"

definition kept :: "nat \<Rightarrow> idem_table \<Rightarrow> idem_key \<Rightarrow> nat \<Rightarrow> bool" where
  "kept now rows k e \<longleftrightarrow> (now < e \<longrightarrow> (\<exists>r. rows k = Some r \<and> e \<le> i_expires r))"

definition replayable :: "(string \<Rightarrow> string) \<Rightarrow> nat \<Rightarrow> idem_table \<Rightarrow> request \<Rightarrow> captureWriter \<Rightarrow> nat \<Rightarrow> bool" where
  "replayable sha now rows q cw t \<longleftrightarrow>
     (now < t + idempotencyTTL \<longrightarrow>
      (\<exists>r. rows (key_hash sha q) = Some r \<and> i_state r = Done \<and> i_response r = Some (stored cw) \<and>
           t + idempotencyTTL \<le> i_expires r \<and> for_request sha q r))"

definition runs_apart :: "(idem_key \<times> nat) list \<Rightarrow> bool" where
  "runs_apart = sorted_wrt (\<lambda>(k, t) (k', t'). k = k' \<longrightarrow> t' + idempotencyTTL \<le> t)"

definition idem_inv :: "(string \<Rightarrow> string) \<Rightarrow> idem_state \<Rightarrow> bool" where
  "idem_inv sha s \<longleftrightarrow>
     (\<forall>i q op t. d_stage s i = Running q op t \<longrightarrow> run_ok sha (d_now s) (d_rows s) (protected_until sha s) q t) \<and>
     (\<forall>i j q op t q' op' t'. d_stage s i = Running q op t \<longrightarrow> d_stage s j = Running q' op' t' \<longrightarrow>
        key_hash sha q = key_hash sha q' \<longrightarrow> i = j) \<and>
     (\<forall>k e. (k, e) \<in> protected_until sha s \<longrightarrow> kept (d_now s) (d_rows s) k e) \<and>
     (\<forall>q cw t. (q, cw, t) \<in> set (delivered s) \<longrightarrow> replayable sha (d_now s) (d_rows s) q cw t) \<and>
     runs_apart (applied s)"

lemma idem_inv_run:
  assumes "idem_inv sha s" "d_stage s i = Running q op t"
  shows "run_ok sha (d_now s) (d_rows s) (protected_until sha s) q t"
  using assms(1)[unfolded idem_inv_def, THEN conjunct1] assms(2) by blast

lemma idem_inv_single:
  assumes "idem_inv sha s" "d_stage s i = Running q op t" "d_stage s j = Running q' op' t'"
    "key_hash sha q = key_hash sha q'"
  shows "i = j"
  using assms(1)[unfolded idem_inv_def, THEN conjunct2, THEN conjunct1] assms(2-) by blast

lemma idem_inv_kept:
  assumes "idem_inv sha s" "(k, e) \<in> protected_until sha s"
  shows "kept (d_now s) (d_rows s) k e"
  using assms(1)[unfolded idem_inv_def, THEN conjunct2, THEN conjunct2, THEN conjunct1] assms(2) by blast

lemma idem_inv_replayable:
  assumes "idem_inv sha s" "(q, cw, t) \<in> set (delivered s)"
  shows "replayable sha (d_now s) (d_rows s) q cw t"
  using assms(1)[unfolded idem_inv_def, THEN conjunct2, THEN conjunct2, THEN conjunct2, THEN conjunct1] assms(2) by blast

lemma idem_inv_apart: "idem_inv sha s \<Longrightarrow> runs_apart (applied s)"
  by (simp add: idem_inv_def)

lemma idem_invI:
  assumes "\<And>i q op t. d_stage s i = Running q op t \<Longrightarrow> run_ok sha (d_now s) (d_rows s) (protected_until sha s) q t"
    and "\<And>i j q op t q' op' t'. d_stage s i = Running q op t \<Longrightarrow> d_stage s j = Running q' op' t' \<Longrightarrow>
      key_hash sha q = key_hash sha q' \<Longrightarrow> i = j"
    and "\<And>k e. (k, e) \<in> protected_until sha s \<Longrightarrow> kept (d_now s) (d_rows s) k e"
    and "\<And>q cw t. (q, cw, t) \<in> set (delivered s) \<Longrightarrow> replayable sha (d_now s) (d_rows s) q cw t"
    and "runs_apart (applied s)"
  shows "idem_inv sha s"
  unfolding idem_inv_def by (intro conjI allI impI) (use assms in blast)+

text \<open>A delivered response is among the protected ones.\<close>

lemma delivered_protected: "(q, cw, t) \<in> set (delivered s) \<Longrightarrow> (key_hash sha q, t + idempotencyTTL) \<in> protected_until sha s"
  by (force simp: protected_until_def)

lemma applied_protected: "(k, t) \<in> set (applied s) \<Longrightarrow> (k, t + idempotencyTTL) \<in> protected_until sha s"
  by (force simp: protected_until_def)

lemma set_stage_simps [simp]:
  "d_now (set_stage i res s) = d_now s" "d_rows (set_stage i res s) = fst res"
  "d_stage (set_stage i res s) = (d_stage s)(i := snd res)"
  "applied (set_stage i res s) = applied s" "delivered (set_stage i res s) = delivered s"
  "protected_until sha (set_stage i res s) = protected_until sha s"
  by (simp_all add: set_stage_def protected_until_def)

text \<open>A thread that stops or moves on without a handler, the table unchanged.\<close>

lemma inv_leave:
  assumes "idem_inv sha s" "\<And>q op t. stg \<noteq> Running q op t"
  shows "idem_inv sha (set_stage i (d_rows s, stg) s)"
proof (rule idem_invI)
  fix j q op t
  assume "d_stage (set_stage i (d_rows s, stg) s) j = Running q op t"
  then have "d_stage s j = Running q op t" using assms(2) by (auto split: if_splits)
  then show "run_ok sha (d_now (set_stage i (d_rows s, stg) s)) (d_rows (set_stage i (d_rows s, stg) s))
      (protected_until sha (set_stage i (d_rows s, stg) s)) q t"
    using idem_inv_run [OF assms(1)] by simp
next
  fix j j' q op t q' op' t'
  assume "d_stage (set_stage i (d_rows s, stg) s) j = Running q op t"
    "d_stage (set_stage i (d_rows s, stg) s) j' = Running q' op' t'" and k: "key_hash sha q = key_hash sha q'"
  then have "d_stage s j = Running q op t" "d_stage s j' = Running q' op' t'" using assms(2) by (auto split: if_splits)
  then show "j = j'" by (rule idem_inv_single [OF assms(1) _ _ k])
qed (use idem_inv_kept [OF assms(1)] idem_inv_replayable [OF assms(1)] idem_inv_apart [OF assms(1)] in simp_all)

text \<open>Taking a row that is absent or has expired: no run and no protection of its key is left.\<close>

lemma free_key:
  assumes inv: "idem_inv sha s" and free: "case d_rows s k of Some r \<Rightarrow> i_expires r \<le> d_now s | None \<Rightarrow> True"
  shows "(k, e) \<in> protected_until sha s \<Longrightarrow> e \<le> d_now s"
    and "d_stage s i = Running q op t \<Longrightarrow> key_hash sha q \<noteq> k"
proof -
  assume "(k, e) \<in> protected_until sha s"
  from idem_inv_kept [OF inv this] show "e \<le> d_now s"
    using free unfolding kept_def by (cases "d_rows s k") auto
next
  assume "d_stage s i = Running q op t"
  from idem_inv_run [OF inv this] show "key_hash sha q \<noteq> k"
    using free unfolding run_ok_def by (cases "d_rows s k") auto
qed

lemma inv_take:
  assumes inv: "idem_inv sha s"
    and free: "case d_rows s (key_hash sha q) of Some r \<Rightarrow> i_expires r \<le> d_now s | None \<Rightarrow> True"
  shows "idem_inv sha (set_stage i (take_row sha f (d_now s) q op (d_rows s)) s)"
proof (cases "f = Failed")
  case True
  then show ?thesis using inv_leave [OF inv] by (simp add: take_row_def)
next
  case False
  let ?k = "key_hash sha q"
  let ?rows = "(d_rows s)(?k \<mapsto> reserved_row sha (d_now s) q op)"
  let ?stg = "if f = Acked then Running q op (d_now s) else Answered Store_unavailable"
  let ?s = "set_stage i (?rows, ?stg) s"
  have "idem_inv sha ?s"
  proof (rule idem_invI)
    fix j q' op' t'
    assume run: "d_stage ?s j = Running q' op' t'"
    show "run_ok sha (d_now ?s) (d_rows ?s) (protected_until sha ?s) q' t'"
    proof (cases "j = i")
      case True
      then have "q' = q" "t' = d_now s" using run by (simp_all split: if_splits)
      then show ?thesis using free_key(1) [OF inv free]
        by (simp add: run_ok_def reserved_row_def for_request_def idempotencyTTL_def)
    next
      case False
      then have old: "d_stage s j = Running q' op' t'" using run by simp
      show ?thesis using idem_inv_run [OF inv old] free_key(2) [OF inv free old] by (simp add: run_ok_def)
    qed
  next
    fix j j' q1 op1 t1 q2 op2 t2
    assume r: "d_stage ?s j = Running q1 op1 t1" "d_stage ?s j' = Running q2 op2 t2" "key_hash sha q1 = key_hash sha q2"
    show "j = j'"
    proof (cases "j = i"; cases "j' = i")
      assume "j \<noteq> i" "j' \<noteq> i"
      with r show ?thesis by (intro idem_inv_single [OF inv, of j q1 op1 t1 j' q2 op2 t2]) simp_all
    next
      assume "j = i" "j' \<noteq> i"
      with r show ?thesis using free_key(2) [OF inv free, of j' q2 op2 t2] by (simp split: if_splits)
    next
      assume "j \<noteq> i" "j' = i"
      with r show ?thesis using free_key(2) [OF inv free, of j q1 op1 t1] by (simp split: if_splits)
    qed simp
  next
    fix k e
    assume "(k, e) \<in> protected_until sha ?s"
    then have p: "(k, e) \<in> protected_until sha s" by simp
    show "kept (d_now ?s) (d_rows ?s) k e"
      using idem_inv_kept [OF inv p] free_key(1) [OF inv free, of e] p by (auto simp: kept_def)
  next
    fix q' cw t
    assume "(q', cw, t) \<in> set (delivered ?s)"
    then have d: "(q', cw, t) \<in> set (delivered s)" by simp
    show "replayable sha (d_now ?s) (d_rows ?s) q' cw t"
      using idem_inv_replayable [OF inv d] free_key(1) [OF inv free, of "t + idempotencyTTL"] delivered_protected [OF d, of sha]
      by (auto simp: replayable_def)
  next
    show "runs_apart (applied ?s)" using idem_inv_apart [OF inv] by simp
  qed
  with False show ?thesis by (simp add: take_row_def)
qed

text \<open>The end of a run: only the row of its key changes, and what is logged is protected by that row.\<close>

definition run_logs :: "(string \<Rightarrow> string) \<Rightarrow> request \<Rightarrow> nat \<Rightarrow> nat \<Rightarrow> idem_table \<Rightarrow> (idem_key \<times> nat) list \<Rightarrow> (request \<times> captureWriter \<times> nat) list \<Rightarrow> bool" where
  "run_logs sha q t now rows as ds \<longleftrightarrow>
     as \<in> {[], [(key_hash sha q, t)]} \<and> (as \<noteq> [] \<longrightarrow> kept now rows (key_hash sha q) (t + idempotencyTTL)) \<and>
     (\<forall>d \<in> set ds. \<exists>cw. d = (q, cw, now) \<and> replayable sha now rows q cw now)"

lemma run_logs_protected:
  assumes "run_logs sha q t now rows as ds" "applied s' = as @ applied s" "delivered s' = ds @ delivered s"
    "(k, e) \<in> protected_until sha s'"
  shows "(k, e) \<in> protected_until sha s \<or> k = key_hash sha q \<and> kept now rows k e"
proof -
  have "(k, e) \<in> protected_until sha s \<or> (k, e) \<in> (\<lambda>(k, t). (k, t + idempotencyTTL)) ` set as \<or>
      (k, e) \<in> (\<lambda>(q, cw, t). (key_hash sha q, t + idempotencyTTL)) ` set ds"
    using assms(4) by (auto simp: protected_until_def assms(2,3) image_Un)
  moreover have "k = key_hash sha q \<and> kept now rows k e" if "(k, e) \<in> (\<lambda>(k, t). (k, t + idempotencyTTL)) ` set as"
    using assms(1) that unfolding run_logs_def by auto
  moreover have "k = key_hash sha q \<and> kept now rows k e"
    if d: "(k, e) \<in> (\<lambda>(q, cw, t). (key_hash sha q, t + idempotencyTTL)) ` set ds"
  proof -
    obtain cw where "replayable sha now rows q cw now" "k = key_hash sha q" "e = now + idempotencyTTL"
      using assms(1) d unfolding run_logs_def by fastforce
    then show ?thesis by (auto simp: replayable_def kept_def)
  qed
  ultimately show ?thesis by blast
qed

lemma inv_release:
  assumes inv: "idem_inv sha s" and run: "d_stage s i = Running q op t"
    and rows: "\<And>k. k \<noteq> key_hash sha q \<Longrightarrow> rows' k = d_rows s k"
    and logs: "run_logs sha q t (d_now s) rows' as ds"
  shows "idem_inv sha ((set_stage i (rows', Answered a) s)\<lparr>applied := as @ applied s, delivered := ds @ delivered s\<rparr>)"
    (is "idem_inv sha ?s")
proof (rule idem_invI)
  let ?k = "key_hash sha q"
  have ok: "run_ok sha (d_now s) (d_rows s) (protected_until sha s) q t" by (rule idem_inv_run [OF inv run])
  have prot: "(k, e) \<in> protected_until sha s \<or> k = ?k \<and> kept (d_now s) rows' k e"
    if "(k, e) \<in> protected_until sha ?s" for k e
    by (rule run_logs_protected [OF logs _ _ that]) simp_all
  have past: "e \<le> d_now s" if "(?k, e) \<in> protected_until sha s" for e
    using ok that unfolding run_ok_def by (meson le_trans)
  {
    fix j q' op' t'
    assume r: "d_stage ?s j = Running q' op' t'"
    then have old: "d_stage s j = Running q' op' t'" and "j \<noteq> i" by (auto split: if_splits)
    then have k: "key_hash sha q' \<noteq> ?k" using idem_inv_single [OF inv old run] by blast
    have "(key_hash sha q', e) \<in> protected_until sha s" if "(key_hash sha q', e) \<in> protected_until sha ?s" for e
      using prot [OF that] k by blast
    then show "run_ok sha (d_now ?s) (d_rows ?s) (protected_until sha ?s) q' t'"
      using idem_inv_run [OF inv old] rows [OF k] by (simp add: run_ok_def)
  next
    fix j j' q1 op1 t1 q2 op2 t2
    assume "d_stage ?s j = Running q1 op1 t1" "d_stage ?s j' = Running q2 op2 t2" and k: "key_hash sha q1 = key_hash sha q2"
    then have "d_stage s j = Running q1 op1 t1" "d_stage s j' = Running q2 op2 t2" by (auto split: if_splits)
    then show "j = j'" by (rule idem_inv_single [OF inv _ _ k])
  next
    fix k e
    assume "(k, e) \<in> protected_until sha ?s"
    from prot [OF this] show "kept (d_now ?s) (d_rows ?s) k e"
      using idem_inv_kept [OF inv, of k e] rows [of k] past [of e] by (cases "k = ?k") (auto simp: kept_def)
  next
    fix q' cw t'
    assume "(q', cw, t') \<in> set (delivered ?s)"
    then consider "(q', cw, t') \<in> set ds" | "(q', cw, t') \<in> set (delivered s)" by auto
    then show "replayable sha (d_now ?s) (d_rows ?s) q' cw t'"
    proof cases
      case 1
      then show ?thesis using logs by (auto simp: run_logs_def)
    next
      case 2
      from idem_inv_replayable [OF inv 2] past [of "t' + idempotencyTTL"] delivered_protected [OF 2, of sha] rows [of "key_hash sha q'"]
      show ?thesis by (cases "key_hash sha q' = ?k") (auto simp: replayable_def)
    qed
  next
    have "t' + idempotencyTTL \<le> t" if "(?k, t') \<in> set (applied s)" for t'
      using ok applied_protected [OF that, of sha] by (simp add: run_ok_def)
    then show "runs_apart (applied ?s)"
      using idem_inv_apart [OF inv] logs by (auto simp: runs_apart_def run_logs_def)
  }
qed

lemma on_pending_other [simp]: "k' \<noteq> k \<Longrightarrow> on_pending upd k f rows k' = rows k'"
  by (simp add: on_pending_def split: option.split)

lemma finalizeIdem_other: "k' \<noteq> k \<Longrightarrow> fst (finalizeIdem now k cw fs rows) k' = rows k'"
  by (induction now k cw fs rows rule: finalizeIdem.induct) (simp_all add: Let_def)

text \<open>The row of the finished run after any fates of the two attempts: recorded, or still pending. An
  acknowledged success means that it is recorded.\<close>

lemma finalizeIdem_row:
  assumes "rows k = Some r" "i_state r = Pending"
  shows "fst (finalizeIdem now k cw [f1, f2] rows) k \<in> {Some r, Some (finalized now cw r)}"
    and "snd (finalizeIdem now k cw [f1, f2] rows) \<Longrightarrow>
      fst (finalizeIdem now k cw [f1, f2] rows) k = Some (finalized now cw r)"
  using assms by (cases f1; cases f2; simp add: on_pending_def pending_def finalized_def)+

text \<open>What a finished run leaves behind.\<close>

lemma finish_logs:
  assumes ok: "run_ok sha now rows prot q t" and fin: "finish sha fs now q op cw rows = (rows', a)"
  shows "run_logs sha q t now rows' (if cacheable (cw_status cw) then [(key_hash sha q, t)] else [])
      (if cacheable (cw_status cw) \<and> a = Fresh cw then [(q, cw, now)] else [])"
    and "k \<noteq> key_hash sha q \<Longrightarrow> rows' k = rows k"
proof -
  obtain f1 f2 f3 where fs: "fs = (f1, f2, f3)" by (cases fs)
  let ?k = "key_hash sha q" and ?f = "finalizeIdem now (key_hash sha q) cw [f1, f2] rows"
  obtain r where r: "rows ?k = Some r" "i_state r = Pending" "i_expires r = t + idempotencyTTL" "for_request sha q r"
    and t: "t \<le> now" using ok by (auto simp: run_ok_def)
  note row = finalizeIdem_row [of rows ?k r, OF r(1,2), of now cw f1 f2]
  show "run_logs sha q t now rows' (if cacheable (cw_status cw) then [(?k, t)] else [])
      (if cacheable (cw_status cw) \<and> a = Fresh cw then [(q, cw, now)] else [])"
  proof (cases "cacheable (cw_status cw)")
    case False
    then show ?thesis by (simp add: run_logs_def)
  next
    case True
    show ?thesis
    proof (cases "snd ?f")
      case ok: True
      then have "rows' = fst ?f" using fin True by (simp_all add: finish_def fs Let_def case_prod_beta del: finalizeIdem.simps)
      then have "rows' ?k = Some (finalized now cw r)" using row(2) [OF ok] by simp
      then show ?thesis using r(4) t True
        by (simp add: run_logs_def kept_def replayable_def finalized_def for_request_def)
    next
      case bad: False
      then have "rows' = markIdemUnresolved ?k f3 (fst ?f)" "a = Unresolved_operation op"
        using fin True by (simp_all add: finish_def fs Let_def case_prod_beta del: finalizeIdem.simps)
      then show ?thesis using row(1) r(3) t
        by (auto simp: run_logs_def kept_def markIdemUnresolved_def on_pending_def finalized_def)
    qed
  qed
  show "rows' k = rows k" if "k \<noteq> ?k"
    using fin that finalizeIdem_other [OF that, of now cw "[f1, f2]" rows]
    by (auto simp: finish_def fs Let_def case_prod_beta drop_pending_def markIdemUnresolved_def simp del: finalizeIdem.simps
        split: if_splits)
qed

lemma inv_time:
  assumes inv: "idem_inv sha s" and runs: "\<And>i q op t. d_stage s i = Running q op t \<Longrightarrow> d_now s + d < t + idempotencyTTL"
  shows "idem_inv sha (s\<lparr>d_now := d_now s + d\<rparr>)"
proof (rule idem_invI)
  have [simp]: "protected_until sha (s\<lparr>d_now := d_now s + d\<rparr>) = protected_until sha s" by (simp add: protected_until_def)
  {
    fix i q op t
    assume "d_stage (s\<lparr>d_now := d_now s + d\<rparr>) i = Running q op t"
    then have r: "d_stage s i = Running q op t" by simp
    show "run_ok sha (d_now (s\<lparr>d_now := d_now s + d\<rparr>)) (d_rows (s\<lparr>d_now := d_now s + d\<rparr>))
        (protected_until sha (s\<lparr>d_now := d_now s + d\<rparr>)) q t"
      using idem_inv_run [OF inv r] runs [OF r] by (simp add: run_ok_def)
  next
    fix k e
    assume "(k, e) \<in> protected_until sha (s\<lparr>d_now := d_now s + d\<rparr>)"
    then show "kept (d_now (s\<lparr>d_now := d_now s + d\<rparr>)) (d_rows (s\<lparr>d_now := d_now s + d\<rparr>)) k e"
      using idem_inv_kept [OF inv, of k e] by (simp add: kept_def)
  next
    fix q cw t
    assume "(q, cw, t) \<in> set (delivered (s\<lparr>d_now := d_now s + d\<rparr>))"
    then show "replayable sha (d_now (s\<lparr>d_now := d_now s + d\<rparr>)) (d_rows (s\<lparr>d_now := d_now s + d\<rparr>)) q cw t"
      using idem_inv_replayable [OF inv, of q cw t] by (simp add: replayable_def)
  }
qed (use idem_inv_single [OF inv] idem_inv_apart [OF inv] in simp_all)

lemma purge_keeps: "rows k = Some r \<Longrightarrow> now \<le> i_expires r \<Longrightarrow> IdempotencyPurgeExpired now rows k = Some r"
  by (simp add: IdempotencyPurgeExpired_def)

lemma inv_purge:
  assumes inv: "idem_inv sha s"
  shows "idem_inv sha (s\<lparr>d_rows := IdempotencyPurgeExpired (d_now s) (d_rows s)\<rparr>)" (is "idem_inv sha ?s")
proof (rule idem_invI)
  have [simp]: "protected_until sha ?s = protected_until sha s" by (simp add: protected_until_def)
  {
    fix i q op t
    assume "d_stage ?s i = Running q op t"
    then have "run_ok sha (d_now s) (d_rows s) (protected_until sha s) q t" using idem_inv_run [OF inv] by simp
    then show "run_ok sha (d_now ?s) (d_rows ?s) (protected_until sha ?s) q t"
      unfolding run_ok_def using purge_keeps [of "d_rows s" "key_hash sha q" _ "d_now s"] by auto
  next
    fix k e
    assume "(k, e) \<in> protected_until sha ?s"
    then have "kept (d_now s) (d_rows s) k e" using idem_inv_kept [OF inv] by simp
    then show "kept (d_now ?s) (d_rows ?s) k e"
      unfolding kept_def using purge_keeps [of "d_rows s" k _ "d_now s"] by fastforce
  next
    fix q cw t
    assume "(q, cw, t) \<in> set (delivered ?s)"
    then have "replayable sha (d_now s) (d_rows s) q cw t" using idem_inv_replayable [OF inv] by simp
    then show "replayable sha (d_now ?s) (d_rows ?s) q cw t"
      unfolding replayable_def using purge_keeps [of "d_rows s" "key_hash sha q" _ "d_now s"] by fastforce
  }
qed (use idem_inv_single [OF inv] idem_inv_apart [OF inv] in simp_all)

lemma log_run_update:
  "log_run sha q t cw a s =
     s\<lparr>applied := (if cacheable (cw_status cw) then [(key_hash sha q, t)] else []) @ applied s,
       delivered := (if cacheable (cw_status cw) \<and> a = Fresh cw then [(q, cw, d_now s)] else []) @ delivered s\<rparr>"
  by (simp add: log_run_def)

lemma inspect_not_running: "inspect sha f now q op rows \<noteq> Running q' op' t"
  by (simp add: inspect_def split: option.split)

lemma idem_inv_step:
  assumes "idem_step sha s s'" "idem_inv sha s"
  shows "idem_inv sha s'"
  using assms
proof (induction rule: idem_step.induct)
  case (reserving s i q f op)
  then show ?case
    by (cases "d_rows s (key_hash sha q)") (simp_all add: reserve_def inv_take inv_leave)
next
  case (reclaiming s i q op f)
  then show ?case
    by (cases "d_rows s (key_hash sha q)") (simp_all add: reclaim_def Let_def inv_take inv_leave)
next
  case (finishing s i q op t fs cw rows' a)
  note fin = finish_logs [OF idem_inv_run [OF finishing.prems finishing.hyps(1)] finishing.hyps(2)]
  show ?case
    unfolding log_run_update set_stage_simps by (rule inv_release [OF finishing.prems finishing.hyps(1) fin(2) fin(1)])
next
  case (crash s i q op t)
  have "run_logs sha q t (d_now s) (d_rows s) [(key_hash sha q, t)] []"
    using idem_inv_run [OF crash.prems crash.hyps] by (auto simp: run_logs_def run_ok_def kept_def)
  from inv_release [OF crash.prems crash.hyps refl this, of No_answer] show ?case by (simp add: set_stage_def)
next
  case (pass s i db q a)
  show ?case by (rule inv_leave [OF pass.prems]) simp
next
  case (inspecting s i q op f)
  show ?case by (rule inv_leave [OF inspecting.prems inspect_not_running])
next
  case (purge s)
  then show ?case by (rule inv_purge)
next
  case (tick s d)
  from tick.prems tick.hyps show ?case by (rule inv_time)
qed

lemma idem_inv_reachable: "reachable idem_start (idem_step sha) s \<Longrightarrow> idem_inv sha s"
proof (induction rule: invariant_rule)
  case (start s)
  then show ?case by (simp add: idem_start_def idem_inv_def protected_until_def runs_apart_def)
next
  case (step s t)
  show ?case by (rule idem_inv_step [OF step(2) step(3)])
qed

section \<open>What a caller can rely on\<close>

text \<open>C36: A request with an idempotency key takes effect at most once, as long as no handler outlives its
  reservation. In every reachable state, whatever
  statements on the table fail or lose their acknowledgement and whichever requests crash, two handlers
  never run at once for one key of one user; runs of one key whose handler did not report a failure were
  reserved at least 24 hours apart; and a handler that runs was reserved at least 24 hours after each of
  those.\<close>

theorem idempotency_at_most_once:
  assumes "reachable idem_start (idem_step sha) s"
  shows "(\<forall>i j q op t q' op' t'. d_stage s i = Running q op t \<and> d_stage s j = Running q' op' t' \<and>
        key_hash sha q = key_hash sha q' \<longrightarrow> i = j) \<and>
    (\<forall>a b. a < b \<and> b < length (applied s) \<and> fst (applied s ! a) = fst (applied s ! b) \<longrightarrow>
        snd (applied s ! b) + idempotencyTTL \<le> snd (applied s ! a)) \<and>
    (\<forall>i q op t t'. d_stage s i = Running q op t \<and> (key_hash sha q, t') \<in> set (applied s) \<longrightarrow> t' + idempotencyTTL \<le> t)"
proof (intro conjI allI impI; elim conjE)
  note inv = idem_inv_reachable [OF assms]
  {
    fix i j q op t q' op' t'
    assume "d_stage s i = Running q op t" "d_stage s j = Running q' op' t'" "key_hash sha q = key_hash sha q'"
    then show "i = j" by (rule idem_inv_single [OF inv])
  next
    fix a b
    assume "a < b" "b < length (applied s)" "fst (applied s ! a) = fst (applied s ! b)"
    then show "snd (applied s ! b) + idempotencyTTL \<le> snd (applied s ! a)"
      using sorted_wrt_nth_less [OF idem_inv_apart [OF inv, unfolded runs_apart_def], of a b] by (simp add: case_prod_beta)
  next
    fix i q op t t'
    assume "d_stage s i = Running q op t" "(key_hash sha q, t') \<in> set (applied s)"
    then show "t' + idempotencyTTL \<le> t"
      using idem_inv_run [OF inv] applied_protected [of _ _ s sha] unfolding run_ok_def by blast
  }
qed

text \<open>C37: A response that reached its caller is repeated for 24 hours. A later request with the same key is
  sent to the stored row, and gets the stored status, body and replayable headers when its method, path
  and body are those of the first, and a conflict otherwise; its handler does not run.\<close>

theorem idempotency_replay:
  assumes "reachable idem_start (idem_step sha) s" "(q, cw, t) \<in> set (delivered s)" "d_now s < t + idempotencyTTL"
    "key_hash sha q' = key_hash sha q"
  shows "reserve sha Acked (d_now s) q' op (d_rows s) = (d_rows s, Duplicate q' op) \<and>
    inspect sha Acked (d_now s) q' op (d_rows s) =
      Answered (if q_method q' = q_method q \<and> q_path q' = q_path q \<and> body_hash sha q' = body_hash sha q
                then Replay (Some (cw_status cw, cw_buf cw, captureHeaders (cw_hdr cw))) else Key_reused)"
  using idem_inv_replayable [OF idem_inv_reachable [OF assms(1)] assms(2)] assms(3,4)
  by (auto simp: replayable_def reserve_def inspect_def for_request_def stored_def)

text \<open>A run for the witnesses: one request is reserved, its handler answers 201, and the answer is recorded.\<close>

definition demo_request :: request where
  "demo_request = \<lparr>q_method = ''POST'', q_key = '' k1 '', q_caller = Some 7, q_path = ''/api'', q_body = Some ''b''\<rparr>"

definition demo_writer :: captureWriter where
  "demo_writer = \<lparr>cw_hdr = [(''Location'', ''/x'')], cw_buf = ''ok'', cw_status = 201\<rparr>"

definition demo_empty :: idem_state where
  "demo_empty = \<lparr>d_now = 0, d_rows = Map.empty, d_stage = (\<lambda>_. Waiting), applied = [], delivered = []\<rparr>"

definition demo_running :: idem_state where
  "demo_running = set_stage 0 (reserve id Acked 0 demo_request ''o'' Map.empty) demo_empty"

definition demo_done :: idem_state where
  "demo_done =
     (case finish id (Acked, Acked, Acked) 0 demo_request ''o'' demo_writer (d_rows demo_running) of
        (rows, a) \<Rightarrow> log_run id demo_request 0 demo_writer a (set_stage 0 (rows, Answered a) demo_running))"

lemma demo_reachable:
  "reachable idem_start (idem_step id) demo_running" "reachable idem_start (idem_step id) demo_done"
proof -
  have "admit True demo_request = None" by code_simp
  from idem_step.reserving [OF _ this, of demo_empty 0 id Acked "''o''"]
  have "idem_step id demo_empty demo_running" by (simp add: demo_running_def demo_empty_def)
  moreover have "idem_start demo_empty" by (simp add: idem_start_def demo_empty_def)
  ultimately show r: "reachable idem_start (idem_step id) demo_running" by (blast intro: reachable_start reachable_step)
  have "d_stage demo_running 0 = Running demo_request ''o'' 0" "d_now demo_running = 0"
    by (simp_all add: demo_running_def demo_empty_def reserve_def take_row_def)
  from idem_step.finishing [OF this(1), of id "(Acked, Acked, Acked)" demo_writer] this(2)
  have "idem_step id demo_running demo_done" by (simp add: demo_done_def split: prod.split)
  with r show "reachable idem_start (idem_step id) demo_done" by (rule reachable_step)
qed

theorem idempotency_at_most_once_witness:
  "reachable idem_start (idem_step id) demo_running \<and>
   {j. \<exists>q op t. d_stage demo_running j = Running q op t \<and> key_hash id q = (''k1'', Some 7)} = {0}"
proof -
  have run: "d_stage demo_running 0 = Running demo_request ''o'' 0"
    by (simp add: demo_running_def demo_empty_def reserve_def take_row_def)
  have key: "key_hash id demo_request = (''k1'', Some 7)" by code_simp
  have "j = 0" if "d_stage demo_running j = Running q op t" "key_hash id q = (''k1'', Some 7)" for j q op t
    using idempotency_at_most_once [OF demo_reachable(1), THEN conjunct1, rule_format, of j q op t 0 demo_request "''o''" 0]
      run key that by simp
  with run key demo_reachable(1) show ?thesis by blast
qed

theorem idempotency_replay_witness:
  "inspect id Acked (d_now demo_done) demo_request ''p'' (d_rows demo_done) =
     Answered (Replay (Some (201, ''ok'', Some [(''Location'', ''/x'')])))"
proof -
  have d: "(demo_request, demo_writer, 0) \<in> set (delivered demo_done)"
    by (simp add: demo_done_def demo_running_def demo_empty_def demo_writer_def reserve_def take_row_def finish_def log_run_def
        cacheable_def on_pending_def pending_def reserved_row_def)
  have n: "d_now demo_done < 0 + idempotencyTTL"
    by (simp add: demo_done_def log_run_def demo_running_def demo_empty_def idempotencyTTL_def split: prod.split)
  have c: "captureHeaders (cw_hdr demo_writer) = Some [(''Location'', ''/x'')]" by code_simp
  show ?thesis using idempotency_replay [OF demo_reachable(2) d n refl, of "''p''"] c by (simp add: demo_writer_def)
qed

end
