(* ===== verification/Spec2Isabelle.thy ===== *)
theory Spec2Isabelle
  imports Host_Match Tenant_Template Custom_Handlers Waf_Directives Error_Page Route_Gates Route_Order
    Go_Net Route_Properties Backup_Integrity Leader Placement_Properties Push_Delivery Quota Node_Properties
    Admin_Scope Node_Join Idempotency
begin

text \<open>
  \<^bold>\<open>The program.\<close> A panel manages reverse-proxy routes of many tenants on a fleet of Caddy nodes. Tenants and
  administrators edit routes; the panel places each route on nodes with room for it, builds one JSON
  configuration per node, and pushes it to the node until it is live. Resellers own clients within a
  package; several replicas of the panel elect one leader for the background work; nodes join with a
  one-time token; the HTTP API deduplicates repeated requests; backups are written as an encrypted stream.
  Paths below are relative to \<open>src/\<close>; \<open>caddyapi\<close>, \<open>routes\<close> and \<open>handlers\<close> stand for \<open>internal/caddyapi\<close>,
  \<open>internal/domain/routes\<close> and \<open>internal/httpserver/handlers\<close>.

  \<^bold>\<open>Conventions.\<close> A Go string is a list of bytes. A slice is a list, a map an association list or a HOL map,
  a struct a record with the source's field names (prefixed where two would clash), a Go error a
  value of the component's error type in a sum or an option. A panic is \<^term>\<open>None\<close>. A table is a list of
  rows or an association list by primary key; a transaction is a function on the tables; where requests
  or replicas interleave, every statement is a step of an inductive relation and a request is a thread
  with a program counter. Integers are unbounded except where the width matters: durations of the
  push backoff are 64-bit words, the index of a backup chunk is encoded modulo \<open>2^64\<close>.

  \<^bold>\<open>Prelude.\<close>
  \<^item> \<open>Go_Strings\<close>, \<open>Go_Errors\<close>, \<open>Go_Net\<close>: what the code uses of packages \<open>strings\<close>, \<open>strconv\<close>, \<open>net\<close> and of
    loops over errors. \<open>Json\<close>: JSON values and their traversals.
  \<^item> \<open>Transition\<close>: reachable states, the rule for invariants, and the locale \<open>simulation\<close> for
    refinements, interpreted for placement and for pushes.
  \<^item> \<open>Union_Find\<close>: the forest of \<open>EmissionOrder\<close> as a partial function with its invariant, through the
    locale \<open>partition_ops\<close> that the emission order relies on.

  \<^bold>\<open>Screening of tenant input.\<close>
  \<^item> \<open>Tenant_Template\<close> (\<open>caddyapi/tenanttemplate.go\<close>): neutralised text keeps exactly the permitted
    placeholders and passes the screen.
  \<^item> \<open>Custom_Handlers\<close> (\<open>caddyapi/customhandlers.go\<close>): an accepted handler chain is safe at every depth and
    is accepted again when it is read back.
  \<^item> \<open>Waf_Directives\<close> (\<open>caddyapi/wafdirectives.go\<close>): sanitised directives are valid, and nothing panics.
  \<^item> \<open>Error_Page\<close> (\<open>caddyapi/errorpage.go\<close>): no tenant text adds a placeholder to a page.

  \<^bold>\<open>Routes.\<close>
  \<^item> \<open>Host_Match\<close>, \<open>Route_Order\<close> (\<open>caddyapi/routeorder.go\<close>): the overlap test decides whether some host is
    matched by both patterns; the emission order is a permutation in which no broad route hides a
    narrow one.
  \<^item> \<open>Route_Types\<close>, \<open>Route_Gates\<close>, \<open>Route_Handlers\<close>, \<open>Route_Builder\<close> (\<open>caddyapi/route.go\<close>): the structure, the
    predicates, the handler builders, and \<open>BuildRoute\<close> cut at its comments. \<open>Route_Safety\<close> and
    \<open>Route_Guarantees\<close> read the emitted JSON; \<open>Route_Properties\<close> shows that gates dominate the backend,
    quarantined routes fail closed, gated routes are never cached, HTTPS and access lists enclose the
    chain, what maintenance serves, and on which numbers the builder panics.

  \<^bold>\<open>Node configuration.\<close>
  \<^item> \<open>Dns_Providers\<close>, \<open>Stream_Config\<close>, \<open>Node_Config\<close> (\<open>caddyapi/dnsproviders.go\<close>, \<open>stream.go\<close>, \<open>config.go\<close>): the
    document of a node. \<open>Node_Properties\<close> composes them with the route builder and the emission order:
    every route is listed once and in order, a client certificate is demanded for the hosts that
    require one unless another policy covers the name, the case where a wildcard policy hides
    it, and the cache application is mounted when a route needs it. DNS credentials round-trip.

  \<^bold>\<open>Fleet.\<close>
  \<^item> \<open>Fleet\<close> (\<open>routes/placement.go\<close>, the placement in \<open>lifecycle.go\<close> and \<open>health.go\<close>, \<open>handlers/admin_nodes_migrate.go\<close>,
    \<open>admin_hosts_bulk.go\<close>, \<open>admin_hosts_actions.go\<close>, \<open>internal/alert/failover.go\<close>): the tables and their
    transactions. \<open>Placement\<close> has their effect on the routes of a node; \<open>Placement_Properties\<close> the counter
    invariant, the refinement of an abstract ledger, atomic migration, and the operations that bypass
    the counter.
  \<^item> \<open>Push_Outbox\<close>, \<open>Push_Delivery\<close> (\<open>routes/outbox.go\<close>, \<open>push.go\<close>): markers, backoff and the push loop; no
    change is lost, versions only move forward, a pending marker is delivered, the backoff is bounded.
  \<^item> \<open>Node_Join\<close> (\<open>internal/nodejoin/service.go\<close>, \<open>internal/wireguard/keys.go\<close>, \<open>internal/security/nodename.go\<close>):
    a token admits at most one node, and the failure that burns a token.

  \<^bold>\<open>Tenancy and operation.\<close>
  \<^item> \<open>Quota\<close> (\<open>internal/quota/quota.go\<close> and the transactions that check it): the limits of a package hold, and
    the aggregate that can be exceeded.
  \<^item> \<open>Admin_Scope\<close> (\<open>internal/adminscope/service.go\<close>): the access checks and the list filter implement one
    policy.
  \<^item> \<open>Idempotency\<close> (\<open>internal/httpserver/middleware/idempotency.go\<close>): a request takes effect at most once, and
    its answer is repeated.
  \<^item> \<open>Leader\<close> (\<open>internal/leader/leader.go\<close>): one leader within the leases, takeover, and the flag that outlives
    a lease.
  \<^item> \<open>Backup_Stream\<close>, \<open>Backup_Integrity\<close> (\<open>internal/backup/crypto.go\<close>): decoding returns what was written, and a
    cut or rearranged stream is refused.

  \<^bold>\<open>Parameters and hypotheses.\<close> Functions outside the repository are arguments: the JSON codec, the regular
  expression compiler, \<open>idna.ToASCII\<close> and \<open>url.Parse\<close> (record \<open>go_env\<close>), AES-GCM (record \<open>aead\<close>), SHA-256,
  \<open>pem.Decode\<close>, the quotient of the database, and Caddy's match of server names. What a theorem needs of
  them is a named hypothesis, such as that decoding inverts encoding, and its witness instantiates
  them. The iteration order of a Go map is an argument, so a theorem holds for every order. In
  \<open>Idempotency\<close> time does not pass the reservation (24 hours) of a handler that still runs.

  \<^bold>\<open>Bounds and fuel.\<close> \<open>uf_find\<close> is a partial function and is shown to return on every forest the code builds.
  \<open>ipv6_loop\<close> has the eight groups of an address as fuel. \<open>pem_certs\<close> has the length of the input plus one,
  which is enough because a block takes at least a byte. \<open>itoa\<close> has the six bytes of the source and
  panics beyond them. All other recursion is structural or has a termination proof. The retries of
  \<open>finalizeIdem\<close> (2), of the join (5 addresses) and of a push are the constants of the source.

  \<^bold>\<open>Not modelled.\<close> HTTP calls to nodes and the drift check (\<open>caddyapi/client.go\<close>, the rest of \<open>push.go\<close>);
  the panel's handlers, views and sessions (\<open>handlers\<close>, \<open>internal/view\<close>, \<open>internal/auth\<close>), which parse
  forms, render pages and call cryptographic libraries; the scan of database rows into the builder's
  input (\<open>routes/build.go\<close>) and the single-row updates of routes (\<open>routes/routeupdate.go\<close> and others); log
  ingestion, metrics, alerts, mail and the assistant, which are I/O; dumps and destinations of backups;
  migrations and the statement rewriting for SQLite (\<open>internal/store\<close>), the tables being taken as the
  migrations define them; address screening that depends on name resolution (\<open>internal/security/ssrf.go\<close>,
  \<open>internal/streamguard\<close>); the programs under \<open>cmd\<close>, the Terraform provider, scripts and web assets. Of the
  modelled files, logging, the text of error messages and failing database connections are left out
  unless a component says otherwise.
\<close>

end
